(* ===== verification/Prelude.thy ===== *)
theory Prelude
  imports Main "HOL-Library.Word" "HOL-Library.Code_Target_Nat"
begin

text \<open>
  What every component of the model shares: Go error values, the result of a Go call
  (a value, an error, a panic, or a goroutine that blocks), the state-passing type of a
  Go function that has effects, the rules by which the component proofs carry an invariant
  through such a function, and the paths of goroutines that take turns.
\<close>

named_theorems go_simps "unfolding of the sequencing combinators"
named_theorems returns_intros "functions that neither panic nor block"
named_theorems keeps_intros "invariant preservation, one rule per combinator or operation"

section \<open>Error values\<close>

text \<open>
  \<open>ErrNew\<close> is \<open>errors.New\<close> and \<open>fmt.Errorf\<close> without \<open>%w\<close>; \<open>ErrWrap\<close> is
  \<open>fmt.Errorf\<close> with \<open>%w\<close>; \<open>ErrText\<close> is the same with the error's text only (\<open>%s\<close>);
  \<open>ErrPermanent\<close> is \<open>*backoff.PermanentError\<close>;
  \<open>ErrNotExist\<close> is an error for which \<open>os.IsNotExist\<close> holds; \<open>ErrEOF\<close> is \<open>io.EOF\<close>;
  \<open>ErrExt n\<close> is any other error that comes from outside the program.
\<close>

datatype err =
    ErrNew string
  | ErrWrap string err
  | ErrText string err
  | ErrPermanent err
  | ErrNotExist
  | ErrEOF
  | ErrExt nat

section \<open>Results and effectful functions\<close>

text \<open>
  \<open>Panic\<close> is a Go panic (it passes every error check of the callers); \<open>Stuck\<close> is a call
  that does not return on its own: it waits for a mutex that is held or for a channel that
  nobody has closed, or it loops for ever.
\<close>

datatype 'a res = Ok 'a | Err err | Panic string | Stuck

type_synonym ('w, 'a) go = "'w \<Rightarrow> 'a res \<times> 'w"

definition ret :: "'a \<Rightarrow> ('w, 'a) go" where
  "ret x w = (Ok x, w)"

definition throw :: "err \<Rightarrow> ('w, 'a) go" where
  "throw e w = (Err e, w)"

definition panic :: "string \<Rightarrow> ('w, 'a) go" where
  "panic s w = (Panic s, w)"

definition stuck :: "('w, 'a) go" where
  "stuck w = (Stuck, w)"

text \<open>A pointer that the code follows.\<close>

definition deref :: "'a option \<Rightarrow> ('w, 'a) go" where
  "deref p = (case p of None \<Rightarrow> panic ''nil pointer dereference'' | Some x \<Rightarrow> ret x)"

text \<open>\<open>x, err := m(); if err != nil { return err }; f(x)\<close>\<close>

definition bind :: "('w, 'a) go \<Rightarrow> ('a \<Rightarrow> ('w, 'b) go) \<Rightarrow> ('w, 'b) go" where
  "bind m f w = (case m w of
      (Ok x, w') \<Rightarrow> f x w'
    | (Err e, w') \<Rightarrow> (Err e, w')
    | (Panic s, w') \<Rightarrow> (Panic s, w')
    | (Stuck, w') \<Rightarrow> (Stuck, w'))"

text \<open>\<open>x, err := m()\<close> where the caller looks at \<open>err\<close> itself.\<close>

definition attempt :: "('w, 'a) go \<Rightarrow> ('w, err + 'a) go" where
  "attempt m w = (case m w of
      (Ok x, w') \<Rightarrow> (Ok (Inr x), w')
    | (Err e, w') \<Rightarrow> (Ok (Inl e), w')
    | (Panic s, w') \<Rightarrow> (Panic s, w')
    | (Stuck, w') \<Rightarrow> (Stuck, w'))"

text \<open>\<open>m()\<close> as a statement: its error, if it has one, is dropped.\<close>

definition ignore :: "('w, 'a) go \<Rightarrow> ('w, unit) go" where
  "ignore m = bind (attempt m) (\<lambda>_. ret ())"

text \<open>\<open>defer d(); ...\<close>: \<open>d\<close> runs when the rest returns or panics; its own error is dropped.\<close>

definition deferred :: "('w, 'b) go \<Rightarrow> 'a res \<times> 'w \<Rightarrow> 'a res \<times> 'w" where
  "deferred d rw = (case rw of (Stuck, w) \<Rightarrow> (Stuck, w) | (r, w) \<Rightarrow> (r, snd (ignore d w)))"

definition deferring :: "('w, 'b) go \<Rightarrow> ('w, 'a) go \<Rightarrow> ('w, 'a) go" where
  "deferring d m w = deferred d (m w)"

definition gets :: "('w \<Rightarrow> 'a) \<Rightarrow> ('w, 'a) go" where
  "gets f w = (Ok (f w), w)"

definition modify :: "('w \<Rightarrow> 'w) \<Rightarrow> ('w, unit) go" where
  "modify f w = (Ok (), f w)"

text \<open>A loop \<open>for _, x := range xs\<close> whose body may return an error.\<close>

fun for_each :: "('a \<Rightarrow> ('w, unit) go) \<Rightarrow> 'a list \<Rightarrow> ('w, unit) go" where
  "for_each f [] = ret ()"
| "for_each f (x # xs) = bind (f x) (\<lambda>_. for_each f xs)"

lemmas go_defs [go_simps] =
  ret_def throw_def panic_def stuck_def bind_def attempt_def ignore_def gets_def modify_def

lemma bind_ret [simp]: "bind (ret x) f = f x"
  by (simp add: fun_eq_iff go_simps)

lemma bind_throw [simp]: "bind (throw e) f = throw e"
  by (simp add: fun_eq_iff go_simps)

lemma bind_assoc: "bind (bind m f) g = bind m (\<lambda>x. bind (f x) g)"
  by (auto simp: fun_eq_iff go_simps split: prod.splits res.splits)

lemma attempt_ret [simp]: "attempt (ret x) = ret (Inr x)"
  by (simp add: fun_eq_iff go_simps)

lemma bind_OkE:
  assumes "bind m f w = (Ok y, w'')"
  obtains x w' where "m w = (Ok x, w')" and "f x w' = (Ok y, w'')"
  using assms by (auto simp: bind_def split: prod.splits res.splits)

lemma bind_ErrE:
  assumes "bind m f w = (Err e, w'')"
  obtains (first) "m w = (Err e, w'')"
  | (second) x w' where "m w = (Ok x, w')" and "f x w' = (Err e, w'')"
  using assms by (auto simp: bind_def split: prod.splits res.splits)

lemma bind_Ok [simp]: "m w = (Ok x, w') \<Longrightarrow> bind m f w = f x w'"
  by (simp add: bind_def)

lemma bind_Err [simp]: "m w = (Err e, w') \<Longrightarrow> bind m f w = (Err e, w')"
  by (simp add: bind_def)

lemma bind_Panic [simp]: "m w = (Panic s, w') \<Longrightarrow> bind m f w = (Panic s, w')"
  by (simp add: bind_def)

lemma bind_Stuck [simp]: "m w = (Stuck, w') \<Longrightarrow> bind m f w = (Stuck, w')"
  by (simp add: bind_def)

section \<open>Carrying an invariant through an effectful function\<close>

definition keeps :: "('w \<Rightarrow> bool) \<Rightarrow> ('w, 'a) go \<Rightarrow> bool" where
  "keeps I m \<longleftrightarrow> (\<forall>w. I w \<longrightarrow> I (snd (m w)))"

lemma keepsI: "(\<And>w. I w \<Longrightarrow> I (snd (m w))) \<Longrightarrow> keeps I m"
  by (simp add: keeps_def)

lemma keepsD: "keeps I m \<Longrightarrow> I w \<Longrightarrow> I (snd (m w))"
  by (simp add: keeps_def)

lemma keeps_run: "keeps I m \<Longrightarrow> m w = (r, w') \<Longrightarrow> I w \<Longrightarrow> I w'"
  by (metis keeps_def snd_conv)

lemma keeps_ret [keeps_intros]: "keeps I (ret x)"
  by (simp add: keeps_def go_simps)

lemma keeps_throw [keeps_intros]: "keeps I (throw e)"
  by (simp add: keeps_def go_simps)

lemma keeps_panic [keeps_intros]: "keeps I (panic s)"
  by (simp add: keeps_def go_simps)

lemma keeps_deref [keeps_intros]: "keeps I (deref p)"
  by (simp add: deref_def keeps_ret keeps_panic split: option.splits)

lemma keeps_stuck [keeps_intros]: "keeps I stuck"
  by (simp add: keeps_def go_simps)

lemma keeps_gets [keeps_intros]: "keeps I (gets f)"
  by (simp add: keeps_def go_simps)

lemma keeps_modify: "(\<And>w. I w \<Longrightarrow> I (f w)) \<Longrightarrow> keeps I (modify f)"
  by (simp add: keeps_def go_simps)

lemma keeps_bind [keeps_intros]:
  assumes m: "keeps I m" and f: "\<And>x. keeps I (f x)"
  shows "keeps I (bind m f)"
proof (rule keepsI)
  fix w assume w: "I w"
  obtain r w' where mw: "m w = (r, w')" by (cases "m w")
  have w': "I w'" by (rule keeps_run [OF m mw w])
  show "I (snd (bind m f w))"
    by (cases r) (simp_all add: bind_def mw w' keepsD [OF f w'])
qed

lemma keeps_attempt [keeps_intros]: "keeps I m \<Longrightarrow> keeps I (attempt m)"
  by (auto simp: keeps_def attempt_def split: prod.splits res.splits)

lemma keeps_ignore [keeps_intros]: "keeps I m \<Longrightarrow> keeps I (ignore m)"
  by (simp add: ignore_def keeps_intros)

lemma keeps_deferring [keeps_intros]: "keeps I d \<Longrightarrow> keeps I m \<Longrightarrow> keeps I (deferring d m)"
  by (auto simp: keeps_def deferring_def deferred_def ignore_def bind_def attempt_def ret_def
      split: prod.splits res.splits)

lemma keeps_if [keeps_intros]: "keeps I a \<Longrightarrow> keeps I b \<Longrightarrow> keeps I (if c then a else b)"
  by simp

lemma keeps_case_option [keeps_intros]:
  "keeps I a \<Longrightarrow> (\<And>x. keeps I (b x)) \<Longrightarrow> keeps I (case v of None \<Rightarrow> a | Some x \<Rightarrow> b x)"
  by (simp split: option.splits)

lemma keeps_case_sum [keeps_intros]:
  "(\<And>x. keeps I (a x)) \<Longrightarrow> (\<And>x. keeps I (b x)) \<Longrightarrow>
   keeps I (case v of Inl x \<Rightarrow> a x | Inr x \<Rightarrow> b x)"
  by (simp split: sum.splits)

lemma keeps_case_prod [keeps_intros]:
  "(\<And>x y. keeps I (f x y)) \<Longrightarrow> keeps I (case v of (x, y) \<Rightarrow> f x y)"
  by (simp split: prod.splits)

lemma keeps_for_each [keeps_intros]:
  "(\<And>x. keeps I (f x)) \<Longrightarrow> keeps I (for_each f xs)"
  by (induction xs) (simp_all add: keeps_intros)

text \<open>The same where the function does not return a value: what a failed run has left alone.\<close>

definition keeps_failing :: "('w \<Rightarrow> bool) \<Rightarrow> ('w, 'a) go \<Rightarrow> bool" where
  "keeps_failing I m \<longleftrightarrow> (\<forall>w. I w \<longrightarrow> (\<forall>x. fst (m w) \<noteq> Ok x) \<longrightarrow> I (snd (m w)))"

lemma keeps_failingD:
  "keeps_failing I m \<Longrightarrow> I w \<Longrightarrow> m w = (r, w') \<Longrightarrow> (\<And>x. r \<noteq> Ok x) \<Longrightarrow> I w'"
  by (fastforce simp: keeps_failing_def)

lemma keeps_failing_keeps: "keeps I m \<Longrightarrow> keeps_failing I m"
  by (simp add: keeps_failing_def keeps_def)

lemma keeps_failing_total: "(\<And>w. \<exists>x w'. m w = (Ok x, w')) \<Longrightarrow> keeps_failing I m"
  unfolding keeps_failing_def by (metis fst_conv)

lemma keeps_failing_bind:
  assumes m: "keeps I m" and f: "\<And>x. keeps_failing I (f x)"
  shows "keeps_failing I (bind m f)"
  unfolding keeps_failing_def
proof (intro allI impI)
  fix w assume w: "I w" and no: "\<forall>x. fst (bind m f w) \<noteq> Ok x"
  obtain r w' where mw: "m w = (r, w')" by (cases "m w")
  have w': "I w'" by (rule keeps_run [OF m mw w])
  show "I (snd (bind m f w))"
  proof (cases r)
    case (Ok x)
    then have b: "bind m f w = f x w'" using mw by simp
    obtain r' w'' where fx: "f x w' = (r', w'')" by (cases "f x w'")
    have "I w''" by (rule keeps_failingD [OF f w' fx]) (use no b fx in auto)
    with b fx show ?thesis by simp
  qed (use mw w' in simp_all)
qed

section \<open>Functions that return\<close>

text \<open>\<open>returns m\<close>: \<open>m\<close> ends with a value or an error, it neither panics nor blocks.\<close>

definition returns :: "('w, 'a) go \<Rightarrow> bool" where
  "returns m \<longleftrightarrow> (\<forall>w. (\<exists>x w'. m w = (Ok x, w')) \<or> (\<exists>e w'. m w = (Err e, w')))"

lemma returnsE:
  assumes "returns m"
  obtains x w' where "m w = (Ok x, w')" | e w' where "m w = (Err e, w')"
  using assms unfolding returns_def by blast

lemma returns_ret [returns_intros]: "returns (ret x)"
  by (simp add: returns_def go_simps)

lemma returns_throw [returns_intros]: "returns (throw e)"
  by (simp add: returns_def go_simps)

lemma returns_gets [returns_intros]: "returns (gets f)"
  by (simp add: returns_def go_simps)

lemma returns_modify [returns_intros]: "returns (modify f)"
  by (simp add: returns_def go_simps)

lemma returns_bind [returns_intros]:
  assumes "returns m" "\<And>x. returns (f x)" shows "returns (bind m f)"
  unfolding returns_def
proof
  fix w
  from assms(1) show "(\<exists>x w'. bind m f w = (Ok x, w')) \<or> (\<exists>e w'. bind m f w = (Err e, w'))"
    by (rule returnsE [where w = w]) (use assms(2) in \<open>auto simp: returns_def\<close>)
qed

lemma returns_attempt [returns_intros]:
  assumes "returns m" shows "returns (attempt m)"
  unfolding returns_def
proof
  fix w
  from assms show "(\<exists>x w'. attempt m w = (Ok x, w')) \<or> (\<exists>e w'. attempt m w = (Err e, w'))"
    by (rule returnsE [where w = w]) (simp_all add: attempt_def)
qed

lemma returns_ignore [returns_intros]: "returns m \<Longrightarrow> returns (ignore m)"
  by (simp add: ignore_def returns_intros)

lemma returns_if [returns_intros]: "returns a \<Longrightarrow> returns b \<Longrightarrow> returns (if c then a else b)"
  by simp

lemma returns_case_option [returns_intros]:
  "returns a \<Longrightarrow> (\<And>x. returns (b x)) \<Longrightarrow> returns (case v of None \<Rightarrow> a | Some x \<Rightarrow> b x)"
  by (simp split: option.splits)

lemma returns_case_sum [returns_intros]:
  "(\<And>x. returns (a x)) \<Longrightarrow> (\<And>x. returns (b x)) \<Longrightarrow>
   returns (case v of Inl x \<Rightarrow> a x | Inr x \<Rightarrow> b x)"
  by (simp split: sum.splits)

section \<open>Lists\<close>

text \<open>The part of \<open>xs\<close> up to and including the first element that satisfies \<open>P\<close>.\<close>

fun upto_first :: "('a \<Rightarrow> bool) \<Rightarrow> 'a list \<Rightarrow> 'a list" where
  "upto_first P [] = []"
| "upto_first P (x # xs) = (if P x then [x] else x # upto_first P xs)"

lemma upto_first_prefix: "\<exists>ys. xs = upto_first P xs @ ys"
  by (induction xs) auto

lemma upto_first_all: "(\<forall>x \<in> set xs. \<not> P x) \<Longrightarrow> upto_first P xs = xs"
  by (induction xs) auto

section \<open>Interleavings\<close>

text \<open>A path of a step relation with labels, for systems whose goroutines take turns.\<close>

inductive run_path :: "('a \<Rightarrow> 's \<Rightarrow> 's \<Rightarrow> bool) \<Rightarrow> 'a list \<Rightarrow> 's \<Rightarrow> 's \<Rightarrow> bool" for step where
  run_Nil: "run_path step [] s s"
| run_Cons: "step a s s' \<Longrightarrow> run_path step as s' s'' \<Longrightarrow> run_path step (a # as) s s''"

inductive_simps run_path_simps [simp]:
  "run_path step [] s s'" "run_path step (a # as) s s'"

lemma run_path_keeps:
  assumes "run_path step as s s'" "I s" "\<And>a s s'. step a s s' \<Longrightarrow> I s \<Longrightarrow> I s'"
  shows "I s'"
  using assms(1,2) by (induction rule: run_path.induct) (auto dest: assms(3))

lemma run_path_append: "run_path step (as @ bs) s s'' \<longleftrightarrow> (\<exists>s'. run_path step as s s' \<and> run_path step bs s' s'')"
  by (induction as arbitrary: s) auto

text \<open>Goroutines at the places \<open>ts\<close> of their bodies; \<open>turn\<close> is what one of them does next, \<open>None\<close> when it
  has to wait or has ended.\<close>

inductive interleave :: "('t \<Rightarrow> 'w \<Rightarrow> ('t \<times> 'w) option) \<Rightarrow> nat \<Rightarrow> 'w \<times> 't list \<Rightarrow> 'w \<times> 't list \<Rightarrow> bool" for turn where
  interleave_at: "i < length ts \<Longrightarrow> turn (ts ! i) w = Some (t, w') \<Longrightarrow> interleave turn i (w, ts) (w', ts[i := t])"

inductive_cases interleaveE: "interleave turn i s s'"

end
