(* ===== verification/Go_Strings.thy ===== *)
theory Go_Strings
  imports Prelude
begin

text \<open>
  The functions of Go's \<open>strings\<close> and \<open>strconv\<close> packages that the program calls, on
  \<open>string\<close> (a list of 8-bit characters, as a Go string is a sequence of bytes).
\<close>

section \<open>The strings package\<close>

definition HasPrefix :: "string \<Rightarrow> string \<Rightarrow> bool" where
  "HasPrefix s p \<longleftrightarrow> take (length p) s = p"

fun Contains :: "string \<Rightarrow> string \<Rightarrow> bool" where
  "Contains [] p = (p = [])"
| "Contains (c # s) p = (HasPrefix (c # s) p \<or> Contains s p)"

text \<open>\<open>strings.Replace(s, old, new, -1)\<close> for a non-empty \<open>old\<close> (the program has no other).\<close>

function ReplaceAll :: "string \<Rightarrow> string \<Rightarrow> string \<Rightarrow> string" where
  "ReplaceAll s old new =
     (if s = [] \<or> old = [] then s
      else if HasPrefix s old then new @ ReplaceAll (drop (length old) s) old new
      else hd s # ReplaceAll (tl s) old new)"
  by pat_completeness auto
termination
  by (relation "measure (\<lambda>(s, old, new). length s)") (auto simp: neq_Nil_conv)

declare ReplaceAll.simps [simp del]

text \<open>\<open>strings.Split(s, sep)\<close> for a one-character separator.\<close>

fun Split :: "string \<Rightarrow> char \<Rightarrow> string list" where
  "Split [] sep = [[]]"
| "Split (c # s) sep = (case Split s sep of
       [] \<Rightarrow> [[c]]
     | p # ps \<Rightarrow> if c = sep then [] # p # ps else (c # p) # ps)"

fun Join :: "string list \<Rightarrow> string \<Rightarrow> string" where
  "Join [] sep = []"
| "Join [x] sep = x"
| "Join (x # y # xs) sep = x @ sep @ Join (y # xs) sep"

definition is_space :: "char \<Rightarrow> bool" where
  "is_space c \<longleftrightarrow> c \<in> set [CHR '' '', CHR 0x09, CHR 0x0A, CHR 0x0B, CHR 0x0C, CHR 0x0D]"

definition TrimSpace :: "string \<Rightarrow> string" where
  "TrimSpace s = rev (dropWhile is_space (rev (dropWhile is_space s)))"

fun fields_acc :: "string \<Rightarrow> string \<Rightarrow> string list" where
  "fields_acc cur [] = (if cur = [] then [] else [rev cur])"
| "fields_acc cur (c # s) =
     (if is_space c then (if cur = [] then fields_acc [] s else rev cur # fields_acc [] s)
      else fields_acc (c # cur) s)"

definition Fields :: "string \<Rightarrow> string list" where
  "Fields s = fields_acc [] s"

section \<open>The strconv package\<close>

definition digit_char :: "nat \<Rightarrow> char" where
  "digit_char d = char_of (48 + d)"

definition digit_val :: "char \<Rightarrow> nat option" where
  "digit_val c = (let n = of_char c :: nat in if 48 \<le> n \<and> n \<le> 57 then Some (n - 48) else None)"

text \<open>\<open>strconv.Itoa\<close> of a non-negative number, and \<open>fmt.Sprint\<close> of an unsigned one.\<close>

fun Itoa :: "nat \<Rightarrow> string" where
  "Itoa n = (if n < 10 then [digit_char n] else Itoa (n div 10) @ [digit_char (n mod 10)])"

declare Itoa.simps [simp del]

text \<open>\<open>strconv.ParseUint(s, 10, bits)\<close>: a syntax error for the empty string and for any
  non-digit, a range error when the value needs more than \<open>bits\<close> bits. In base 10 an
  underscore is a syntax error. The scan stops at the first character that is wrong:
  a range error that comes before a bad character is the one reported.\<close>

datatype parse_error = ErrSyntax | ErrRange

fun parse_uint_acc :: "nat \<Rightarrow> nat \<Rightarrow> string \<Rightarrow> parse_error + nat" where
  "parse_uint_acc bits acc [] = Inr acc"
| "parse_uint_acc bits acc (c # s) = (case digit_val c of
       None \<Rightarrow> Inl ErrSyntax
     | Some d \<Rightarrow> if 2 ^ bits \<le> acc * 10 + d then Inl ErrRange
                 else parse_uint_acc bits (acc * 10 + d) s)"

definition ParseUint :: "string \<Rightarrow> nat \<Rightarrow> parse_error + nat" where
  "ParseUint s bits = (if s = [] then Inl ErrSyntax else parse_uint_acc bits 0 s)"

subsection \<open>Lemmas\<close>

lemma HasPrefix_append [simp]: "HasPrefix (p @ s) p"
  by (simp add: HasPrefix_def)

lemma HasPrefix_iff: "HasPrefix s p \<longleftrightarrow> (\<exists>r. s = p @ r)"
  by (auto simp: HasPrefix_def) (metis append_take_drop_id)

lemma Contains_char: "Contains s [c] \<longleftrightarrow> c \<in> set s"
  by (induction s) (auto simp: HasPrefix_def)

lemma ReplaceAll_id:
  assumes "\<not> Contains s old" shows "ReplaceAll s old new = s"
  using assms
proof (induction s)
  case Nil
  then show ?case by (simp add: ReplaceAll.simps)
next
  case (Cons c s)
  then show ?case by (simp add: ReplaceAll.simps [of "c # s"])
qed

lemma ReplaceAll_prefix:
  "old \<noteq> [] \<Longrightarrow> ReplaceAll (old @ s) old new = new @ ReplaceAll s old new"
  by (subst ReplaceAll.simps) simp

lemma Split_not_Nil [simp]: "Split s sep \<noteq> []"
  by (induction s) (auto split: list.splits)

lemma Split_no_sep: "sep \<notin> set s \<Longrightarrow> Split s sep = [s]"
  by (induction s) auto

lemma Split_append_sep: "sep \<notin> set s \<Longrightarrow> Split (s @ sep # t) sep = s # Split t sep"
proof (induction s)
  case Nil
  then show ?case by (cases "Split t sep") auto
next
  case (Cons c s)
  then show ?case by auto
qed

lemma Join_sep_mem: "2 \<le> length xs \<Longrightarrow> set sep \<subseteq> set (Join xs sep)"
  by (cases "(xs, sep)" rule: Join.cases) auto

lemma digit_val_char [simp]: "d < 10 \<Longrightarrow> digit_val (digit_char d) = Some d"
  by (simp add: digit_val_def digit_char_def)

lemma Itoa_not_Nil [simp]: "Itoa n \<noteq> []"
  by (subst Itoa.simps) simp

lemma parse_uint_acc_append:
  "parse_uint_acc bits acc (s @ t) = (case parse_uint_acc bits acc s of
     Inl e \<Rightarrow> Inl e | Inr a \<Rightarrow> parse_uint_acc bits a t)"
  by (induction s arbitrary: acc) (auto split: option.splits)

lemma parse_uint_acc_Itoa: "n < 2 ^ bits \<Longrightarrow> parse_uint_acc bits 0 (Itoa n) = Inr n"
proof (induction n rule: Itoa.induct)
  case (1 n)
  show ?case
  proof (cases "n < 10")
    case True
    with "1.prems" show ?thesis by (subst Itoa.simps) simp
  next
    case False
    have "n div 10 < 2 ^ bits" using "1.prems" by linarith
    with "1.IH" [OF False] have "parse_uint_acc bits 0 (Itoa (n div 10)) = Inr (n div 10)" .
    moreover have "n div 10 * 10 + n mod 10 = n" by simp
    ultimately show ?thesis using False "1.prems"
      by (subst Itoa.simps) (simp add: parse_uint_acc_append)
  qed
qed

lemma ParseUint_Itoa: "n < 2 ^ bits \<Longrightarrow> ParseUint (Itoa n) bits = Inr n"
  by (simp add: ParseUint_def parse_uint_acc_Itoa)

lemma digit_val_None_colon [simp]: "digit_val CHR '':'' = None"
  by (simp add: digit_val_def)

lemma digit_char_neq: "d < 10 \<Longrightarrow> digit_val c = None \<Longrightarrow> digit_char d \<noteq> c"
  by auto

lemma Itoa_digits: "c \<in> set (Itoa n) \<Longrightarrow> digit_val c \<noteq> None"
proof (induction n rule: Itoa.induct)
  case (1 n)
  show ?case
  proof (cases "n < 10")
    case True
    with "1.prems" show ?thesis by (subst (asm) Itoa.simps) simp
  next
    case False
    with "1.prems" have "c \<in> set (Itoa (n div 10)) \<or> c = digit_char (n mod 10)"
      by (subst (asm) Itoa.simps) auto
    with "1.IH" [OF False] show ?thesis by auto
  qed
qed

text \<open>Every accepted string is a non-empty digit string whose value fits.\<close>

lemma parse_uint_acc_range:
  "parse_uint_acc bits acc s = Inr n \<Longrightarrow> acc < 2 ^ bits \<Longrightarrow>
   n < 2 ^ bits \<and> (\<forall>c \<in> set s. digit_val c \<noteq> None)"
  by (induction s arbitrary: acc) (auto split: option.splits if_splits)

lemma ParseUint_range:
  "ParseUint s bits = Inr n \<Longrightarrow> n < 2 ^ bits \<and> s \<noteq> [] \<and> (\<forall>c \<in> set s. digit_val c \<noteq> None)"
  using parse_uint_acc_range [of bits 0 s n] by (auto simp: ParseUint_def split: if_splits)

end
