(* ===== verification/Flag_Port.thy ===== *)
theory Flag_Port
  imports Go_Strings
begin

text \<open>
  \<open>types/flagtype/flag.go\<close>: a port number as a command-line flag. A \<open>portValue\<close> holds a pointer
  to a \<open>uint16\<close>; \<open>Set\<close> writes through it, so it is given the number and returns the new one.
\<close>

type_synonym portValue = "16 word option"

definition DefaultServerPort :: "16 word" where "DefaultServerPort = 443"
definition DefaultSignalingServerPort :: "16 word" where "DefaultSignalingServerPort = 443"

definition PortValue :: "16 word \<Rightarrow> portValue" where
  "PortValue defaultPort = Some defaultPort"

definition portValue_String :: "portValue \<Rightarrow> string" where
  "portValue_String p = (case p of None \<Rightarrow> [] | Some n \<Rightarrow> Itoa (unat n))"

definition portValue_Set :: "portValue \<Rightarrow> string \<Rightarrow> unit res \<times> portValue" where
  "portValue_Set p v =
     (if v = [] then (Err (ErrNew ''can't be the empty string''), p)
      else if Contains v '':'' then (Err (ErrNew ''expecting just a port number, without a colon''), p)
      else case ParseUint v 64 of
          Inl _ \<Rightarrow> (Err (ErrNew ''not a valid number''), p)
        | Inr n \<Rightarrow>
            if 65535 < n then (Err (ErrNew ''out of range for port number''), p)
            else (case p of None \<Rightarrow> (Panic ''nil pointer dereference'', p)
                  | Some _ \<Rightarrow> (Ok (), Some (of_nat n))))"

section \<open>Properties\<close>

lemma ParseUint_no_colon: "ParseUint v bits = Inr n \<Longrightarrow> \<not> Contains v '':'' \<and> v \<noteq> []"
  using ParseUint_range [of v bits n] by (auto simp: Contains_char)

text \<open>
  The port flag accepts exactly the decimal texts of the numbers up to 65535 and stores the
  number; every other text is refused with an error and leaves the port as it was.
\<close>
theorem portValue_Set_accepts:
  "portValue_Set (Some d) v = (case ParseUint v 64 of
       Inr n \<Rightarrow> if n \<le> 65535 then (Ok (), Some (of_nat n))
               else (Err (ErrNew ''out of range for port number''), Some d)
     | Inl _ \<Rightarrow> (Err (if v = [] then ErrNew ''can't be the empty string''
                    else if CHR '':'' \<in> set v then ErrNew ''expecting just a port number, without a colon''
                    else ErrNew ''not a valid number''), Some d))"
  using ParseUint_no_colon [of v 64]
  by (auto simp: portValue_Set_def Contains_char split: sum.splits)

text \<open>
  Setting the port to the text a port is shown as gives that port back, whatever port was
  set before.
\<close>
theorem portValue_roundtrip:
  "portValue_Set (PortValue d) (portValue_String (Some n)) = (Ok (), Some n)"
proof -
  have n: "unat n < 2 ^ 16" using unsigned_less [of n] by simp
  then have p: "ParseUint (Itoa (unat n)) 64 = Inr (unat n)" by (simp add: ParseUint_Itoa)
  from ParseUint_no_colon [OF p] n show ?thesis
    by (simp add: portValue_Set_def portValue_String_def PortValue_def p)
qed

end
