(* ===== verification/Hex_Key.thy ===== *)
theory Hex_Key
  imports Prelude
begin

text \<open>
  \<open>types/key/key.go\<close> and \<open>types/key/client.go\<close>: the hexadecimal text form of the client's
  private key. Bytes are \<open>8 word\<close>. \<open>parseHex\<close> writes into the caller's slice as it
  goes, so the model returns the slice it leaves behind as well as the error.
\<close>

unbundle bit_operations_syntax

type_synonym u8 = "8 word"

definition bytes_of :: "string \<Rightarrow> u8 list" where
  "bytes_of s = map of_char s"

section \<open>key.go\<close>

text \<open>The \<open>switch\<close> in the source's order; \<open>'0'\<close> is 48, \<open>'a'\<close> 97, \<open>'A'\<close> 65. Byte
  arithmetic wraps.\<close>

definition fromHexChar :: "u8 \<Rightarrow> u8 \<times> bool" where
  "fromHexChar c =
     (if 48 \<le> c \<and> c \<le> 57 then (c - 48, True)
      else if 97 \<le> c \<and> c \<le> 102 then (c - 97 + 10, True)
      else if 65 \<le> c \<and> c \<le> 70 then (c - 65 + 10, True)
      else (0, False))"

text \<open>\<open>hex.Encode\<close> of the standard library: two lower-case digits a byte.\<close>

definition hex_digit :: "u8 \<Rightarrow> u8" where
  "hex_digit d = (if d < 10 then 48 + d else 87 + d)"

definition hex_encode :: "u8 list \<Rightarrow> u8 list" where
  "hex_encode k = concat (map (\<lambda>b. [hex_digit (drop_bit 4 b), hex_digit (take_bit 4 b)]) k)"

definition toHex :: "u8 list \<Rightarrow> u8 list \<Rightarrow> u8 list" where
  "toHex k prefix = prefix @ hex_encode k"

datatype hex_error = WrongPrefix | WrongSize nat nat | InvalidHexCharacter

text \<open>The loop \<open>for i := range out\<close>: \<open>in\<close> is read two characters at a time, \<open>out\<close> is
  overwritten from the left and keeps its tail when a character is wrong.\<close>

fun parse_hex_loop :: "u8 list \<Rightarrow> u8 list \<Rightarrow> hex_error option \<times> u8 list" where
  "parse_hex_loop (x # out) (h # l # inp) =
     (case (fromHexChar h, fromHexChar l) of ((a, ok1), (b, ok2)) \<Rightarrow>
        if \<not> ok1 \<or> \<not> ok2 then (Some InvalidHexCharacter, x # out)
        else (case parse_hex_loop out inp of
                (e, out') \<Rightarrow> (e, (push_bit 4 a OR b) # out')))"
| "parse_hex_loop out inp = (None, out)"

definition parseHex :: "u8 list \<Rightarrow> u8 list \<Rightarrow> u8 list \<Rightarrow> hex_error option \<times> u8 list" where
  "parseHex out inp prefix =
     (if take (length prefix) inp \<noteq> prefix then (Some WrongPrefix, out)
      else let inp = drop (length prefix) inp; want = length out * 2 in
        if length inp \<noteq> want then (Some (WrongSize (length inp) want), out)
        else parse_hex_loop out inp)"

section \<open>client.go\<close>

definition clientPrivateKeyPrefix :: "u8 list" where
  "clientPrivateKeyPrefix = bytes_of ''private_client_key:''"

text \<open>\<open>RunetaleClientPrivateState\<close>; \<open>wgtypes.Key\<close> is a 32-byte array. The zero value
  holds 32 zero bytes.\<close>

record RunetaleClientPrivateState =
  privateKey :: "u8 list"

definition zero_private_state :: RunetaleClientPrivateState where
  "zero_private_state = \<lparr>privateKey = replicate 32 0\<rparr>"

definition MarshalText :: "RunetaleClientPrivateState \<Rightarrow> u8 list" where
  "MarshalText s = toHex (privateKey s) clientPrivateKeyPrefix"

definition UnmarshalText ::
  "RunetaleClientPrivateState \<Rightarrow> u8 list \<Rightarrow> hex_error option \<times> RunetaleClientPrivateState" where
  "UnmarshalText s b = (case parseHex (privateKey s) b clientPrivateKeyPrefix of
     (e, k) \<Rightarrow> (e, s\<lparr>privateKey := k\<rparr>))"

section \<open>Lemmas\<close>

subsection \<open>Nibbles and hexadecimal digits\<close>

lemma nibble_cases:
  assumes "(d :: u8) < 16"
  shows "d \<in> {0, 1, 2, 3, 4, 5, 6, 7, 8, 9, 10, 11, 12, 13, 14, 15}"
proof -
  have "unat d < 16" using assms by (simp add: word_less_nat_alt)
  then have "unat d \<in> {0, 1, 2, 3, 4, 5, 6, 7, 8, 9, 10, 11, 12, 13, 14, 15}"
    by (simp only: insert_iff empty_iff) presburger
  then show ?thesis by (simp add: word_unat_eq_iff)
qed

lemma hex_char_cases:
  assumes "snd (fromHexChar c)"
  shows "c \<in> {48, 49, 50, 51, 52, 53, 54, 55, 56, 57} \<or> c \<in> {97, 98, 99, 100, 101, 102} \<or>
    c \<in> {65, 66, 67, 68, 69, 70}"
proof -
  have "48 \<le> unat c \<and> unat c \<le> 57 \<or> 97 \<le> unat c \<and> unat c \<le> 102 \<or> 65 \<le> unat c \<and> unat c \<le> 70"
    using assms by (auto simp: fromHexChar_def word_le_nat_alt split: if_splits)
  then have "unat c \<in> {48, 49, 50, 51, 52, 53, 54, 55, 56, 57} \<or>
      unat c \<in> {97, 98, 99, 100, 101, 102} \<or> unat c \<in> {65, 66, 67, 68, 69, 70}"
    by (simp only: insert_iff empty_iff) presburger
  then show ?thesis by (simp add: word_unat_eq_iff)
qed

lemma fromHexChar_hex_digit [simp]: "d < 16 \<Longrightarrow> fromHexChar (hex_digit d) = (d, True)"
  by (drule nibble_cases) (elim insertE emptyE; simp add: fromHexChar_def hex_digit_def)

lemma drop_bit_nibble [simp]: "drop_bit 4 (b :: u8) < 16"
proof -
  have "unat b < 256" using unsigned_less [of b] by simp
  then have "unat b div 16 < 16" by simp
  moreover have "unat (drop_bit 4 b) = unat b div 16"
    by (simp only: unat_drop_bit_eq) (simp add: drop_bit_eq_div)
  ultimately show ?thesis by (simp add: word_less_nat_alt)
qed

lemma take_bit_nibble [simp]: "take_bit 4 (b :: u8) < 16"
  by (simp add: word_less_nat_alt take_bit_eq_mod unat_mod)

lemma nibbles_join [simp]: "push_bit 4 (drop_bit 4 b) OR take_bit 4 b = (b :: u8)"
  by (rule bit_word_eqI) (auto simp: bit_simps)

text \<open>Lower case, as \<open>hex.Encode\<close> writes it.\<close>

definition lower_hex :: "u8 \<Rightarrow> u8" where
  "lower_hex c = (if 65 \<le> c \<and> c \<le> 70 then c + 32 else c)"

lemma fromHexChar_sound:
  assumes "fromHexChar c = (d, True)"
  shows "d < 16 \<and> hex_digit d = lower_hex c"
proof -
  have "snd (fromHexChar c)" using assms by simp
  from hex_char_cases [OF this] assms show ?thesis
    by (elim disjE insertE emptyE; simp add: fromHexChar_def hex_digit_def lower_hex_def)
qed

lemma nibbles_split:
  assumes "h < 16" "l < 16"
  shows "drop_bit 4 (push_bit 4 h OR l) = (h :: u8) \<and> take_bit 4 (push_bit 4 h OR l) = l"
  using assms
  by (drule_tac nibble_cases, drule_tac nibble_cases) (elim insertE emptyE; simp)

lemma fromHexChar_complete:
  assumes "lower_hex c = hex_digit d" "d < 16"
  shows "fromHexChar c = (d, True)"
proof (cases "65 \<le> c \<and> c \<le> 70")
  case True
  then have "snd (fromHexChar c)" by (simp add: fromHexChar_def)
  then obtain d' where d': "fromHexChar c = (d', True)" by (cases "fromHexChar c") simp
  have "d' < 16" "hex_digit d' = hex_digit d"
    using fromHexChar_sound [OF d'] assms(1) by simp_all
  then have "d' = d" by (metis fromHexChar_hex_digit assms(2) prod.inject)
  with d' show ?thesis by simp
next
  case False
  then have "c = hex_digit d" using assms(1) by (auto simp: lower_hex_def split: if_splits)
  then show ?thesis using assms(2) by simp
qed

subsection \<open>Encoding and the decoding loop\<close>

lemma hex_encode_simps [simp]:
  "hex_encode [] = []"
  "hex_encode (b # k) = hex_digit (drop_bit 4 b) # hex_digit (take_bit 4 b) # hex_encode k"
  by (simp_all add: hex_encode_def)

lemma length_hex_encode [simp]: "length (hex_encode k) = length k * 2"
  by (induction k) simp_all

lemma hex_encode_short [simp]: "[] = hex_encode k \<longleftrightarrow> k = []" "[x] \<noteq> hex_encode k"
  by (cases k; simp)+

lemma lower_hex_digit [simp]: "d < 16 \<Longrightarrow> lower_hex (hex_digit d) = hex_digit d"
  using fromHexChar_sound [of "hex_digit d" d] by simp

lemma map_lower_hex_encode [simp]: "map lower_hex (hex_encode k) = hex_encode k"
  by (induction k) simp_all

lemma length_parse_hex_loop: "length (snd (parse_hex_loop out inp)) = length out"
  by (induction out inp rule: parse_hex_loop.induct) (auto split: prod.splits)

lemma parse_hex_loop_complete:
  "map lower_hex inp = hex_encode k \<Longrightarrow> length out = length k \<Longrightarrow>
   parse_hex_loop out inp = (None, k)"
proof (induction out inp arbitrary: k rule: parse_hex_loop.induct)
  case (1 x out h l inp)
  from "1.prems" obtain b k' where k: "k = b # k'" by (cases k) auto
  with "1.prems" have hl: "fromHexChar h = (drop_bit 4 b, True)" "fromHexChar l = (take_bit 4 b, True)"
    by (auto intro: fromHexChar_complete)
  have "parse_hex_loop out inp = (None, k')" using "1.IH" hl "1.prems" k by simp
  with hl k show ?case by simp
qed auto

lemma parse_hex_loop_sound:
  "parse_hex_loop out inp = (None, out') \<Longrightarrow> length inp = length out * 2 \<Longrightarrow>
   map lower_hex inp = hex_encode out'"
proof (induction out inp arbitrary: out' rule: parse_hex_loop.induct)
  case (1 x out h l inp)
  obtain a ok1 where h: "fromHexChar h = (a, ok1)" by (cases "fromHexChar h")
  obtain b ok2 where l: "fromHexChar l = (b, ok2)" by (cases "fromHexChar l")
  from "1.prems"(1) h l have ok: "ok1" "ok2" by (auto split: if_splits)
  obtain e o2 where rec: "parse_hex_loop out inp = (e, o2)" by (cases "parse_hex_loop out inp")
  with "1.prems"(1) h l ok have e: "e = None" "out' = (push_bit 4 a OR b) # o2" by auto
  have "map lower_hex inp = hex_encode o2" using "1.IH" h l e rec ok "1.prems"(2) by simp
  moreover have "a < 16 \<and> hex_digit a = lower_hex h" "b < 16 \<and> hex_digit b = lower_hex l"
    using h l ok by (auto intro!: fromHexChar_sound)
  ultimately show ?case using nibbles_split [of a b] by (simp add: e)
qed (auto simp: length_Suc_conv)

text \<open>On a bad character the bytes before it have been written and the others are kept.\<close>

lemma parse_hex_loop_error:
  "parse_hex_loop out inp = (Some e, out') \<Longrightarrow> length inp = length out * 2 \<Longrightarrow>
   e = InvalidHexCharacter \<and> (\<exists>i < length out. drop i out' = drop i out \<and>
     hex_encode (take i out') = map lower_hex (take (i * 2) inp) \<and>
     \<not> (snd (fromHexChar (inp ! (i * 2))) \<and> snd (fromHexChar (inp ! (i * 2 + 1)))))"
proof (induction out inp arbitrary: out' rule: parse_hex_loop.induct)
  case (1 x out h l inp)
  obtain a ok1 where h: "fromHexChar h = (a, ok1)" by (cases "fromHexChar h")
  obtain b ok2 where l: "fromHexChar l = (b, ok2)" by (cases "fromHexChar l")
  show ?case
  proof (cases "ok1 \<and> ok2")
    case False
    with "1.prems" h l show ?thesis by (intro conjI exI [of _ 0]) auto
  next
    case True
    obtain e2 o2 where rec: "parse_hex_loop out inp = (e2, o2)" by (cases "parse_hex_loop out inp")
    with "1.prems"(1) h l True have e: "e2 = Some e" "out' = (push_bit 4 a OR b) # o2" by auto
    have len: "length inp = length out * 2" using "1.prems"(2) by simp
    have "e = InvalidHexCharacter \<and> (\<exists>i < length out. drop i o2 = drop i out \<and>
      hex_encode (take i o2) = map lower_hex (take (i * 2) inp) \<and>
      \<not> (snd (fromHexChar (inp ! (i * 2))) \<and> snd (fromHexChar (inp ! (i * 2 + 1)))))"
      using True rec e(1) len by (intro "1.IH" [of "(a, ok1)" "(b, ok2)" a ok1 b ok2]) (simp_all add: h l)
    then obtain i where i: "e = InvalidHexCharacter" "i < length out" "drop i o2 = drop i out"
      "hex_encode (take i o2) = map lower_hex (take (i * 2) inp)"
      "\<not> (snd (fromHexChar (inp ! (i * 2))) \<and> snd (fromHexChar (inp ! (i * 2 + 1))))" by blast
    have "a < 16 \<and> hex_digit a = lower_hex h" "b < 16 \<and> hex_digit b = lower_hex l"
      using h l True by (auto intro!: fromHexChar_sound)
    with i nibbles_split [of a b] show ?thesis
      by (intro conjI exI [of _ "Suc i"]) (simp_all add: e)
  qed
qed (auto simp: length_Suc_conv)

section \<open>The text form of the private key\<close>

lemma private_key_update_eq [simp]:
  "s\<lparr>privateKey := a\<rparr> = s\<lparr>privateKey := b\<rparr> \<longleftrightarrow> a = b"
  by (cases s) simp

text \<open>
  C13. \<open>UnmarshalText\<close> on a 32-byte key accepts exactly the texts that consist of the
  prefix and 64 hexadecimal digits of either case, and then the key holds the bytes the
  digits spell; the error values tell the two other cases apart.\<close>
theorem UnmarshalText_accepts:
  assumes "length (privateKey s) = 32"
  shows "UnmarshalText s b = (None, s\<lparr>privateKey := k\<rparr>) \<longleftrightarrow>
    length k = 32 \<and> take (length clientPrivateKeyPrefix) b = clientPrivateKeyPrefix \<and>
    map lower_hex (drop (length clientPrivateKeyPrefix) b) = hex_encode k"
proof -
  define inp where "inp = drop (length clientPrivateKeyPrefix) b"
  have "parse_hex_loop (privateKey s) inp = (None, k) \<and> length inp = 64 \<longleftrightarrow>
      length k = 32 \<and> map lower_hex inp = hex_encode k"
  proof
    assume l: "parse_hex_loop (privateKey s) inp = (None, k) \<and> length inp = 64"
    then show "length k = 32 \<and> map lower_hex inp = hex_encode k"
      using parse_hex_loop_sound [of "privateKey s" inp k]
        length_parse_hex_loop [of "privateKey s" inp] assms by simp
  next
    assume r: "length k = 32 \<and> map lower_hex inp = hex_encode k"
    then have "length (map lower_hex inp) = 64" by simp
    then have "length inp = 64" by simp
    with r show "parse_hex_loop (privateKey s) inp = (None, k) \<and> length inp = 64"
      using parse_hex_loop_complete [of inp k "privateKey s"] assms by simp
  qed
  moreover have "UnmarshalText s b = (None, s\<lparr>privateKey := k\<rparr>) \<longleftrightarrow>
      take (length clientPrivateKeyPrefix) b = clientPrivateKeyPrefix \<and> length inp = 64 \<and>
      parse_hex_loop (privateKey s) inp = (None, k)"
    by (cases "parse_hex_loop (privateKey s) inp")
      (simp add: UnmarshalText_def parseHex_def assms inp_def Let_def)
  ultimately show ?thesis by (metis inp_def)
qed

definition key_state :: "u8 \<Rightarrow> RunetaleClientPrivateState" where
  "key_state b = \<lparr>privateKey = replicate 32 b\<rparr>"

theorem UnmarshalText_accepts_witness:
  "UnmarshalText (key_state 0) (clientPrivateKeyPrefix @ bytes_of (replicate 64 CHR ''A'')) =
     (None, key_state 0xAA)"
proof -
  have l: "length (privateKey (key_state 0)) = 32" by (simp add: key_state_def)
  have "map lower_hex (bytes_of (replicate 64 CHR ''A'')) = hex_encode (replicate 32 0xAA)"
    by code_simp
  then show ?thesis
    using UnmarshalText_accepts [OF l, of "clientPrivateKeyPrefix @ bytes_of (replicate 64 CHR ''A'')"
        "replicate 32 0xAA"] by (simp add: key_state_def)
qed

text \<open>
  C14. Round trip: unmarshalling the text form of a 32-byte key gives that key, whatever
  the receiver held before.\<close>
theorem UnmarshalText_MarshalText:
  assumes "length (privateKey s) = 32" "length (privateKey t) = 32"
  shows "UnmarshalText s (MarshalText t) = (None, t)"
  using assms parse_hex_loop_complete [of "hex_encode (privateKey t)" "privateKey t" "privateKey s"]
  by (simp add: UnmarshalText_def MarshalText_def toHex_def parseHex_def Let_def)

theorem UnmarshalText_MarshalText_witness:
  "UnmarshalText (key_state 1) (MarshalText (key_state 0xAB)) = (None, key_state 0xAB)"
  by (rule UnmarshalText_MarshalText) (simp_all add: key_state_def)

text \<open>
  A text that is refused for its prefix or its size leaves the key as it was; a text
  with a bad character leaves the bytes before it overwritten and the rest as they were, so
  a caller that goes on after the error holds neither the old nor the new key.\<close>
theorem UnmarshalText_error:
  assumes "length (privateKey s) = 32" "UnmarshalText s b = (Some e, s')"
  shows "(e \<noteq> InvalidHexCharacter \<and> s' = s) \<or>
    (e = InvalidHexCharacter \<and> (\<exists>i < 32. drop i (privateKey s') = drop i (privateKey s) \<and>
      hex_encode (take i (privateKey s')) =
        map lower_hex (take (i * 2) (drop (length clientPrivateKeyPrefix) b))))"
proof -
  define inp where "inp = drop (length clientPrivateKeyPrefix) b"
  consider (prefix) "take (length clientPrivateKeyPrefix) b \<noteq> clientPrivateKeyPrefix"
    | (size) "take (length clientPrivateKeyPrefix) b = clientPrivateKeyPrefix" "length inp \<noteq> 64"
    | (loop) "take (length clientPrivateKeyPrefix) b = clientPrivateKeyPrefix" "length inp = 64"
    by blast
  then show ?thesis
  proof cases
    case loop
    then have "parse_hex_loop (privateKey s) inp = (Some e, privateKey s')"
      using assms by (cases "parse_hex_loop (privateKey s) inp")
        (auto simp: UnmarshalText_def parseHex_def Let_def inp_def [symmetric])
    from parse_hex_loop_error [OF this] loop assms(1) show ?thesis by (auto simp: inp_def)
  qed (use assms in \<open>auto simp: UnmarshalText_def parseHex_def Let_def inp_def [symmetric]\<close>)
qed

theorem UnmarshalText_error_witness:
  "\<exists>s'. UnmarshalText (key_state 1) (clientPrivateKeyPrefix @ bytes_of (''ffzz'' @ replicate 60 CHR ''0'')) =
      (Some InvalidHexCharacter, s') \<and> s' \<noteq> key_state 1 \<and>
      (\<exists>i < 32. drop i (privateKey s') = drop i (replicate 32 1))"
proof -
  define b where "b = clientPrivateKeyPrefix @ bytes_of (''ffzz'' @ replicate 60 CHR ''0'')"
  define s' where "s' = \<lparr>privateKey = 0xff # replicate 31 (1 :: u8)\<rparr>"
  have run: "UnmarshalText (key_state 1) b = (Some InvalidHexCharacter, s')"
    unfolding b_def s'_def by code_simp
  have len: "length (privateKey (key_state 1)) = 32" by (simp add: key_state_def)
  have "(0xff :: u8) # replicate 31 1 \<noteq> replicate 32 1" by code_simp
  then have ne: "s' \<noteq> key_state 1" by (simp add: s'_def key_state_def)
  from UnmarshalText_error [OF len run] have "\<exists>i < 32. drop i (privateKey s') = drop i (replicate 32 1)"
    by (auto simp: key_state_def)
  with run ne show ?thesis unfolding b_def by blast
qed

end
