(* ===== verification/Net_IP.thy ===== *)
theory Net_IP
  imports Go_Strings Hex_Key
begin

text \<open>
  What the program uses of Go's \<open>net\<close> package on addresses: \<open>ParseIP\<close>, \<open>ParseCIDR\<close> and
  the classification methods of \<open>net.IP\<close> (Go 1.18). A \<open>net.IP\<close> is a byte slice: 16 bytes
  when it comes from \<open>ParseIP\<close> (an IPv4 address is mapped into IPv6), 4 or 16 in an
  \<open>IPNet\<close>, and the empty list for \<open>nil\<close>.
\<close>

type_synonym ip = "u8 list"

section \<open>Numbers inside an address\<close>

text \<open>\<open>dtoi\<close> and \<open>xtoi\<close>: the value of the longest digit prefix and its length; they fail
  on no digit and from \<open>0xFFFFFF\<close> on.\<close>

definition hex_val :: "char \<Rightarrow> nat option" where
  "hex_val c = (let n = of_char c :: nat in
     if 48 \<le> n \<and> n \<le> 57 then Some (n - 48)
     else if 97 \<le> n \<and> n \<le> 102 then Some (n - 97 + 10)
     else if 65 \<le> n \<and> n \<le> 70 then Some (n - 65 + 10)
     else None)"

fun scan_num :: "(char \<Rightarrow> nat option) \<Rightarrow> nat \<Rightarrow> nat \<Rightarrow> nat \<Rightarrow> string \<Rightarrow> (nat \<times> nat) option" where
  "scan_num val base n i [] = Some (n, i)"
| "scan_num val base n i (c # s) = (case val c of
       None \<Rightarrow> Some (n, i)
     | Some d \<Rightarrow> if 0xFFFFFF \<le> n * base + d then None else scan_num val base (n * base + d) (Suc i) s)"

definition scan :: "(char \<Rightarrow> nat option) \<Rightarrow> nat \<Rightarrow> string \<Rightarrow> (nat \<times> nat) option" where
  "scan val base s = (case scan_num val base 0 0 s of
      None \<Rightarrow> None
    | Some (n, i) \<Rightarrow> if i = 0 then None else Some (n, i))"

definition dtoi :: "string \<Rightarrow> (nat \<times> nat) option" where
  "dtoi = scan digit_val 10"

definition xtoi :: "string \<Rightarrow> (nat \<times> nat) option" where
  "xtoi = scan hex_val 16"

section \<open>Parsing addresses\<close>

definition v4_in_v6 :: "u8 list" where
  "v4_in_v6 = replicate 10 0 @ [255, 255]"

fun v4_octets :: "nat \<Rightarrow> bool \<Rightarrow> string \<Rightarrow> u8 list option" where
  "v4_octets 0 first s = (if s = [] then Some [] else None)"
| "v4_octets (Suc k) first s =
     (let s' = (if first then s else tl s) in
      if s = [] \<or> (\<not> first \<and> hd s \<noteq> CHR ''.'') then None
      else case dtoi s' of
          None \<Rightarrow> None
        | Some (n, c) \<Rightarrow>
            if 255 < n \<or> (1 < c \<and> hd s' = CHR ''0'') then None
            else map_option (\<lambda>p. of_nat n # p) (v4_octets k False (drop c s')))"

definition parseIPv4 :: "string \<Rightarrow> ip" where
  "parseIPv4 s = (case v4_octets 4 True s of None \<Rightarrow> [] | Some p \<Rightarrow> v4_in_v6 @ p)"

text \<open>The loop of \<open>parseIPv6\<close>: \<open>k\<close> 16-bit chunks are still free, \<open>acc\<close> are the bytes so far,
  \<open>el\<close> is the position of the ellipsis. The result is the bytes, the ellipsis and what is
  left of the text.\<close>

fun v6_loop :: "nat \<Rightarrow> u8 list \<Rightarrow> nat option \<Rightarrow> string \<Rightarrow> (u8 list \<times> nat option \<times> string) option" where
  "v6_loop 0 acc el s = Some (acc, el, s)"
| "v6_loop (Suc k) acc el s = (case xtoi s of
       None \<Rightarrow> None
     | Some (n, c) \<Rightarrow>
         if 0xFFFF < n then None
         else if c < length s \<and> s ! c = CHR ''.'' then
           (if el = None \<and> length acc \<noteq> 12 then None
            else if 16 < length acc + 4 then None
            else let p = parseIPv4 s in
              if p = [] then None else Some (acc @ drop 12 p, el, []))
         else
           (let acc = acc @ [of_nat (n div 256), of_nat n]; s = drop c s in
            if s = [] then Some (acc, el, s)
            else if hd s \<noteq> CHR '':'' \<or> length s = 1 then None
            else let s = tl s in
              if hd s = CHR '':'' then
                (if el \<noteq> None then None
                 else if tl s = [] then Some (acc, Some (length acc), [])
                 else v6_loop k acc (Some (length acc)) (tl s))
              else v6_loop k acc el s))"

definition parseIPv6 :: "string \<Rightarrow> ip" where
  "parseIPv6 s =
     (let lead = take 2 s = ''::''; s' = (if lead then drop 2 s else s) in
      if lead \<and> s' = [] then replicate 16 0
      else case v6_loop 8 [] (if lead then Some 0 else None) s' of
          None \<Rightarrow> []
        | Some (acc, el, rest) \<Rightarrow>
            if rest \<noteq> [] then []
            else if length acc < 16 then
              (case el of None \<Rightarrow> []
               | Some e \<Rightarrow> take e acc @ replicate (16 - length acc) 0 @ drop e acc)
            else if el \<noteq> None then [] else acc)"

fun first_sep :: "string \<Rightarrow> char option" where
  "first_sep [] = None"
| "first_sep (c # s) = (if c = CHR ''.'' \<or> c = CHR '':'' then Some c else first_sep s)"

definition ParseIP :: "string \<Rightarrow> ip" where
  "ParseIP s = (case first_sep s of
      None \<Rightarrow> []
    | Some c \<Rightarrow> if c = CHR ''.'' then parseIPv4 s else parseIPv6 s)"

section \<open>Networks\<close>

record IPNet =
  netIP :: ip
  ones :: nat

text \<open>\<open>ip.Mask(CIDRMask(n, 8 * len))\<close>.\<close>

fun mask_bytes :: "nat \<Rightarrow> ip \<Rightarrow> ip" where
  "mask_bytes n [] = []"
| "mask_bytes n (b # bs) =
     (let k = 8 - min n 8 in push_bit k (drop_bit k b)) # mask_bytes (n - 8) bs"

definition ParseCIDR :: "string \<Rightarrow> IPNet option" where
  "ParseCIDR s =
     (if CHR ''/'' \<notin> set s then None
      else let addr = takeWhile (\<lambda>c. c \<noteq> CHR ''/'') s;
               mask = tl (dropWhile (\<lambda>c. c \<noteq> CHR ''/'') s);
               ip4 = parseIPv4 addr;
               p = (if ip4 = [] then parseIPv6 addr else drop 12 ip4)
        in case dtoi mask of
            None \<Rightarrow> None
          | Some (n, i) \<Rightarrow>
              if p = [] \<or> i \<noteq> length mask \<or> 8 * length p < n then None
              else Some \<lparr>netIP = mask_bytes n p, ones = n\<rparr>)"

section \<open>Printing\<close>

definition To4 :: "ip \<Rightarrow> ip" where
  "To4 p = (if length p = 4 then p
     else if length p = 16 \<and> take 12 p = v4_in_v6 then drop 12 p else [])"

text \<open>\<open>IP.String\<close>: dotted for IPv4; for IPv6 the longest run of two or more zero chunks, the
  first one of that length, is written as two colons.\<close>

definition hex_char :: "nat \<Rightarrow> char" where
  "hex_char d = (if d < 10 then char_of (48 + d) else char_of (87 + d))"

fun hex_text :: "nat \<Rightarrow> string" where
  "hex_text n = (if n < 16 then [hex_char n] else hex_text (n div 16) @ [hex_char (n mod 16)])"

declare hex_text.simps [simp del]

fun chunks :: "u8 list \<Rightarrow> nat list" where
  "chunks (a # b # p) = (unat a * 256 + unat b) # chunks p"
| "chunks p = []"

definition zero_run :: "nat list \<Rightarrow> nat" where
  "zero_run cs = length (takeWhile (\<lambda>c. c = 0) cs)"

text \<open>The start and the length of the run, scanning from chunk \<open>i\<close> with the best run so far.\<close>

function longest_run :: "nat \<Rightarrow> nat \<times> nat \<Rightarrow> nat list \<Rightarrow> nat \<times> nat" where
  "longest_run i best [] = best"
| "longest_run i best (c # cs) =
     (let n = zero_run (c # cs) in
      if snd best < n then longest_run (i + n + 1) (i, n) (drop (n + 1) (c # cs))
      else longest_run (i + 1) best cs)"
  by pat_completeness auto
termination by (relation "measure (\<lambda>(i, best, cs). length cs)") auto

declare longest_run.simps [simp del]

definition IP_String :: "ip \<Rightarrow> string" where
  "IP_String p =
     (if p = [] then ''<nil>''
      else if To4 p \<noteq> [] then Join (map (\<lambda>b. Itoa (unat b)) (To4 p)) ''.''
      else if length p \<noteq> 16 then CHR ''?'' # concat (map (\<lambda>b. [hex_char (unat b div 16), hex_char (unat b mod 16)]) p)
      else let cs = chunks p; r = longest_run 0 (0, 0) cs in
        if snd r \<le> 1 then Join (map hex_text cs) '':''
        else Join (map hex_text (take (fst r) cs)) '':'' @ ''::'' @
             Join (map hex_text (drop (fst r + snd r) cs)) '':'')"

definition IPNet_String :: "IPNet \<Rightarrow> string" where
  "IPNet_String n =
     (if To4 (netIP n) = [] \<and> length (netIP n) \<noteq> 16 then ''<nil>''
      else IP_String (netIP n) @ ''/'' @
        Itoa (if length (netIP n) = 16 \<and> To4 (netIP n) \<noteq> [] then ones n - 96 else ones n))"

section \<open>Classification\<close>

definition IsLoopback :: "ip \<Rightarrow> bool" where
  "IsLoopback p = (let q = To4 p in
     if q \<noteq> [] then q ! 0 = 127 else p = replicate 15 0 @ [1])"

definition IsLinkLocalUnicast :: "ip \<Rightarrow> bool" where
  "IsLinkLocalUnicast p = (let q = To4 p in
     if q \<noteq> [] then q ! 0 = 169 \<and> q ! 1 = 254
     else length p = 16 \<and> p ! 0 = 0xfe \<and> p ! 1 AND 0xc0 = 0x80)"

definition IsLinkLocalMulticast :: "ip \<Rightarrow> bool" where
  "IsLinkLocalMulticast p = (let q = To4 p in
     if q \<noteq> [] then q ! 0 = 224 \<and> q ! 1 = 0 \<and> q ! 2 = 0
     else length p = 16 \<and> p ! 0 = 0xff \<and> p ! 1 AND 0x0f = 0x02)"

definition IsPrivate :: "ip \<Rightarrow> bool" where
  "IsPrivate p = (let q = To4 p in
     if q \<noteq> [] then q ! 0 = 10 \<or> (q ! 0 = 172 \<and> q ! 1 AND 0xf0 = 16) \<or> (q ! 0 = 192 \<and> q ! 1 = 168)
     else length p = 16 \<and> p ! 0 AND 0xfe = 0xfc)"

section \<open>Lemmas\<close>

subsection \<open>A scanned number consumes accepted characters only\<close>

lemma scan_num_take:
  "scan_num val base n i s = Some (m, j) \<Longrightarrow>
   i \<le> j \<and> j - i \<le> length s \<and> (\<forall>c \<in> set (take (j - i) s). val c \<noteq> None)"
proof (induction val base n i s rule: scan_num.induct)
  case (2 val base n i c s)
  show ?case
  proof (cases "val c")
    case (Some d)
    with 2 have ih: "Suc i \<le> j \<and> j - Suc i \<le> length s \<and> (\<forall>c \<in> set (take (j - Suc i) s). val c \<noteq> None)"
      by (auto split: if_splits)
    then have "j - i = Suc (j - Suc i)" by linarith
    with ih Some show ?thesis by auto
  qed (use 2 in auto)
qed auto

lemma scan_chars:
  assumes "scan val base s = Some (n, j)"
  shows "0 < j \<and> j \<le> length s \<and> (\<forall>c \<in> set (take j s). val c \<noteq> None)"
proof -
  from assms have "scan_num val base 0 0 s = Some (n, j)" "j \<noteq> 0"
    by (auto simp: scan_def split: option.splits prod.splits if_splits)
  with scan_num_take [of val base 0 0 s n j] show ?thesis by auto
qed

lemma set_take_drop: "set s = set (take n s) \<union> set (drop n s)"
  by (metis append_take_drop_id set_append)

text \<open>A character that is neither a digit nor a separator makes every address parser fail.\<close>

lemma v4_octets_chars:
  "v4_octets k first s = Some p \<Longrightarrow> c \<in> set s \<Longrightarrow> c = CHR ''.'' \<or> digit_val c \<noteq> None"
proof (induction k arbitrary: first s p)
  case (Suc k)
  define s' where "s' = (if first then s else tl s)"
  from Suc.prems(1) obtain n j q where d: "dtoi s' = Some (n, j)" "v4_octets k False (drop j s') = Some q"
    and s: "s \<noteq> []" "first \<or> hd s = CHR ''.''"
    by (auto simp: s'_def Let_def split: option.splits if_splits)
  have "c = CHR ''.'' \<or> c \<in> set s'"
    using Suc.prems(2) s by (cases s) (auto simp: s'_def)
  moreover have "c \<in> set (take j s') \<Longrightarrow> digit_val c \<noteq> None"
    using scan_chars [of digit_val 10 s' n j] d(1) by (simp add: dtoi_def)
  ultimately show ?case using Suc.IH [OF d(2)] set_take_drop [of s' j] by auto
qed (auto split: if_splits)

lemma parseIPv4_chars:
  "parseIPv4 s \<noteq> [] \<Longrightarrow> c \<in> set s \<Longrightarrow> c = CHR ''.'' \<or> digit_val c \<noteq> None"
  by (auto simp: parseIPv4_def split: option.splits dest: v4_octets_chars)

definition v6_char :: "char \<Rightarrow> bool" where
  "v6_char c \<longleftrightarrow> c = CHR ''.'' \<or> c = CHR '':'' \<or> digit_val c \<noteq> None \<or> hex_val c \<noteq> None"

lemma xtoi_chars: "xtoi s = Some (n, j) \<Longrightarrow> (\<forall>c \<in> set (take j s). v6_char c)"
  using scan_chars [of hex_val 16 s n j] by (auto simp: xtoi_def v6_char_def)

lemma tl_hd_chars:
  "\<forall>x \<in> set (tl s). v6_char x \<Longrightarrow> s \<noteq> [] \<Longrightarrow> hd s = CHR '':'' \<Longrightarrow> \<forall>x \<in> set s. v6_char x"
  by (cases s) (auto simp: v6_char_def)

lemma v6_loop_chars:
  "v6_loop k acc el s = Some (acc', el', rest) \<Longrightarrow> rest = [] \<Longrightarrow> \<forall>x \<in> set s. v6_char x"
proof (induction k acc el s rule: v6_loop.induct)
  case (2 k acc el s)
  obtain n c where x: "xtoi s = Some (n, c)"
    using "2.prems"(1) by (cases "xtoi s") auto
  have n: "n \<le> 0xFFFF"
    using "2.prems"(1) x by (simp split: if_split_asm)
  note pre = xtoi_chars [OF x]
  have app: "\<forall>y \<in> set (drop c s). v6_char y \<Longrightarrow> ?case"
    using pre set_take_drop [of s c] by blast
  show ?case
  proof (cases "c < length s \<and> s ! c = CHR ''.''")
    case True
    with "2.prems"(1) x n have "parseIPv4 s \<noteq> []" by (simp add: Let_def split: if_split_asm)
    then show ?thesis using parseIPv4_chars [of s] by (auto simp: v6_char_def)
  next
    case False
    define t where "t = drop c s"
    have t: "t = [] \<or> (t \<noteq> [] \<and> hd t = CHR '':'' \<and> length t \<noteq> 1)"
    proof (rule ccontr)
      assume "\<not> ?thesis"
      then have "v6_loop (Suc k) acc el s = None" using x n False by (auto simp: t_def [symmetric] Let_def)
      with "2.prems"(1) show False by simp
    qed
    show ?thesis
    proof (cases "t = []")
      case True
      then show ?thesis using app by (simp add: t_def)
    next
      case tne: False
      with t have tt: "hd t = CHR '':''" "tl t \<noteq> []" by (cases t; auto)+
      have tl1: "length t \<noteq> Suc 0" using tt(2) by (cases t) auto
      have "\<forall>y \<in> set (tl t). v6_char y"
      proof (cases "hd (tl t) = CHR '':''")
        case True
        have "\<forall>y \<in> set (tl (tl t)). v6_char y"
        proof (cases "tl (tl t) = []")
          case ne: False
          have e: "el = None" using "2.prems"(1) x n False tne tt tl1 True
            by (simp add: t_def [symmetric] Let_def split: if_splits)
          have r: "v6_loop k (acc @ [of_nat (n div 256), of_nat n]) (Some (length acc + 2)) (tl (tl t))
              = Some (acc', el', rest)"
            using "2.prems"(1) x n False tne tt tl1 True ne e by (simp add: t_def [symmetric] Let_def)
          show ?thesis
            by (rule "2.IH"(1) [OF x refl _ False refl refl _ _ refl, folded t_def])
              (use n tt tl1 True ne tne e r "2.prems"(2) in simp_all)
        qed simp
        then show ?thesis by (rule tl_hd_chars) (use True tt(2) in simp_all)
      next
        case nc: False
        have r: "v6_loop k (acc @ [of_nat (n div 256), of_nat n]) el (tl t) = Some (acc', el', rest)"
          using "2.prems"(1) x n False tne tt tl1 nc by (simp add: t_def [symmetric] Let_def)
        show ?thesis
          by (rule "2.IH"(2) [OF x refl _ False refl refl _ _ refl, folded t_def])
            (use n tt tl1 nc tne r "2.prems"(2) in simp_all)
      qed
      then have "\<forall>y \<in> set t. v6_char y" by (rule tl_hd_chars) (use tt(1) tne in simp_all)
      then show ?thesis using app by (simp add: t_def)
    qed
  qed
qed auto

lemma parseIPv6_chars:
  assumes "parseIPv6 s \<noteq> []" "c \<in> set s" shows "v6_char c"
proof (cases "take 2 s = ''::''")
  case True
  then have s: "s = ''::'' @ drop 2 s" by (metis append_take_drop_id)
  have "\<forall>x \<in> set (drop 2 s). v6_char x"
  proof (cases "drop 2 s = []")
    case ne: False
    with assms(1) True obtain acc el where "v6_loop 8 [] (Some 0) (drop 2 s) = Some (acc, el, [])"
      by (auto simp: parseIPv6_def Let_def split: option.splits if_splits)
    then show ?thesis by (rule v6_loop_chars) simp
  qed simp
  moreover have "c \<in> set (drop 2 s) \<or> c = CHR '':''"
    using assms(2) by (subst (asm) s) auto
  ultimately show ?thesis by (auto simp: v6_char_def)
next
  case False
  with assms(1) obtain acc el where "v6_loop 8 [] None s = Some (acc, el, [])"
    by (auto simp: parseIPv6_def Let_def split: option.splits if_splits)
  then show ?thesis using v6_loop_chars assms(2) by blast
qed

text \<open>A text with a comma is no network: neither address parser accepts a comma, and the
  mask must be digits to its end.\<close>

lemma ParseCIDR_comma:
  assumes "CHR '','' \<in> set s" shows "ParseCIDR s = None"
proof (rule ccontr)
  define addr where "addr = takeWhile (\<lambda>c. c \<noteq> CHR ''/'') s"
  define mask where "mask = tl (dropWhile (\<lambda>c. c \<noteq> CHR ''/'') s)"
  assume "ParseCIDR s \<noteq> None"
  then obtain n i where slash: "CHR ''/'' \<in> set s" and m: "dtoi mask = Some (n, i)" "i = length mask"
    and a: "parseIPv4 addr \<noteq> [] \<or> parseIPv6 addr \<noteq> []"
    by (auto simp: ParseCIDR_def addr_def mask_def Let_def split: if_splits option.splits)
  from slash have "dropWhile (\<lambda>c. c \<noteq> CHR ''/'') s \<noteq> []" by auto
  moreover from this have "hd (dropWhile (\<lambda>c. c \<noteq> CHR ''/'') s) = CHR ''/''"
    using hd_dropWhile [of "\<lambda>c. c \<noteq> CHR ''/''" s] by simp
  ultimately have "dropWhile (\<lambda>c. c \<noteq> CHR ''/'') s = CHR ''/'' # mask"
    unfolding mask_def by (metis list.collapse)
  then have "s = addr @ CHR ''/'' # mask"
    unfolding addr_def by (metis takeWhile_dropWhile_id)
  with assms have "CHR '','' \<in> set addr \<or> CHR '','' \<in> set mask" by auto
  moreover have "CHR '','' \<notin> set addr"
    using a parseIPv4_chars [of addr "CHR '',''"] parseIPv6_chars [of addr "CHR '',''"]
    by (auto simp: v6_char_def digit_val_def hex_val_def)
  moreover have "CHR '','' \<notin> set mask"
    using scan_chars [of digit_val 10 mask n i] m by (auto simp: dtoi_def digit_val_def)
  ultimately show False by simp
qed

subsection \<open>Dotted quads\<close>

lemma scan_num_Itoa:
  assumes "n \<le> 255" "rest = [] \<or> digit_val (hd rest) = None"
  shows "scan_num digit_val 10 0 0 (Itoa n @ rest) = Some (n, length (Itoa n))"
proof -
  have stop: "scan_num digit_val 10 m i rest = Some (m, i)" for m i
    using assms(2) by (cases rest) auto
  consider "n < 10" | "10 \<le> n" "n < 100" | "100 \<le> n" "n < 1000" using assms(1) by linarith
  then show ?thesis
  proof cases
    case 1
    then show ?thesis by (simp add: Itoa.simps stop)
  next
    case 2
    then have "n div 10 < 10" by simp
    with 2 show ?thesis by (simp add: Itoa.simps stop)
  next
    case 3
    then have "n div 10 div 10 < 10" "\<not> n div 10 < 10" by simp_all
    moreover have "(n div 10 div 10 * 10 + n div 10 mod 10) * 10 + n mod 10 = n" by simp
    ultimately show ?thesis using 3 assms(1) by (simp add: Itoa.simps stop)
  qed
qed

lemma digit_char_nonzero: "0 < d \<Longrightarrow> d < 10 \<Longrightarrow> digit_char d \<noteq> CHR ''0''"
proof
  assume "0 < d" "d < 10" "digit_char d = CHR ''0''"
  then have "digit_val CHR ''0'' = Some d" using digit_val_char by metis
  with \<open>0 < d\<close> show False by (simp add: digit_val_def)
qed

lemma Itoa_no_leading_zero:
  "1 < length (Itoa n) \<Longrightarrow> hd (Itoa n) \<noteq> CHR ''0''"
proof (induction n rule: Itoa.induct)
  case (1 n)
  show ?case
  proof (cases "n < 10")
    case True
    with "1.prems" show ?thesis by (simp add: Itoa.simps)
  next
    case False
    have h: "hd (Itoa n) = hd (Itoa (n div 10))"
      using False by (subst Itoa.simps) simp
    show ?thesis
    proof (cases "n div 10 < 10")
      case True
      with False have "digit_char (n div 10) \<noteq> CHR ''0''"
        by (intro digit_char_nonzero) auto
      then show ?thesis using True by (simp add: h Itoa.simps [of "n div 10"])
    next
      case big: False
      then have "1 < length (Itoa (n div 10))"
        using Itoa_not_Nil [of "n div 10 div 10"]
        by (subst Itoa.simps) (simp add: neq_Nil_conv del: Itoa_not_Nil)
      with "1.IH" [OF False] show ?thesis by (simp add: h)
    qed
  qed
qed

lemma dtoi_Itoa:
  "n \<le> 255 \<Longrightarrow> rest = [] \<or> digit_val (hd rest) = None \<Longrightarrow> dtoi (Itoa n @ rest) = Some (n, length (Itoa n))"
  by (simp add: dtoi_def scan_def scan_num_Itoa)

definition dotted :: "nat \<Rightarrow> nat \<Rightarrow> nat \<Rightarrow> nat \<Rightarrow> string" where
  "dotted a b c d = Join [Itoa a, Itoa b, Itoa c, Itoa d] ''.''"

lemma v4_octets_Itoa:
  "n \<le> 255 \<Longrightarrow> rest = [] \<or> digit_val (hd rest) = None \<Longrightarrow>
   v4_octets (Suc k) True (Itoa n @ rest) = map_option (\<lambda>p. of_nat n # p) (v4_octets k False rest)"
  "n \<le> 255 \<Longrightarrow> rest = [] \<or> digit_val (hd rest) = None \<Longrightarrow>
   v4_octets (Suc k) False (CHR ''.'' # Itoa n @ rest) =
     map_option (\<lambda>p. of_nat n # p) (v4_octets k False rest)"
  using Itoa_no_leading_zero [of n] by (auto simp: dtoi_Itoa hd_append Let_def)

lemma digit_val_dot [simp]: "digit_val CHR ''.'' = None"
  by (simp add: digit_val_def)

lemma parseIPv4_dotted:
  assumes "a \<le> 255" "b \<le> 255" "c \<le> 255" "d \<le> 255"
  shows "parseIPv4 (dotted a b c d) = v4_in_v6 @ [of_nat a, of_nat b, of_nat c, of_nat d]"
proof -
  have "v4_octets 4 True (Itoa a @ CHR ''.'' # Itoa b @ CHR ''.'' # Itoa c @ CHR ''.'' # Itoa d @ [])
      = Some [of_nat a, of_nat b, of_nat c, of_nat d]"
    using v4_octets_Itoa(1) [of a "CHR ''.'' # Itoa b @ CHR ''.'' # Itoa c @ CHR ''.'' # Itoa d @ []" 3]
      v4_octets_Itoa(2) [of b "CHR ''.'' # Itoa c @ CHR ''.'' # Itoa d @ []" 2]
      v4_octets_Itoa(2) [of c "CHR ''.'' # Itoa d @ []" 1] v4_octets_Itoa(2) [of d "[]" 0] assms
    by (simp add: eval_nat_numeral del: v4_octets.simps(2))
  then show ?thesis by (simp add: parseIPv4_def dotted_def)
qed

section \<open>Classifying a dotted address\<close>

lemma first_sep_digits: "\<forall>x \<in> set s. digit_val x \<noteq> None \<Longrightarrow> first_sep (s @ CHR ''.'' # t) = Some CHR ''.''"
  by (induction s) auto

lemma ParseIP_dotted:
  assumes "a < 256" "b < 256" "c < 256" "d < 256"
  shows "ParseIP (dotted a b c d) = v4_in_v6 @ [of_nat a, of_nat b, of_nat c, of_nat d]"
proof -
  have "first_sep (dotted a b c d) = Some CHR ''.''"
    using Itoa_digits first_sep_digits [of "Itoa a"] by (auto simp: dotted_def)
  then show ?thesis using assms by (simp add: ParseIP_def parseIPv4_dotted)
qed

lemma u8_eq_iff: "a < 256 \<Longrightarrow> k < 256 \<Longrightarrow> (word_of_nat a = (word_of_nat k :: u8)) = (a = k)"
  by (simp add: word_of_nat_eq_iff take_bit_nat_def)

lemma high_nibble: "(x :: 8 word) AND 0xf0 = 16 \<longleftrightarrow> unat x div 16 = 1"
proof -
  have m: "(0xf0 :: 8 word) = push_bit 4 (mask 4)" by (simp add: mask_eq_exp_minus_1)
  have "x AND 0xf0 = push_bit 4 (drop_bit 4 x)"
    unfolding m by (rule bit_word_eqI) (auto simp: bit_simps)
  moreover have "unat (push_bit 4 (drop_bit 4 x)) = 16 * (unat x div 16)"
  proof -
    have "unat x < 2 ^ LENGTH(8)" by (rule unsigned_less)
    then have "unat x < 256" by simp
    then have "unat x div 16 * 16 < 256" by presburger
    then show ?thesis
      by (simp add: push_bit_eq_mult drop_bit_eq_div unat_word_ariths unat_div mult.commute)
  qed
  moreover have "(y = (16 :: 8 word)) = (unat y = 16)" for y by (simp add: word_unat_eq_iff)
  ultimately show ?thesis by auto
qed

lemma To4_mapped [simp]: "length q = 4 \<Longrightarrow> To4 (v4_in_v6 @ q) = q"
  by (auto simp: To4_def v4_in_v6_def)

end
