(* ===== verification/World.thy ===== *)
theory World
  imports Complex_Main Net_IP
begin

text \<open>
  The outside of the program. Everything the program calls that is not its own code or a
  pure library function (the operating system, gRPC services, the ICE agent, WireGuard)
  is a \<open>call\<close> that is appended to the history \<open>hist\<close> and answered by an oracle \<open>env\<close>
  that may depend on the whole history, the new call included. Nothing is assumed about
  the answers, so a theorem over all \<open>env\<close> holds whatever the outside does; where the
  code relies on documented behaviour a theorem says so in a hypothesis.
  Mutexes and channels that are only ever closed are part of the world.
\<close>

section \<open>Data that crosses the boundary\<close>

text \<open>\<open>wgtypes.Key\<close> is a 32-byte array.\<close>

type_synonym key = "u8 list"
type_synonym metadata = "(string \<times> string) list"

record udp_addr =
  addrIP :: ip
  Port :: int

text \<open>\<open>wgtypes.PeerConfig\<close> and \<open>wgtypes.Config\<close>; a pointer field that is not set is \<open>None\<close>.\<close>

record PeerConfig =
  PublicKey :: key
  Remove :: bool
  PresharedKey :: "key option"
  Endpoint :: "udp_addr option"
  PersistentKeepaliveInterval :: "int option"
  ReplaceAllowedIPs :: bool
  AllowedIPs :: "IPNet list"

record WgConfig =
  PrivateKey :: "key option"
  ListenPort :: "int option"
  FirewallMark :: "int option"
  ReplacePeers :: bool
  Peers :: "PeerConfig list"

datatype candidate_type =
  CandidateTypeHost | CandidateTypeServerReflexive | CandidateTypePeerReflexive | CandidateTypeRelay

record candidate =
  Address :: string
  Type :: candidate_type

record CandidatePair =
  Local :: candidate
  Remote :: candidate

text \<open>\<open>ice.URL\<close>: what \<open>ParseURL\<close> read, and the two fields the program sets.\<close>

record ice_url =
  Url :: string
  Username :: string
  Password :: string

text \<open>What \<open>encoding/json\<close> reads and writes of a \<open>Spec\<close>: its exported fields. A nil slice is \<open>None\<close>.\<close>

record SpecFields =
  sp_WgPrivateKey :: string
  sp_ServerHost :: string
  sp_ServerPort :: "64 word"
  sp_SignalHost :: string
  sp_SignalPort :: "64 word"
  sp_TunName :: string
  sp_PreSharedKey :: string
  sp_BlackList :: "string list option"

definition zero_SpecFields :: SpecFields where
  "zero_SpecFields = \<lparr>sp_WgPrivateKey = [], sp_ServerHost = [], sp_ServerPort = 0, sp_SignalHost = [],
     sp_SignalPort = 0, sp_TunName = [], sp_PreSharedKey = [], sp_BlackList = None\<rparr>"

text \<open>The goroutines the modelled functions start.\<close>

datatype task =
    SendCandidate nat string           \<comment> \<open>\<open>SigExecuter.Candidate\<close> of a peer\<close>
  | AddCandidate nat string            \<comment> \<open>\<open>Ice.SendRemoteCandidate\<close> of a peer\<close>
  | AddCandidateNil string             \<comment> \<open>the same on a nil \<open>*Ice\<close>\<close>
  | WaitingRemotePeer nat              \<comment> \<open>\<open>Ice.waitingRemotePeerConnections\<close>\<close>
  | MonLocalToRemote nat
  | MonRemoteToLocal nat
  | UapiAccept string                  \<comment> \<open>the accept loop of a user-space device\<close>
  | SignalLoop                         \<comment> \<open>the goroutine of \<open>ControlPlane.ConnectSignalServer\<close>\<close>
  | ConnectSignalTask                  \<comment> \<open>\<open>ControlPlane.ConnectSignalServer\<close> itself\<close>
  | WaitForRemoteConnTask              \<comment> \<open>\<open>ControlPlane.WaitForRemoteConn\<close>\<close>
  | ConnectSockTask string string      \<comment> \<open>\<open>ControlPlane.ConnectSock\<close>\<close>
  | SockConnect string string          \<comment> \<open>\<open>RcnSock.Connect\<close>\<close>
  | SockCleanup                        \<comment> \<open>the goroutine that removes the socket at the end\<close>
  | SockServe bool                     \<comment> \<open>\<open>RcnSock.listen\<close> of one connection, or of a nil one\<close>
  | MonitorTask                        \<comment> \<open>the memory monitor of \<open>Rcn\<close>\<close>
  | EngineTask                         \<comment> \<open>the empty goroutine of \<open>engine.Start\<close>\<close>
  | RcnStartTask                       \<comment> \<open>\<open>Rcn.Start\<close>\<close>
  | SignalTask                         \<comment> \<open>the goroutine of a command that waits for a signal\<close>

section \<open>Calls\<close>

text \<open>The negotiation and rtc services, and the login, node and daemon services.\<close>

datatype signal_call =
    NegConnect metadata
  | NegRecv
  | NegCloseSend
  | NegOffer string string string string
  | NegAnswer string string string string
  | NegCandidate string string string
  | RtcGetStunTurnConfig
  | ConnGetState

datatype server_call =
    LoginLoginNode metadata
  | LoginSession metadata
  | SessionHeader
  | SessionRecv
  | SessionSend
  | NodeComposeNode metadata
  | NodeSyncRemoteNodesConfig metadata
  | DaemonConnect metadata
  | DaemonDisconnect metadata
  | DaemonGetConnectionStatus metadata

text \<open>The ICE agent of a peer, the sockets and multiplexers it runs on, and what is closed.\<close>

datatype resource = UdpMux | UdpMuxSrflx | UdpMuxConn | UdpMuxConnSrflx | Agent

datatype ice_call =
    ListenUDP resource
  | NewAgent "ice_url option list" "string list"
  | OnCandidate
  | OnConnectionStateChange
  | OnSelectedCandidatePairChange
  | CloseResource resource
  | GetLocalUserCredentials
  | GatherCandidates
  | AddRemoteCandidate string
  | AgentDial string string
  | AgentAccept string string
  | GetSelectedCandidatePair

text \<open>The sockets of the proxy of a peer.\<close>

datatype proxy_call =
    NetDialUdp string
  | ResolveUDPAddr
  | LocalRead
  | LocalWrite string
  | RemoteRead
  | RemoteWrite string

datatype wg_call =
    WgctrlNew
  | WgDevice string
  | WgConfigureDevice string WgConfig
  | WgClose

datatype exec_call =
    LookPath string
  | ExecOutput "string list"
  | ExecCombined "string list"
  | ExecStart "string list"
  | CreateTUN string int
  | DeviceUp string
  | UAPIOpen string
  | UAPIListen string

datatype os_call =
    OsMkdirAll string nat
  | OsStat string
  | OsReadFile string
  | OsTempFile string string
  | OsWrite string
  | OsChmod string nat
  | OsSync string
  | OsClose string
  | OsRename string string
  | OsRemove string
  | OsRemoveAll string
  | OsWriteFile string nat
  | OsCreate string
  | OsOpen string
  | IoCopy string string
  | OsExecutable
  | OsGetuid
  | OsGenerateKey

text \<open>The local socket of the daemon; a message has a type and may carry ip, cidr and status.\<close>

datatype sock_call =
    SockListen
  | SockAccept
  | SockDial
  | SockDecode
  | SockEncode int "(string \<times> string \<times> string) option"
  | SockClose

text \<open>
  The configuration of the logger (\<open>zap.Config\<close>, \<open>zapcore.EncoderConfig\<close>) and of the files it writes
  (\<open>lumberjack.Logger\<close>). The line ending and the encoders are constants and functions of \<open>zap\<close>,
  given by their names.
\<close>

datatype log_level = DebugLevel | InfoLevel | WarnLevel | ErrorLevel

record log_encoder =
  TimeKey :: string
  LevelKey :: string
  NameKey :: string
  CallerKey :: string
  MessageKey :: string
  StacktraceKey :: string
  LineEnding :: string
  EncodeLevel :: string
  EncodeTime :: string
  EncodeDuration :: string

record log_files =
  Filename :: string
  MaxSize :: nat
  MaxBackups :: nat
  MaxAge :: nat
  Compress :: bool

record log_config =
  log_Level :: log_level
  Development :: bool
  Encoding :: string
  EncoderConfig :: log_encoder
  OutputPaths :: "string list"

text \<open>The remaining calls on the system; \<open>GrpcDial\<close> carries the address and whether TLS is used.\<close>

datatype sys_call =
    GrpcDial string bool
  | GetHostname
  | NumCPU
  | Sleep int
  | RegisterSink string log_files
  | BuildLogger log_config
  | ReplaceGlobals
  | ListenHTTP string
  | ReadMemStats
  | NumGoroutine
  | WaitSignal

datatype time_call = TimeNow | RandFloat64 | TimerStart int | TimerStop

text \<open>An \<open>IceCall\<close> and a \<open>ProxyCall\<close> carry the number of the peer's object.\<close>

datatype call =
    TimeCall time_call
  | SignalCall signal_call
  | ServerCall server_call
  | IceCall nat ice_call
  | ProxyCall nat proxy_call
  | WgCall wg_call
  | ExecCall exec_call
  | OsCall os_call
  | SockCall sock_call
  | SysCall sys_call
  | Println string
  | Go task

text \<open>A channel that is only ever closed: the one \<open>ConnectState\<close> hands out for the \<open>n\<close>-th
  time, the one that ends the process, and the one on which \<open>runetale up\<close> waits for a
  signal.\<close>

datatype chan = ConnChan nat | RootChan | StopChan

text \<open>\<open>system.SysInfo\<close>.\<close>

record SysInfo =
  GoOS :: string
  Kernel :: string
  Core :: string
  Platform :: string
  OS :: string
  OSVersion :: string
  Hostname :: string
  CPUs :: int
  Version :: string

text \<open>
  The answers of the outside, and the functions on WireGuard keys of \<open>wgtypes\<close>. \<open>ctl_files\<close> is
  what the command of the system manager that the history ends with makes of the files.
\<close>

record env =
  goos :: string
  err_of :: "call list \<Rightarrow> err option"
  str_of :: "call list \<Rightarrow> string"
  int_of :: "call list \<Rightarrow> int"
  rat_of :: "call list \<Rightarrow> rat"
  bool_of :: "call list \<Rightarrow> bool"
  parse_key :: "string \<Rightarrow> err + key"
  key_string :: "key \<Rightarrow> string"
  public_key :: "key \<Rightarrow> key"
  key_of :: "call list \<Rightarrow> key"
  ctl_files :: "call list \<Rightarrow> (string \<Rightarrow> string option) \<Rightarrow> string \<Rightarrow> string option"

text \<open>A mutex is named by its field and the number of its owner. The files are paths with their
  contents; only the operations of the file system (\<open>Fs\<close>) touch them.\<close>

type_synonym mutex = "string \<times> nat"

record world =
  hist :: "call list"
  held :: "mutex set"
  closed :: "chan set"
  files :: "string \<Rightarrow> string option"

section \<open>Making a call\<close>

definition emit :: "call \<Rightarrow> ('z world_scheme, unit) go" where
  "emit c w = (Ok (), w\<lparr>hist := hist w @ [c]\<rparr>)"

definition perform :: "'e env_scheme \<Rightarrow> call \<Rightarrow> ('z world_scheme, unit) go" where
  "perform env c w = (let h = hist w @ [c] in
     (case err_of env h of None \<Rightarrow> Ok () | Some e \<Rightarrow> Err e, w\<lparr>hist := h\<rparr>))"

text \<open>A call whose answer is read off the history it leaves by \<open>f\<close>.\<close>

definition query :: "'e env_scheme \<Rightarrow> (call list \<Rightarrow> 'a) \<Rightarrow> call \<Rightarrow> ('z world_scheme, 'a) go" where
  "query env f c = bind (perform env c) (\<lambda>_. gets (\<lambda>w. f (hist w)))"

definition ask :: "(call list \<Rightarrow> 'a) \<Rightarrow> call \<Rightarrow> ('z world_scheme, 'a) go" where
  "ask f c = bind (emit c) (\<lambda>_. gets (\<lambda>w. f (hist w)))"

definition spawn :: "task \<Rightarrow> ('z world_scheme, unit) go" where
  "spawn t = emit (Go t)"

text \<open>\<open>k, err := wgtypes.ParseKey(s)\<close>.\<close>

definition ParseKey :: "'e env_scheme \<Rightarrow> string \<Rightarrow> ('w, key) go" where
  "ParseKey env s = (case parse_key env s of Inl e \<Rightarrow> throw e | Inr k \<Rightarrow> ret k)"

section \<open>Mutexes and channels\<close>

text \<open>\<open>mu.Lock(); defer mu.Unlock(); m()\<close>: a \<open>sync.Mutex\<close> is not reentrant.\<close>

definition with_lock :: "mutex \<Rightarrow> ('z world_scheme, 'a) go \<Rightarrow> ('z world_scheme, 'a) go" where
  "with_lock mu m w = (if mu \<in> held w then (Stuck, w)
     else case m (w\<lparr>held := insert mu (held w)\<rparr>) of
       (Stuck, w') \<Rightarrow> (Stuck, w')
     | (r, w') \<Rightarrow> (r, w'\<lparr>held := held w' - {mu}\<rparr>))"

definition close_chan :: "chan option \<Rightarrow> ('z world_scheme, unit) go" where
  "close_chan ch w = (case ch of
       None \<Rightarrow> (Panic ''close of nil channel'', w)
     | Some c \<Rightarrow> if c \<in> closed w then (Panic ''close of closed channel'', w)
                 else (Ok (), w\<lparr>closed := insert c (closed w)\<rparr>))"

text \<open>\<open><-ch\<close> on a channel nobody sends on: it returns once the channel is closed.\<close>

definition recv_closed :: "chan option \<Rightarrow> ('z world_scheme, unit) go" where
  "recv_closed ch w = (case ch of
       None \<Rightarrow> (Stuck, w)
     | Some c \<Rightarrow> if c \<in> closed w then (Ok (), w) else (Stuck, w))"

section \<open>Scripts: calls made in order until one fails\<close>

definition script :: "'e env_scheme \<Rightarrow> call list \<Rightarrow> ('z world_scheme, unit) go" where
  "script env cs = for_each (perform env) cs"

text \<open>What a script does to the history: the calls up to the first that fails.\<close>

fun script_run :: "'e env_scheme \<Rightarrow> call list \<Rightarrow> call list \<Rightarrow> call list \<times> err option" where
  "script_run env h [] = (h, None)"
| "script_run env h (c # cs) = (case err_of env (h @ [c]) of
       Some e \<Rightarrow> (h @ [c], Some e)
     | None \<Rightarrow> script_run env (h @ [c]) cs)"

section \<open>Lemmas\<close>

lemma emit_simps [simp]: "emit c w = (Ok (), w\<lparr>hist := hist w @ [c]\<rparr>)"
  by (simp add: emit_def)

lemma world_hist_hist [simp]: "w\<lparr>hist := a, hist := b\<rparr> = (w\<lparr>hist := b\<rparr> :: 'z world_scheme)"
  by simp

lemma perform_None [simp]:
  "err_of env (hist w @ [c]) = None \<Longrightarrow> perform env c w = (Ok (), w\<lparr>hist := hist w @ [c]\<rparr>)"
  by (simp add: perform_def Let_def)

lemma perform_Some [simp]:
  "err_of env (hist w @ [c]) = Some e \<Longrightarrow> perform env c w = (Err e, w\<lparr>hist := hist w @ [c]\<rparr>)"
  by (simp add: perform_def Let_def)

lemma ignore_perform: "ignore (perform env c) w = (Ok (), w\<lparr>hist := hist w @ [c]\<rparr>)"
  by (cases "err_of env (hist w @ [c])") (simp_all add: ignore_def go_simps)

lemma hist_perform [simp]: "hist (snd (perform env c w)) = hist w @ [c]"
  by (simp add: perform_def Let_def)

lemma script_Nil [simp]: "script env [] = ret ()"
  by (simp add: script_def)

lemma script_Cons: "script env (c # cs) = bind (perform env c) (\<lambda>_. script env cs)"
  by (simp add: script_def)

lemma bind_query_drop: "bind (query env f c) (\<lambda>_. m) = bind (perform env c) (\<lambda>_. m)"
  by (auto simp: query_def fun_eq_iff go_simps split: prod.splits res.splits)

lemma script_script_run:
  "script env cs w = (case script_run env (hist w) cs of (h, e) \<Rightarrow>
     (case e of None \<Rightarrow> Ok () | Some e \<Rightarrow> Err e, w\<lparr>hist := h\<rparr>))"
proof (induction cs arbitrary: w)
  case Nil
  then show ?case by (simp add: ret_def)
next
  case (Cons c cs)
  show ?case
    by (cases "err_of env (hist w @ [c])") (simp_all add: script_Cons Cons.IH split: prod.splits)
qed

lemma script_run_prefix: "\<exists>k \<le> length cs. fst (script_run env h cs) = h @ take k cs"
proof (induction cs arbitrary: h)
  case (Cons c cs)
  show ?case
  proof (cases "err_of env (h @ [c])")
    case None
    from Cons.IH [of "h @ [c]"] obtain k where
      "k \<le> length cs" "fst (script_run env (h @ [c]) cs) = (h @ [c]) @ take k cs" by blast
    with None show ?thesis by (intro exI [of _ "Suc k"]) simp
  next
    case (Some e)
    then show ?thesis by (intro exI [of _ 1]) simp
  qed
qed simp

lemma script_run_ok: "snd (script_run env h cs) = None \<Longrightarrow> fst (script_run env h cs) = h @ cs"
  by (induction cs arbitrary: h) (auto split: option.splits)

lemma returns_emit [returns_intros]: "returns (emit c)"
  by (simp add: returns_def)

lemma returns_perform [returns_intros]: "returns (perform env c)"
  by (simp add: returns_def perform_def Let_def split: option.splits)

lemma returns_query [returns_intros]: "returns (query env f c)"
  by (simp add: query_def returns_intros)

lemma returns_ParseKey [returns_intros]: "returns (ParseKey env s)"
  by (simp add: ParseKey_def returns_intros split: sum.splits)

text \<open>An invariant that no call of the program's own history touches.\<close>

lemma keeps_emit: "(\<And>w. I w \<Longrightarrow> I (w\<lparr>hist := hist w @ [c]\<rparr>)) \<Longrightarrow> keeps I (emit c)"
  by (simp add: keeps_def)

lemma keeps_perform: "(\<And>w. I w \<Longrightarrow> I (w\<lparr>hist := hist w @ [c]\<rparr>)) \<Longrightarrow> keeps I (perform env c)"
  by (simp add: keeps_def perform_def Let_def)

lemma keeps_ParseKey [keeps_intros]: "keeps I (ParseKey env s)"
  by (simp add: ParseKey_def keeps_intros split: sum.splits)

text \<open>The history only grows: every function built from calls keeps its past.\<close>

definition extends :: "call list \<Rightarrow> 'z world_scheme \<Rightarrow> bool" where
  "extends h w \<longleftrightarrow> (\<exists>es. hist w = h @ es)"

lemma extends_refl [simp]: "extends (hist w) w"
  by (simp add: extends_def)

lemma keeps_extends_emit [keeps_intros]: "keeps (extends h) (emit c)"
  by (rule keeps_emit) (auto simp: extends_def)

lemma keeps_extends_perform [keeps_intros]: "keeps (extends h) (perform env c)"
  by (rule keeps_perform) (auto simp: extends_def)

lemma keeps_query [keeps_intros]: "keeps I (perform env c) \<Longrightarrow> keeps I (query env f c)"
  by (simp add: query_def keeps_intros)

lemma keeps_ask [keeps_intros]: "keeps I (emit c) \<Longrightarrow> keeps I (ask f c)"
  by (simp add: ask_def keeps_intros)

text \<open>An invariant that does not depend on a mutex is kept by the critical sections of it.\<close>

definition lock_free :: "mutex \<Rightarrow> ('z world_scheme \<Rightarrow> bool) \<Rightarrow> bool" where
  "lock_free mu I \<longleftrightarrow> (\<forall>w. I w \<longrightarrow>
     I (w\<lparr>held := insert mu (held w)\<rparr>) \<and> I (w\<lparr>held := held w - {mu}\<rparr>))"

lemma keeps_with_lock:
  fixes m :: "('z world_scheme, 'a) go"
  assumes "keeps I m" "lock_free mu I"
  shows "keeps I (with_lock mu m)"
proof (rule keepsI)
  fix w :: "'z world_scheme" assume w: "I w"
  obtain r w' where m: "m (w\<lparr>held := insert mu (held w)\<rparr>) = (r, w')" by (meson surj_pair)
  have "I w'" by (rule keeps_run [OF assms(1) m]) (use w assms(2) in \<open>simp add: lock_free_def\<close>)
  with w m assms(2) show "I (snd (with_lock mu m w))"
    by (cases r) (simp_all add: with_lock_def lock_free_def)
qed

lemma lock_free_extends [simp]: "lock_free mu (extends h)"
  by (simp add: lock_free_def extends_def)

section \<open>Concrete outsides for the witnesses\<close>

text \<open>An empty world, and an environment in which every call fails (\<open>env0\<close>) or succeeds
  (\<open>env1\<close>); a key is parsed into 32 copies of the length of its text.\<close>

definition world0 :: world where
  "world0 = \<lparr>hist = [], held = {}, closed = {}, files = \<lambda>_. None\<rparr>"

definition env0 :: env where
  "env0 = \<lparr>goos = ''linux'', err_of = \<lambda>h. Some (ErrExt 7), str_of = \<lambda>h. [],
     int_of = \<lambda>h. int (length h) * 1000000000, rat_of = \<lambda>h. 1 / 3, bool_of = \<lambda>h. False,
     parse_key = \<lambda>s. Inr (replicate 32 (of_nat (length s))), key_string = map (\<lambda>b. char_of (unat b)), public_key = \<lambda>k. k,
     key_of = \<lambda>h. replicate 32 5, ctl_files = \<lambda>h fs. fs\<rparr>"

definition env1 :: env where
  "env1 = env0\<lparr>err_of := \<lambda>h. None\<rparr>"

end
