(* ===== verification/Utils.thy ===== *)
theory Utils
  imports Go_Strings World
begin

text \<open>
  \<open>utils\<close>: running a command line (\<open>cmd.go\<close>), opening a browser (\<open>browser.go\<close>) and the
  metadata keys (\<open>key.go\<close>). An argument vector is split at white space, so what the
  callers put into a command line is split with it.
\<close>

definition NodeKey :: string where "NodeKey = ''node-key''"
definition OsKey :: string where "OsKey = ''os''"
definition HostName :: string where "HostName = ''hostname''"
definition WgPubKey :: string where "WgPubKey = ''wg-pub-key''"
definition AccessToken :: string where "AccessToken = ''access-token''"

definition ExecCmd :: "'e env_scheme \<Rightarrow> string \<Rightarrow> ('z world_scheme, string) go" where
  "ExecCmd env command = (case Fields command of
       [] \<Rightarrow> panic ''index out of range [0] with length 0''
     | args \<Rightarrow> query env (str_of env) (ExecCall (ExecOutput args)))"

definition OpenBrowser :: "'e env_scheme \<Rightarrow> string \<Rightarrow> ('z world_scheme, unit) go" where
  "OpenBrowser env url =
     (if goos env = ''linux'' then perform env (ExecCall (ExecStart [''xdg-open'', url]))
      else if goos env = ''windows'' then
        perform env (ExecCall (ExecStart [''rundll32'', ''url.dll,FileProtocolHandler'', url]))
      else if goos env = ''darwin'' then perform env (ExecCall (ExecStart [''open'', url]))
      else throw (ErrNew ''unsupported platform''))"

section \<open>Splitting a command line\<close>

definition word :: "string \<Rightarrow> bool" where
  "word s \<longleftrightarrow> s \<noteq> [] \<and> (\<forall>c \<in> set s. \<not> is_space c)"

lemma fields_acc_word:
  "\<forall>c \<in> set s. \<not> is_space c \<Longrightarrow> fields_acc cur (s @ t) = fields_acc (rev s @ cur) t"
  by (induction s arbitrary: cur) auto

lemma is_space_blank [simp]: "is_space CHR '' ''"
  by (simp add: is_space_def)

lemma Fields_Nil: "Fields [] = []"
  by (simp add: Fields_def)

lemma Fields_word: "word s \<Longrightarrow> Fields s = [s]"
  using fields_acc_word [of s "[]" "[]"] by (simp add: Fields_def word_def)

lemma Fields_cons:
  assumes "word s" shows "Fields (s @ CHR '' '' # t) = s # Fields t"
  using assms fields_acc_word [of s "[]" "CHR '' '' # t"] by (simp add: Fields_def word_def)

text \<open>Joining words with single blanks and splitting again gives them back.\<close>

lemma Fields_Join: "\<forall>s \<in> set ws. word s \<Longrightarrow> Fields (Join ws '' '') = ws"
proof (induction ws "'' ''" rule: Join.induct)
  case (3 x y xs)
  then show ?case using Fields_cons [of x "Join (y # xs) '' ''"] by simp
qed (simp_all add: Fields_word Fields_Nil)

text \<open>\<open>ExecCmd\<close> runs the words it is given.\<close>

lemma ExecCmd_words:
  assumes "ws \<noteq> []" "\<forall>s \<in> set ws. word s"
  shows "ExecCmd env (Join ws '' '') = query env (str_of env) (ExecCall (ExecOutput ws))"
  using assms by (cases ws) (simp_all add: ExecCmd_def Fields_Join)

lemma keeps_ExecCmd [keeps_intros]:
  "(\<And>a. keeps I (perform env (ExecCall (ExecOutput a)))) \<Longrightarrow> keeps I (ExecCmd env s)"
  by (auto simp: ExecCmd_def intro: keeps_intros split: list.splits)

lemma keeps_OpenBrowser [keeps_intros]:
  "(\<And>a. keeps I (perform env (ExecCall (ExecStart a)))) \<Longrightarrow> keeps I (OpenBrowser env s)"
  by (simp add: OpenBrowser_def keeps_intros)

end
