(* ===== verification/Iface.thy ===== *)
theory Iface
  imports Utils
begin

text \<open>
  \<open>iface\<close>: the WireGuard interface of the node. \<open>iface.go\<close> configures peers through
  \<open>wgctrl\<close>, \<open>iface_linux.go\<close> and \<open>iface_darwin.go\<close> create and remove the interface,
  \<open>iface_unix.go\<close> opens the control socket and adds the route; \<open>wg/wg.go\<close> and
  \<open>distro/distro.go\<close> are the constants and the test for NixOS these need. A duration is a
  number of nanoseconds. What is printed beside an error is left out.
\<close>

definition WgPort :: int where "WgPort = 51820"
definition DefaultMTU :: int where "DefaultMTU = 1280"
definition DefaultWgKeepAlive :: int where "DefaultWgKeepAlive = 25 * 1000000000"

record Iface =
  Tun :: string
  WgPrivateKey :: string
  IP :: string
  CIDR :: string

definition NewIface :: "string \<Rightarrow> string \<Rightarrow> string \<Rightarrow> string \<Rightarrow> Iface" where
  "NewIface tun wgPrivateKey ip cidr = \<lparr>Tun = tun, WgPrivateKey = wgPrivateKey, IP = ip, CIDR = cidr\<rparr>"

section \<open>Configuring the device\<close>

definition zero_key :: key where "zero_key = replicate 32 0"

definition configureDevice :: "'e env_scheme \<Rightarrow> Iface \<Rightarrow> WgConfig \<Rightarrow> ('z world_scheme, unit) go" where
  "configureDevice env i config =
     bind (perform env (WgCall WgctrlNew)) (\<lambda>_.
     deferring (perform env (WgCall WgClose))
       (bind (perform env (WgCall (WgDevice (Tun i)))) (\<lambda>_.
        perform env (WgCall (WgConfigureDevice (Tun i) config)))))"

text \<open>The configuration of one peer: \<open>wgtypes.Config{Peers: []wgtypes.PeerConfig{peer}}\<close>.\<close>

definition peers_config :: "PeerConfig list \<Rightarrow> WgConfig" where
  "peers_config ps = \<lparr>PrivateKey = None, ListenPort = None, FirewallMark = None,
     ReplacePeers = False, Peers = ps\<rparr>"

text \<open>\<open>net.ParseCIDR\<close> as a call that may fail.\<close>

definition ParseCIDR_go :: "string \<Rightarrow> ('w, IPNet) go" where
  "ParseCIDR_go s = (case ParseCIDR s of
       None \<Rightarrow> throw (ErrNew ''invalid CIDR address'') | Some n \<Rightarrow> ret n)"

definition ConfigureRemoteNodePeer :: "'e env_scheme \<Rightarrow> Iface \<Rightarrow> string \<Rightarrow> string \<Rightarrow> udp_addr
    \<Rightarrow> int \<Rightarrow> string \<Rightarrow> ('z world_scheme, unit) go" where
  "ConfigureRemoteNodePeer env i remoteNodePubKey remoteip endpoint keepAlive preSharedKey =
     bind (ParseCIDR_go remoteip) (\<lambda>ipNet.
     bind (ParseKey env remoteNodePubKey) (\<lambda>parsedRemoteNodePubKey.
     bind (if preSharedKey \<noteq> [] then ParseKey env preSharedKey else ret zero_key) (\<lambda>parsedPreSharedkey.
     configureDevice env i (peers_config
       [\<lparr>PublicKey = parsedRemoteNodePubKey, Remove = False,
         PresharedKey = Some parsedPreSharedkey, Endpoint = Some endpoint,
         PersistentKeepaliveInterval = Some keepAlive, ReplaceAllowedIPs = True,
         AllowedIPs = [ipNet]\<rparr>]))))"

definition RemoveRemotePeer :: "'e env_scheme \<Rightarrow> Iface \<Rightarrow> string \<Rightarrow> string \<Rightarrow> string
    \<Rightarrow> ('z world_scheme, unit) go" where
  "RemoveRemotePeer env i ifac remoteip remotePeerPubKey =
     bind (ParseKey env remotePeerPubKey) (\<lambda>peerKeyParsed.
     configureDevice env i (peers_config
       [\<lparr>PublicKey = peerKeyParsed, Remove = True, PresharedKey = None, Endpoint = None,
         PersistentKeepaliveInterval = None, ReplaceAllowedIPs = False, AllowedIPs = []\<rparr>]))"

section \<open>Addresses and routes\<close>

definition getUAPI :: "'e env_scheme \<Rightarrow> string \<Rightarrow> ('z world_scheme, unit) go" where
  "getUAPI env ifac =
     bind (perform env (ExecCall (UAPIOpen ifac))) (\<lambda>_. perform env (ExecCall (UAPIListen ifac)))"

definition addRoute :: "'e env_scheme \<Rightarrow> string \<Rightarrow> IPNet \<Rightarrow> ('z world_scheme, unit) go" where
  "addRoute env tun ipNet =
     perform env (ExecCall (ExecCombined [''route'', ''add'', ''-net'', IPNet_String ipNet, ''-interface'', tun]))"

text \<open>The error of \<open>addRoute\<close> is only printed.\<close>

definition assignAddr :: "'e env_scheme \<Rightarrow> string \<Rightarrow> string \<Rightarrow> ('z world_scheme, unit) go" where
  "assignAddr env tunname address =
     bind (perform env (ExecCall (ExecCombined
       [''ifconfig'', tunname, ''inet'', address, hd (Split address CHR ''/'')]))) (\<lambda>_.
     bind (ParseCIDR_go address) (\<lambda>resolvedNet.
     ignore (addRoute env tunname resolvedNet)))"

section \<open>Creating the interface\<close>

definition CreateWithUserSpace :: "'e env_scheme \<Rightarrow> Iface \<Rightarrow> string \<Rightarrow> ('z world_scheme, unit) go" where
  "CreateWithUserSpace env i address =
     bind (perform env (ExecCall (CreateTUN (Tun i) DefaultMTU))) (\<lambda>_.
     bind (perform env (ExecCall (DeviceUp (Tun i)))) (\<lambda>_.
     bind (getUAPI env (Tun i)) (\<lambda>_.
     bind (spawn (UapiAccept (Tun i))) (\<lambda>_.
     assignAddr env (Tun i) address))))"

text \<open>The configuration of the device itself: its key, its port and no mark.\<close>

definition device_config :: "key \<Rightarrow> WgConfig" where
  "device_config k = \<lparr>PrivateKey = Some k, ListenPort = Some WgPort, FirewallMark = Some 0,
     ReplacePeers = False, Peers = []\<rparr>"

definition createWithUserSpace :: "'e env_scheme \<Rightarrow> Iface \<Rightarrow> string \<Rightarrow> ('z world_scheme, unit) go" where
  "createWithUserSpace env i address =
     bind (CreateWithUserSpace env i address) (\<lambda>_.
     bind (ParseKey env (WgPrivateKey i)) (\<lambda>key.
     configureDevice env i (device_config key)))"

definition createWithKernelSpace :: "'e env_scheme \<Rightarrow> string \<Rightarrow> string \<Rightarrow> string
    \<Rightarrow> ('z world_scheme, unit) go" where
  "createWithKernelSpace env ifaceName privKey address =
     bind (query env (str_of env) (ExecCall (LookPath ''ip''))) (\<lambda>ipCmd.
     bind (ParseKey env privKey) (\<lambda>key.
     bind (perform env (WgCall WgctrlNew)) (\<lambda>_.
     deferring (perform env (WgCall WgClose))
       (bind (ExecCmd env (ipCmd @ '' link add dev '' @ ifaceName @ '' type wireguard '')) (\<lambda>_.
        bind (ExecCmd env (ipCmd @ '' address add dev '' @ ifaceName @ '' '' @ address)) (\<lambda>_.
        bind (perform env (WgCall (WgDevice ifaceName))) (\<lambda>_.
        bind (perform env (WgCall (WgConfigureDevice ifaceName (device_config key)))) (\<lambda>_.
        bind (ExecCmd env (ipCmd @ '' link set up dev '' @ ifaceName)) (\<lambda>_.
        ret ())))))))))"

definition isWireGuardModule :: "'e env_scheme \<Rightarrow> ('z world_scheme, bool) go" where
  "isWireGuardModule env =
     bind (attempt (ExecCmd env ''modinfo wireguard'')) (\<lambda>r. ret (case r of Inl _ \<Rightarrow> False | Inr _ \<Rightarrow> True))"

text \<open>\<open>distro.Get() == distro.NixOS\<close>.\<close>

definition is_nixos :: "'e env_scheme \<Rightarrow> ('z world_scheme, bool) go" where
  "is_nixos env =
     (if goos env = ''linux'' then
        bind (attempt (perform env (OsCall (OsStat ''/run/current-system/sw/bin/nixos-version'')))) (\<lambda>r.
        ret (case r of Inl _ \<Rightarrow> False | Inr _ \<Rightarrow> True))
      else ret False)"

definition CreateIface_linux :: "'e env_scheme \<Rightarrow> Iface \<Rightarrow> ('z world_scheme, unit) go" where
  "CreateIface_linux env i =
     (let addr = IP i @ ''/'' @ CIDR i in
      bind (is_nixos env) (\<lambda>nix.
      if nix then createWithKernelSpace env (Tun i) (WgPrivateKey i) addr
      else bind (isWireGuardModule env) (\<lambda>m.
        if m then createWithKernelSpace env (Tun i) (WgPrivateKey i) addr
        else createWithUserSpace env i addr)))"

text \<open>\<open>iface_darwin.go\<close> has the same steps over the name of the interface.\<close>

definition assignAddr_darwin :: "'e env_scheme \<Rightarrow> string \<Rightarrow> string \<Rightarrow> ('z world_scheme, unit) go" where
  "assignAddr_darwin env tunname address =
     bind (perform env (ExecCall (ExecCombined
       [''ifconfig'', tunname, ''inet'', address, hd (Split address CHR ''/'')]))) (\<lambda>_.
     bind (ParseCIDR_go address) (\<lambda>resolvedNet.
     ignore (addRoute env tunname resolvedNet)))"

definition createWithUserSpace_darwin :: "'e env_scheme \<Rightarrow> string \<Rightarrow> string \<Rightarrow> ('z world_scheme, unit) go" where
  "createWithUserSpace_darwin env tunname address =
     bind (perform env (ExecCall (CreateTUN tunname DefaultMTU))) (\<lambda>_.
     bind (perform env (ExecCall (DeviceUp tunname))) (\<lambda>_.
     bind (getUAPI env tunname) (\<lambda>_.
     bind (spawn (UapiAccept tunname)) (\<lambda>_.
     assignAddr_darwin env tunname address))))"

definition CreateIface_darwin :: "'e env_scheme \<Rightarrow> Iface \<Rightarrow> ('z world_scheme, unit) go" where
  "CreateIface_darwin env i =
     (let addr = IP i @ ''/'' @ CIDR i in
      bind (createWithUserSpace_darwin env (Tun i) addr) (\<lambda>_.
      bind (ParseKey env (WgPrivateKey i)) (\<lambda>key.
      configureDevice env i (device_config key))))"

definition CreateIface :: "'e env_scheme \<Rightarrow> Iface \<Rightarrow> ('z world_scheme, unit) go" where
  "CreateIface env i = (if goos env = ''darwin'' then CreateIface_darwin env i else CreateIface_linux env i)"

definition RemoveIface_linux :: "'e env_scheme \<Rightarrow> string \<Rightarrow> ('z world_scheme, unit) go" where
  "RemoveIface_linux env tunname =
     bind (query env (str_of env) (ExecCall (LookPath ''ip''))) (\<lambda>ipCmd.
     ignore (ExecCmd env (ipCmd @ '' link delete dev '' @ tunname)))"

definition RemoveIface_darwin :: "'e env_scheme \<Rightarrow> string \<Rightarrow> ('z world_scheme, unit) go" where
  "RemoveIface_darwin env tunname =
     bind (query env (str_of env) (ExecCall (LookPath ''ifconfig''))) (\<lambda>ipCmd.
     ignore (ExecCmd env (ipCmd @ '' '' @ tunname @ '' down'')))"

definition RemoveIface :: "'e env_scheme \<Rightarrow> string \<Rightarrow> ('z world_scheme, unit) go" where
  "RemoveIface env tunname =
     (if goos env = ''darwin'' then RemoveIface_darwin env tunname else RemoveIface_linux env tunname)"

section \<open>Lemmas\<close>

text \<open>The two systems create a user-space interface in the same way.\<close>

lemma CreateIface_darwin_same: "CreateIface_darwin env i = createWithUserSpace env i (IP i @ ''/'' @ CIDR i)"
  by (simp add: CreateIface_darwin_def createWithUserSpace_def createWithUserSpace_darwin_def CreateWithUserSpace_def
      assignAddr_darwin_def assignAddr_def Let_def)

lemma perform_cases:
  obtains (ok) "err_of env (hist w @ [c]) = None" "perform env c w = (Ok (), w\<lparr>hist := hist w @ [c]\<rparr>)"
  | (err) e where "err_of env (hist w @ [c]) = Some e" "perform env c w = (Err e, w\<lparr>hist := hist w @ [c]\<rparr>)"
  by (cases "err_of env (hist w @ [c])") auto

lemma deferred_perform:
  "deferred (perform env c) (r, w) = (if r = Stuck then (Stuck, w) else (r, w\<lparr>hist := hist w @ [c]\<rparr>))"
  by (cases r) (simp_all add: deferred_def ignore_def go_simps perform_def Let_def split: option.splits)

text \<open>What \<open>configureDevice\<close> does, on every branch.\<close>

lemma configureDevice_run:
  "configureDevice env i c w =
    (let h1 = hist w @ [WgCall WgctrlNew];
         h2 = h1 @ [WgCall (WgDevice (Tun i))];
         h3 = h2 @ [WgCall (WgConfigureDevice (Tun i) c)]
     in case err_of env h1 of Some e \<Rightarrow> (Err e, w\<lparr>hist := h1\<rparr>)
      | None \<Rightarrow> (case err_of env h2 of Some e \<Rightarrow> (Err e, w\<lparr>hist := h2 @ [WgCall WgClose]\<rparr>)
        | None \<Rightarrow> (case err_of env h3 of Some e \<Rightarrow> Err e | None \<Rightarrow> Ok (),
            w\<lparr>hist := h3 @ [WgCall WgClose]\<rparr>)))"
  by (simp add: configureDevice_def deferring_def bind_def perform_def Let_def deferred_perform
      split: option.splits)

lemma keeps_configureDevice [keeps_intros]:
  "(\<And>c. keeps I (perform env c)) \<Longrightarrow> keeps I (configureDevice env i config)"
  by (simp add: configureDevice_def keeps_intros)

lemma keeps_ParseCIDR_go [keeps_intros]: "keeps I (ParseCIDR_go s)"
  by (simp add: ParseCIDR_go_def keeps_intros split: option.splits)

lemma keeps_ConfigureRemoteNodePeer [keeps_intros]:
  "(\<And>c. keeps I (perform env c)) \<Longrightarrow> keeps I (ConfigureRemoteNodePeer env i k ip ep d ps)"
  by (simp add: ConfigureRemoteNodePeer_def keeps_intros)

lemma keeps_RemoveRemotePeer [keeps_intros]:
  "(\<And>c. keeps I (perform env c)) \<Longrightarrow> keeps I (RemoveRemotePeer env i f ip k)"
  by (simp add: RemoveRemotePeer_def keeps_intros)

lemma word_literals [simp]:
  "word ''link''" "word ''delete''" "word ''dev''" "word ''add''" "word ''set''" "word ''up''"
  "word ''type''" "word ''wireguard''" "word ''address''"
  by (simp_all add: word_def is_space_def)

lemma link_delete:
  assumes "word ip" "word tun"
  shows "ExecCmd env (ip @ '' link delete dev '' @ tun) =
    query env (str_of env) (ExecCall (ExecOutput [ip, ''link'', ''delete'', ''dev'', tun]))"
  using ExecCmd_words [of "[ip, ''link'', ''delete'', ''dev'', tun]" env] assms by simp

section \<open>Properties\<close>

text \<open>
  A peer is configured by exactly one call to the device, with the network of the
  given address as its only allowed network, replacing the ones it had, the given
  endpoint and keepalive, and a pre-shared key that is all zero when none is given; the
  client is opened before and closed after it.
\<close>
theorem ConfigureRemoteNodePeer_configures:
  assumes "ParseCIDR remoteip = Some n" "parse_key env pub = Inr k" "\<forall>h. err_of env h = None"
    "psk = [] \<and> k' = zero_key \<or> psk \<noteq> [] \<and> parse_key env psk = Inr k'"
  shows "ConfigureRemoteNodePeer env i pub remoteip endpoint keepAlive psk w =
    (Ok (), w\<lparr>hist := hist w @ [WgCall WgctrlNew, WgCall (WgDevice (Tun i)),
       WgCall (WgConfigureDevice (Tun i) (peers_config
         [\<lparr>PublicKey = k, Remove = False, PresharedKey = Some k', Endpoint = Some endpoint,
           PersistentKeepaliveInterval = Some keepAlive, ReplaceAllowedIPs = True, AllowedIPs = [n]\<rparr>])),
       WgCall WgClose]\<rparr>)"
  using assms
  by (auto simp: ConfigureRemoteNodePeer_def ParseCIDR_go_def ParseKey_def configureDevice_run)

definition iface0 :: Iface where
  "iface0 = \<lparr>Tun = ''rt0'', WgPrivateKey = ''p'', IP = ''10.0.0.1'', CIDR = ''24''\<rparr>"

theorem ConfigureRemoteNodePeer_configures_witness:
  "\<exists>w'. ConfigureRemoteNodePeer env1 iface0 ''k'' ''10.0.0.2/32'' \<lparr>addrIP = [], Port = 1\<rparr> 5 [] world0 = (Ok (), w')
     \<and> length (hist w') = 4"
proof -
  have n: "ParseCIDR ''10.0.0.2/32'' = Some \<lparr>netIP = [10, 0, 0, 2], ones = 32\<rparr>"
    by code_simp
  show ?thesis
    using ConfigureRemoteNodePeer_configures [OF n, of env1 "''k''" "replicate 32 1" "[]" zero_key iface0 "\<lparr>addrIP = [], Port = 1\<rparr>" 5 world0]
    by (simp add: env1_def env0_def world0_def)
qed

text \<open>
  A node that allows two or more networks can never be configured: the list is joined
  with commas into one address, which \<open>ParseCIDR\<close> rejects, so the call fails before
  anything is sent to the device.
\<close>
theorem ConfigureRemoteNodePeer_one_network_only:
  assumes "2 \<le> length nets"
  shows "\<exists>e. ConfigureRemoteNodePeer env i pub (Join nets '','') endpoint keepAlive psk w = (Err e, w)"
proof -
  have "CHR '','' \<in> set (Join nets '','')" using Join_sep_mem [OF assms, of "'',''"] by auto
  then have "ParseCIDR (Join nets '','') = None" by (rule ParseCIDR_comma)
  then show ?thesis by (simp add: ConfigureRemoteNodePeer_def ParseCIDR_go_def throw_def)
qed

theorem ConfigureRemoteNodePeer_one_network_only_witness:
  "\<exists>e. ConfigureRemoteNodePeer env1 iface0 ''k'' ''10.0.0.2/32,10.0.1.0/24'' \<lparr>addrIP = [], Port = 1\<rparr> 5 [] world0
    = (Err e, world0)"
  using ConfigureRemoteNodePeer_one_network_only [of "[''10.0.0.2/32'', ''10.0.1.0/24'']"] by simp

text \<open>
  Whatever fails, \<open>configureDevice\<close> opens one client, closes it exactly when it was
  opened, and configures the device at most once.
\<close>
theorem configureDevice_balanced:
  "\<exists>cs. hist (snd (configureDevice env i c w)) = hist w @ cs \<and>
     count_list cs (WgCall WgctrlNew) = 1 \<and>
     count_list cs (WgCall WgClose) = (if err_of env (hist w @ [WgCall WgctrlNew]) = None then 1 else 0) \<and>
     length (filter (\<lambda>x. \<exists>t d. x = WgCall (WgConfigureDevice t d)) cs) \<le> 1"
  by (simp add: configureDevice_run Let_def split: option.splits)

text \<open>
  Once the command to remove an interface is found, \<open>RemoveIface\<close> reports success whether
  the interface was removed or not.
\<close>
theorem RemoveIface_hides_failure:
  assumes "goos env = ''linux''" "word tun" "h = hist w @ [ExecCall (LookPath ''ip'')]"
    "err_of env h = None" "word (str_of env h)"
  shows "RemoveIface env tun w = (Ok (), w\<lparr>hist := h @
     [ExecCall (ExecOutput [str_of env h, ''link'', ''delete'', ''dev'', tun])]\<rparr>)"
  using assms
  by (simp add: RemoveIface_def RemoveIface_linux_def link_delete [simplified] query_def ignore_def go_simps
      perform_def Let_def split: option.splits)

theorem RemoveIface_hides_failure_witness:
  "RemoveIface (env0\<lparr>err_of := \<lambda>h. if length h = 2 then Some (ErrExt 1) else None, str_of := \<lambda>h. ''/sbin/ip''\<rparr>) ''rt0'' world0
    = (Ok (), world0\<lparr>hist := [ExecCall (LookPath ''ip''),
        ExecCall (ExecOutput [''/sbin/ip'', ''link'', ''delete'', ''dev'', ''rt0''])]\<rparr>)"
  using RemoveIface_hides_failure [of "env0\<lparr>err_of := \<lambda>h. if length h = 2 then Some (ErrExt 1) else None, str_of := \<lambda>h. ''/sbin/ip''\<rparr>" "''rt0''" _ world0]
  by (simp add: env0_def world0_def word_def is_space_def)


text \<open>The script by which a kernel interface is created, once its client is open.\<close>

definition kernel_script :: "string \<Rightarrow> string \<Rightarrow> string \<Rightarrow> key \<Rightarrow> call list" where
  "kernel_script ip name address k =
     [ExecCall (ExecOutput [ip, ''link'', ''add'', ''dev'', name, ''type'', ''wireguard'']),
      ExecCall (ExecOutput [ip, ''address'', ''add'', ''dev'', name, address]),
      WgCall (WgDevice name),
      WgCall (WgConfigureDevice name (device_config k)),
      ExecCall (ExecOutput [ip, ''link'', ''set'', ''up'', ''dev'', name])]"

lemma kernel_commands:
  assumes "word ip" "word name" "word address"
  shows "ExecCmd env (ip @ '' link add dev '' @ name @ '' type wireguard '') =
      query env (str_of env) (ExecCall (ExecOutput [ip, ''link'', ''add'', ''dev'', name, ''type'', ''wireguard'']))"
    and "ExecCmd env (ip @ '' address add dev '' @ name @ '' '' @ address) =
      query env (str_of env) (ExecCall (ExecOutput [ip, ''address'', ''add'', ''dev'', name, address]))"
    and "ExecCmd env (ip @ '' link set up dev '' @ name) =
      query env (str_of env) (ExecCall (ExecOutput [ip, ''link'', ''set'', ''up'', ''dev'', name]))"
proof -
  have "Fields (ip @ '' link add dev '' @ name @ '' type wireguard '') =
      [ip, ''link'', ''add'', ''dev'', name, ''type'', ''wireguard'']"
    using assms Fields_cons [of ip "''link add dev '' @ name @ '' type wireguard ''"]
      Fields_cons [of "''link''" "''add dev '' @ name @ '' type wireguard ''"]
      Fields_cons [of "''add''" "''dev '' @ name @ '' type wireguard ''"]
      Fields_cons [of "''dev''" "name @ '' type wireguard ''"]
      Fields_cons [of name "''type wireguard ''"]
      Fields_cons [of "''type''" "''wireguard ''"]
      Fields_cons [of "''wireguard''" "[]"]
    by (simp add: Fields_Nil)
  then show "ExecCmd env (ip @ '' link add dev '' @ name @ '' type wireguard '') =
      query env (str_of env) (ExecCall (ExecOutput [ip, ''link'', ''add'', ''dev'', name, ''type'', ''wireguard'']))"
    by (simp add: ExecCmd_def)
qed (use assms ExecCmd_words [of "[ip, ''address'', ''add'', ''dev'', name, address]" env]
      ExecCmd_words [of "[ip, ''link'', ''set'', ''up'', ''dev'', name]" env] in simp_all)

text \<open>
  C25. Creating a kernel interface runs its five commands in order (add the link, add the
  address, look the device up, configure it, set it up) and stops at the first that fails
  with that error; what the commands before it did is left in place, and the client is
  closed on every branch.
\<close>
theorem createWithKernelSpace_script:
  assumes "h1 = hist w @ [ExecCall (LookPath ''ip'')]" "err_of env h1 = None"
    "h2 = h1 @ [WgCall WgctrlNew]" "err_of env h2 = None" "parse_key env pk = Inr k"
    "word (str_of env h1)" "word name" "word address"
    "script_run env h2 (kernel_script (str_of env h1) name address k) = (h3, e)"
  shows "createWithKernelSpace env name pk address w =
    ((case e of None \<Rightarrow> Ok () | Some e \<Rightarrow> Err e), w\<lparr>hist := h3 @ [WgCall WgClose]\<rparr>)"
proof -
  define body :: "string \<Rightarrow> key \<Rightarrow> ('a world_scheme, unit) go" where "body ip k =
    (bind (ExecCmd env (ip @ '' link add dev '' @ name @ '' type wireguard '')) (\<lambda>_.
        bind (ExecCmd env (ip @ '' address add dev '' @ name @ '' '' @ address)) (\<lambda>_.
        bind (perform env (WgCall (WgDevice name))) (\<lambda>_.
        bind (perform env (WgCall (WgConfigureDevice name (device_config k)))) (\<lambda>_.
        bind (ExecCmd env (ip @ '' link set up dev '' @ name)) (\<lambda>_.
        ret ()))))))" for ip k
  have inner: "body ip k = script env (kernel_script ip name address k)" if "word ip" for ip k
    unfolding body_def
    by (simp only: kernel_commands [OF that assms(7,8)] bind_query_drop)
       (simp add: script_def kernel_script_def)
  show ?thesis
    unfolding createWithKernelSpace_def body_def [symmetric]
    using assms(1-6,9)
    by (simp add: inner query_def go_simps ParseKey_def perform_def Let_def deferring_def
        script_script_run deferred_perform split: option.splits)
qed

theorem createWithKernelSpace_script_witness:
  "\<exists>w'. createWithKernelSpace (env1\<lparr>str_of := \<lambda>h. ''/sbin/ip'',
       err_of := \<lambda>h. if length h = 4 then Some (ErrExt 3) else None\<rparr>) ''rt0'' ''p'' ''10.0.0.1/24'' world0
     = (Err (ErrExt 3), w') \<and> length (hist w') = 5 \<and> last (hist w') = WgCall WgClose"
  using createWithKernelSpace_script
    [of _ world0 "env1\<lparr>str_of := \<lambda>h. ''/sbin/ip'', err_of := \<lambda>h. if length h = 4 then Some (ErrExt 3) else None\<rparr>" _
       "''p''" "replicate 32 1" "''rt0''" "''10.0.0.1/24''" _ "Some (ErrExt 3)"]
  by (simp add: env1_def env0_def world0_def kernel_script_def word_def is_space_def)

end
