(* ===== verification/Conn_State.thy ===== *)
theory Conn_State
  imports World
begin

text \<open>
  \<open>rcn/conn/status.go\<close>: the connection status of the signal client and the channel on which
  others wait for it. The state is one record in the world; \<open>next_chan\<close> numbers the
  channels that \<open>make\<close> creates. The waiting side is a state machine whose steps
  interleave with the others, because it reads the status and asks for the channel in two
  steps.
\<close>

section \<open>The status\<close>

type_synonym ConnStatus = string

definition Connect :: ConnStatus where "Connect = ''CONNECT''"
definition DisConnect :: ConnStatus where "DisConnect = ''DISCONNECT''"

definition ConnStatus_String :: "ConnStatus \<Rightarrow> string" where
  "ConnStatus_String s =
     (if s = Connect then ''connect''
      else if s = DisConnect then ''disconnet''
      else ''unreachable'')"

text \<open>\<open>ConnectState\<close>: its fields in the world.\<close>

record signal_world = world +
  State :: ConnStatus
  conn :: "chan option"
  next_chan :: nat

definition conn_mu :: mutex where "conn_mu = (''ConnectState.mu'', 0)"

definition NewConnectedState :: "'z signal_world_scheme \<Rightarrow> 'z signal_world_scheme" where
  "NewConnectedState w = w\<lparr>State := DisConnect, conn := None\<rparr>"

section \<open>The operations\<close>

definition UpdateState :: "ConnStatus \<Rightarrow> ('z signal_world_scheme, ConnStatus) go" where
  "UpdateState cs = with_lock conn_mu
     (bind (modify (\<lambda>w. w\<lparr>State := cs\<rparr>)) (\<lambda>_.
      bind (gets State) (\<lambda>st. if st = cs then ret DisConnect else ret st)))"

definition IsConnected :: "'z signal_world_scheme \<Rightarrow> bool" where
  "IsConnected w \<longleftrightarrow> ConnStatus_String (State w) = ConnStatus_String Connect"

definition GetConnChan :: "('z signal_world_scheme, chan option) go" where
  "GetConnChan = with_lock conn_mu
     (bind (gets conn) (\<lambda>c.
      bind (if c = None
            then modify (\<lambda>w. w\<lparr>conn := Some (ConnChan (next_chan w)), next_chan := Suc (next_chan w)\<rparr>)
            else ret ()) (\<lambda>_.
      gets conn)))"

definition Connected :: "('z signal_world_scheme, unit) go" where
  "Connected = with_lock conn_mu
     (bind (modify (\<lambda>w. w\<lparr>State := Connect\<rparr>)) (\<lambda>_.
      bind (gets conn) (\<lambda>c.
      if c \<noteq> None then bind (close_chan c) (\<lambda>_. modify (\<lambda>w. w\<lparr>conn := None\<rparr>)) else ret ())))"

definition DisConnected :: "('z signal_world_scheme, unit) go" where
  "DisConnected = with_lock conn_mu (modify (\<lambda>w. w\<lparr>State := DisConnect\<rparr>))"

definition GetConnStatus :: "('z signal_world_scheme, ConnStatus) go" where
  "GetConnStatus = with_lock conn_mu (gets State)"

section \<open>The invariant of the channel\<close>

text \<open>Every channel handed out so far is closed, but for the current one, which is open.\<close>

definition conn_inv :: "'z signal_world_scheme \<Rightarrow> bool" where
  "conn_inv w \<longleftrightarrow>
     (\<forall>n. ConnChan n \<in> closed w \<longleftrightarrow> n < next_chan w \<and> conn w \<noteq> Some (ConnChan n)) \<and>
     (\<forall>c. conn w = Some c \<longrightarrow> (\<exists>n < next_chan w. c = ConnChan n))"

lemma conn_inv_hist [simp]: "conn_inv (w\<lparr>hist := h\<rparr>) = conn_inv w"
  by (simp add: conn_inv_def)

lemma conn_inv_held [simp]: "conn_inv (w\<lparr>held := h\<rparr>) = conn_inv w"
  by (simp add: conn_inv_def)

lemma conn_inv_State [simp]: "conn_inv (w\<lparr>State := s\<rparr>) = conn_inv w"
  by (simp add: conn_inv_def)

text \<open>What the operations do when the mutex is free.\<close>

lemma held_restore [simp]: "mu \<notin> held w \<Longrightarrow> held w - {mu} = held w"
  by simp

lemma Connected_run:
  assumes "conn_mu \<notin> held w" "conn_inv w"
  shows "Connected w = (Ok (), w\<lparr>State := Connect, conn := None,
    closed := closed w \<union> set_option (conn w)\<rparr>)"
proof (cases "conn w")
  case None
  with assms show ?thesis
    by (simp add: Connected_def with_lock_def go_simps)
next
  case (Some c)
  with assms(2) have "c \<notin> closed w" by (auto simp: conn_inv_def)
  with assms Some show ?thesis
    by (simp add: Connected_def with_lock_def go_simps close_chan_def)
qed

lemma GetConnChan_run:
  assumes "conn_mu \<notin> held w"
  shows "GetConnChan w = (case conn w of
      Some c \<Rightarrow> (Ok (Some c), w)
    | None \<Rightarrow> (Ok (Some (ConnChan (next_chan w))),
        w\<lparr>conn := Some (ConnChan (next_chan w)), next_chan := Suc (next_chan w)\<rparr>))"
  using assms by (cases "conn w") (simp_all add: GetConnChan_def with_lock_def go_simps)

lemma DisConnected_run: "conn_mu \<notin> held w \<Longrightarrow> DisConnected w = (Ok (), w\<lparr>State := DisConnect\<rparr>)"
  by (simp add: DisConnected_def with_lock_def go_simps)

lemma GetConnStatus_run: "conn_mu \<notin> held w \<Longrightarrow> GetConnStatus w = (Ok (State w), w)"
  by (simp add: GetConnStatus_def with_lock_def go_simps)

lemmas conn_runs = Connected_run GetConnChan_run DisConnected_run GetConnStatus_run

lemma conn_inv_connected:
  "conn_inv w \<Longrightarrow> conn_inv (w\<lparr>State := s, conn := None, closed := closed w \<union> set_option (conn w)\<rparr>)"
  by (cases "conn w") (auto simp: conn_inv_def)

lemma conn_inv_new_chan:
  "conn_inv w \<Longrightarrow> conn w = None \<Longrightarrow>
   conn_inv (w\<lparr>conn := Some (ConnChan (next_chan w)), next_chan := Suc (next_chan w)\<rparr>)"
  by (auto simp: conn_inv_def less_Suc_eq)

section \<open>UpdateState\<close>

text \<open>
  \<open>UpdateState\<close> stores the status it is given and always answers \<open>DISCONNECT\<close>, also when
  it has just stored \<open>CONNECT\<close>; it leaves the channel alone, so it wakes no waiter.
\<close>
theorem UpdateState_answers:
  assumes "conn_mu \<notin> held w"
  shows "UpdateState cs w = (Ok DisConnect, w\<lparr>State := cs\<rparr>)"
  using assms by (simp add: UpdateState_def with_lock_def go_simps)

definition conn_world0 :: signal_world where
  "conn_world0 = NewConnectedState
     \<lparr>hist = [], held = {}, closed = {}, files = \<lambda>_. None, State = [], conn = None, next_chan = 0\<rparr>"

theorem UpdateState_answers_witness:
  "UpdateState Connect conn_world0 = (Ok DisConnect, conn_world0\<lparr>State := Connect\<rparr>) \<and>
   IsConnected (snd (UpdateState Connect conn_world0))"
  using UpdateState_answers [of conn_world0 Connect]
  by (simp add: conn_world0_def NewConnectedState_def IsConnected_def)

section \<open>Waiting for the connection\<close>

text \<open>
  \<open>SignalClient.WaitStartConnect\<close>, run by several goroutines beside the ones that change the
  status: it reads the status without the mutex (\<open>W_check\<close>), asks for the channel
  (\<open>W_get\<close>), waits on it (\<open>W_wait\<close>) and returns (\<open>W_done\<close>). The other case of its
  \<open>select\<close> is the background context, which is never done.
\<close>

datatype waiter = W_check | W_get | W_wait chan | W_done

datatype conn_act = A_Connected | A_DisConnected | A_UpdateState ConnStatus | A_waiter nat

text \<open>One step of the waiter: \<open>None\<close> when it blocks or has returned.\<close>

definition waiter_step :: "waiter \<Rightarrow> 'z signal_world_scheme \<Rightarrow> (waiter \<times> 'z signal_world_scheme) option" where
  "waiter_step t w = (case t of
       W_check \<Rightarrow> Some (if IsConnected w then W_done else W_get, w)
     | W_get \<Rightarrow> (case GetConnChan w of (Ok (Some c), w') \<Rightarrow> Some (W_wait c, w') | _ \<Rightarrow> None)
     | W_wait c \<Rightarrow> (case recv_closed (Some c) w of (Ok _, w') \<Rightarrow> Some (W_done, w') | _ \<Rightarrow> None)
     | W_done \<Rightarrow> None)"

inductive conn_step :: "conn_act \<Rightarrow> 'z signal_world_scheme \<times> waiter list
    \<Rightarrow> 'z signal_world_scheme \<times> waiter list \<Rightarrow> bool" where
  step_Connected: "Connected w = (Ok (), w') \<Longrightarrow> conn_step A_Connected (w, ts) (w', ts)"
| step_DisConnected: "DisConnected w = (Ok (), w') \<Longrightarrow> conn_step A_DisConnected (w, ts) (w', ts)"
| step_UpdateState: "UpdateState cs w = (Ok st, w') \<Longrightarrow> conn_step (A_UpdateState cs) (w, ts) (w', ts)"
| step_waiter: "i < length ts \<Longrightarrow> waiter_step (ts ! i) w = Some (t, w') \<Longrightarrow>
    conn_step (A_waiter i) (w, ts) (w', ts[i := t])"

inductive_cases conn_stepE: "conn_step a s s'"

abbreviation conn_path :: "conn_act list \<Rightarrow> 'z signal_world_scheme \<times> waiter list
    \<Rightarrow> 'z signal_world_scheme \<times> waiter list \<Rightarrow> bool" where
  "conn_path \<equiv> run_path conn_step"

definition conn_init :: "nat \<Rightarrow> signal_world \<times> waiter list" where
  "conn_init n = (conn_world0, replicate n W_check)"

text \<open>The invariant of the whole: each waiter waits on a channel that has been handed out.\<close>

definition sys_inv :: "'z signal_world_scheme \<times> waiter list \<Rightarrow> bool" where
  "sys_inv s \<longleftrightarrow> conn_inv (fst s) \<and> conn_mu \<notin> held (fst s) \<and>
     (\<forall>c. W_wait c \<in> set (snd s) \<longrightarrow> (\<exists>n < next_chan (fst s). c = ConnChan n))"

lemma sys_inv_init [simp]: "sys_inv (conn_init n)"
  by (auto simp: sys_inv_def conn_init_def conn_world0_def NewConnectedState_def conn_inv_def)

lemma waiter_step_cases:
  assumes "waiter_step t w = Some (t', w')" "conn_mu \<notin> held w"
  obtains (connected) "t = W_check" "t' = W_done" "w' = w" "IsConnected w"
  | (check) "t = W_check" "t' = W_get" "w' = w" "\<not> IsConnected w"
  | (old) c where "t = W_get" "conn w = Some c" "t' = W_wait c" "w' = w"
  | (new) "t = W_get" "conn w = None" "t' = W_wait (ConnChan (next_chan w))"
      "w' = w\<lparr>conn := Some (ConnChan (next_chan w)), next_chan := Suc (next_chan w)\<rparr>"
  | (wake) c where "t = W_wait c" "c \<in> closed w" "t' = W_done" "w' = w"
proof (cases t)
  case W_check
  show ?thesis
  proof (cases "IsConnected w")
    case True
    then show ?thesis by (intro that(1)) (use assms W_check in \<open>simp_all add: waiter_step_def\<close>)
  next
    case False
    then show ?thesis by (intro that(2)) (use assms W_check in \<open>simp_all add: waiter_step_def\<close>)
  qed
next
  case W_get
  show ?thesis
  proof (cases "conn w")
    case None
    then show ?thesis
      by (intro that(4)) (use assms W_get in \<open>simp_all add: waiter_step_def GetConnChan_run\<close>)
  next
    case (Some c)
    then show ?thesis
      by (intro that(3) [of c]) (use assms W_get in \<open>simp_all add: waiter_step_def GetConnChan_run\<close>)
  qed
next
  case (W_wait c)
  with assms(1) show ?thesis
    by (intro that(5) [of c]) (simp_all add: waiter_step_def recv_closed_def split: if_splits)
next
  case W_done
  with assms(1) show ?thesis by (simp add: waiter_step_def)
qed

lemma set_update_cases: "x \<in> set (xs[i := y]) \<Longrightarrow> x = y \<or> x \<in> set xs"
  using set_update_subset_insert [of xs i y] by auto

lemma sys_inv_step:
  assumes "conn_step a s s'" "sys_inv s"
  shows "sys_inv s'"
  using assms(1)
proof (cases rule: conn_step.cases)
  case (step_Connected w w' ts)
  with assms(2) show ?thesis
    by (auto simp: sys_inv_def Connected_run conn_inv_connected)
next
  case (step_DisConnected w w' ts)
  with assms(2) show ?thesis by (auto simp: sys_inv_def DisConnected_run)
next
  case (step_UpdateState cs w st w' ts)
  with assms(2) show ?thesis
    by (auto simp: sys_inv_def UpdateState_def with_lock_def go_simps split: if_splits)
next
  case (step_waiter i ts w t w')
  from step_waiter(5) have free: "conn_mu \<notin> held w"
    using assms(2) step_waiter by (simp add: sys_inv_def)
  from step_waiter(5) free show ?thesis
  proof (cases rule: waiter_step_cases)
    case old
    then show ?thesis using assms(2) step_waiter
      by (auto simp: sys_inv_def conn_inv_def dest!: set_update_cases)
  next
    case new
    then show ?thesis using assms(2) step_waiter
      by (auto simp: sys_inv_def conn_inv_new_chan less_Suc_eq dest!: set_update_cases)
  qed (use assms(2) step_waiter in \<open>auto simp: sys_inv_def dest!: set_update_cases\<close>)
qed

lemma sys_inv_path: "conn_path as s s' \<Longrightarrow> sys_inv s \<Longrightarrow> sys_inv s'"
  by (erule run_path_keeps [where I = sys_inv]) (auto dest: sys_inv_step)


text \<open>
  C2. However the operations and any number of waiters interleave, \<open>Connected\<close>,
  \<open>DisConnected\<close> and \<open>UpdateState\<close> always return: the mutex is free again and no channel is
  closed twice.
\<close>
theorem conn_never_panics:
  assumes "conn_path as (conn_init n) (w, ts)"
  shows "fst (Connected w) = Ok () \<and> fst (DisConnected w) = Ok () \<and> fst (UpdateState cs w) = Ok DisConnect"
proof -
  from sys_inv_path [OF assms sys_inv_init] have "conn_inv w" "conn_mu \<notin> held w"
    by (simp_all add: sys_inv_def)
  then show ?thesis
    by (simp add: Connected_run DisConnected_run UpdateState_def with_lock_def go_simps)
qed

text \<open>The path on which one waiter asks for a channel before the client connects.\<close>

definition waiting_world :: signal_world where
  "waiting_world = conn_world0\<lparr>conn := Some (ConnChan 0), next_chan := 1\<rparr>"

lemma waiting_path:
  "conn_path [A_waiter 0, A_waiter 0] (conn_init 1) (waiting_world, [W_wait (ConnChan 0)])"
proof -
  have 1: "conn_step (A_waiter 0) (conn_init 1) (conn_world0, [W_get])"
    using step_waiter [of 0 "[W_check]" conn_world0 W_get conn_world0]
    by (simp add: conn_init_def waiter_step_def IsConnected_def conn_world0_def NewConnectedState_def
        ConnStatus_String_def Connect_def DisConnect_def)
  have 2: "conn_step (A_waiter 0) (conn_world0, [W_get]) (waiting_world, [W_wait (ConnChan 0)])"
    using step_waiter [of 0 "[W_get]" conn_world0 "W_wait (ConnChan 0)" waiting_world]
    by (simp add: waiter_step_def GetConnChan_run conn_world0_def NewConnectedState_def waiting_world_def)
  from 1 2 show ?thesis by (blast intro: run_Cons run_Nil)
qed

theorem conn_never_panics_witness:
  "fst (Connected waiting_world) = Ok () \<and> conn waiting_world = Some (ConnChan 0)"
  using conn_never_panics [OF waiting_path] by (simp add: waiting_world_def)

text \<open>The waiters of a path: a channel that is waited on and not closed is the current one.\<close>

lemma Connected_closes_all:
  assumes "sys_inv (w, ts)" "Connected w = (r, w')" "W_wait c \<in> set ts"
  shows "c \<in> closed w'"
proof -
  from assms(1,3) obtain n where n: "n < next_chan w" "c = ConnChan n" by (auto simp: sys_inv_def)
  have "c \<in> closed w \<or> conn w = Some c"
    using assms(1) n by (auto simp: sys_inv_def conn_inv_def)
  moreover have "w' = w\<lparr>State := Connect, conn := None, closed := closed w \<union> set_option (conn w)\<rparr>"
    using assms(1,2) by (simp add: sys_inv_def Connected_run)
  ultimately show ?thesis by auto
qed

text \<open>
  C6. Once \<open>Connected\<close> has run, every goroutine that waits on a channel it was handed out can
  proceed and return, whichever channel that was.
\<close>
theorem Connected_wakes_every_waiter:
  assumes "conn_path as (conn_init n) (w, ts)" "Connected w = (Ok (), w')"
    "i < length ts" "ts ! i = W_wait c"
  shows "conn_step (A_waiter i) (w', ts) (w', ts[i := W_done])"
proof -
  have "sys_inv (w, ts)" by (rule sys_inv_path [OF assms(1) sys_inv_init])
  moreover have "W_wait c \<in> set ts" using assms(3,4) by (metis nth_mem)
  ultimately have "c \<in> closed w'" using assms(2) by (blast intro: Connected_closes_all)
  then have "waiter_step (ts ! i) w' = Some (W_done, w')"
    using assms(4) by (simp add: waiter_step_def recv_closed_def)
  with assms(3) show ?thesis by (rule step_waiter)
qed

theorem Connected_wakes_every_waiter_witness:
  "\<exists>w'. Connected waiting_world = (Ok (), w') \<and>
     conn_step (A_waiter 0) (w', [W_wait (ConnChan 0)]) (w', [W_done])"
proof -
  define w' where "w' = waiting_world\<lparr>State := Connect, conn := None, closed := {ConnChan 0}\<rparr>"
  have run: "Connected waiting_world = (Ok (), w')"
    by (simp add: Connected_def with_lock_def go_simps close_chan_def w'_def waiting_world_def
        conn_world0_def NewConnectedState_def)
  show ?thesis
    using Connected_wakes_every_waiter [OF waiting_path run, of 0 "ConnChan 0"] run by auto
qed

text \<open>A waiter that has its channel stays as it is while nobody calls \<open>Connected\<close>.\<close>

lemma waiter_stays_step:
  assumes "conn_step a (w, ts) s'" "a \<noteq> A_Connected" "sys_inv (w, ts)"
    "i < length ts" "ts ! i = W_wait c" "c \<notin> closed w"
  shows "snd s' ! i = W_wait c \<and> c \<notin> closed (fst s') \<and> length (snd s') = length ts"
  using assms(1)
proof (cases rule: conn_step.cases)
  case (step_waiter j t w')
  have free: "conn_mu \<notin> held w" using assms(3) by (simp add: sys_inv_def)
  from step_waiter(4) free show ?thesis
    by (cases rule: waiter_step_cases; cases "j = i") (use step_waiter assms in auto)
qed (use assms in \<open>auto simp: DisConnected_run UpdateState_def with_lock_def go_simps sys_inv_def split: if_splits\<close>)

lemma waiter_stays:
  assumes "conn_path as s s'" "A_Connected \<notin> set as" "sys_inv s"
    "i < length (snd s)" "snd s ! i = W_wait c" "c \<notin> closed (fst s)"
  shows "snd s' ! i = W_wait c \<and> c \<notin> closed (fst s')"
  using assms
proof (induction rule: run_path.induct)
  case (run_Cons a s s' as s'')
  obtain w ts where s: "s = (w, ts)" by (cases s)
  have "snd s' ! i = W_wait c \<and> c \<notin> closed (fst s') \<and> length (snd s') = length ts"
    by (rule waiter_stays_step [of a w ts]) (use run_Cons s in auto)
  moreover have "sys_inv s'" using run_Cons.hyps(1) run_Cons.prems(2) by (rule sys_inv_step)
  ultimately show ?case using run_Cons s by simp
qed simp

text \<open>The interleaving: one waiter reads DISCONNECT, the client connects, the waiter asks for a channel.\<close>

definition lost_world :: signal_world where
  "lost_world = conn_world0\<lparr>State := Connect, conn := Some (ConnChan 0), next_chan := 1\<rparr>"

lemma lost_wakeup_path:
  "conn_path [A_waiter 0, A_Connected, A_waiter 0] (conn_init 1) (lost_world, [W_wait (ConnChan 0)])"
proof -
  have 1: "conn_step (A_waiter 0) (conn_init 1) (conn_world0, [W_get])"
    using step_waiter [of 0 "[W_check]" conn_world0 W_get conn_world0]
    by (simp add: conn_init_def waiter_step_def IsConnected_def conn_world0_def NewConnectedState_def
        ConnStatus_String_def Connect_def DisConnect_def)
  have 2: "conn_step A_Connected (conn_world0, [W_get]) (conn_world0\<lparr>State := Connect\<rparr>, [W_get])"
    by (rule step_Connected) (simp add: Connected_def with_lock_def go_simps conn_world0_def NewConnectedState_def)
  have 3: "conn_step (A_waiter 0) (conn_world0\<lparr>State := Connect\<rparr>, [W_get])
      (lost_world, [W_wait (ConnChan 0)])"
    using step_waiter [of 0 "[W_get]" "conn_world0\<lparr>State := Connect\<rparr>" "W_wait (ConnChan 0)" lost_world]
    by (simp add: waiter_step_def GetConnChan_run conn_world0_def NewConnectedState_def lost_world_def)
  from 1 2 3 show ?thesis by (blast intro: run_Cons run_Nil)
qed

text \<open>
  C29. Reading the status and asking for the channel are two steps, and a wake-up can be lost
  between them: there is a reachable state in which the status is CONNECT and the waiter
  never returns unless \<open>Connected\<close> is called once more.
\<close>
theorem WaitStartConnect_lost_wakeup:
  "\<exists>as w ts. conn_path as (conn_init 1) (w, ts) \<and> IsConnected w \<and>
     (\<forall>bs w' ts'. A_Connected \<notin> set bs \<longrightarrow> conn_path bs (w, ts) (w', ts') \<longrightarrow> ts' ! 0 \<noteq> W_done)"
proof (intro exI conjI allI impI)
  show "conn_path [A_waiter 0, A_Connected, A_waiter 0] (conn_init 1) (lost_world, [W_wait (ConnChan 0)])"
    by (rule lost_wakeup_path)
  show "IsConnected lost_world" by (simp add: lost_world_def IsConnected_def)
  fix bs w' ts'
  assume *: "A_Connected \<notin> set bs" "conn_path bs (lost_world, [W_wait (ConnChan 0)]) (w', ts')"
  have "sys_inv (lost_world, [W_wait (ConnChan 0)])"
    by (rule sys_inv_path [OF lost_wakeup_path sys_inv_init])
  moreover have "ConnChan 0 \<notin> closed lost_world"
    by (simp add: lost_world_def conn_world0_def NewConnectedState_def)
  ultimately have "ts' ! 0 = W_wait (ConnChan 0)"
    using waiter_stays [OF *(2,1), of 0 "ConnChan 0"] by simp
  then show "ts' ! 0 \<noteq> W_done" by simp
qed


theorem WaitStartConnect_lost_wakeup_witness:
  "\<exists>as w ts w'. conn_path as (conn_init 1) (w, ts) \<and> IsConnected w \<and>
     conn_path [A_DisConnected] (w, ts) (w', ts) \<and> ts ! 0 \<noteq> W_done"
proof -
  from WaitStartConnect_lost_wakeup obtain as w ts where *:
    "conn_path as (conn_init 1) (w, ts)" "IsConnected w"
    "\<And>bs w' ts'. A_Connected \<notin> set bs \<Longrightarrow> conn_path bs (w, ts) (w', ts') \<Longrightarrow> ts' ! 0 \<noteq> W_done"
    by metis
  have "conn_mu \<notin> held w" using sys_inv_path [OF *(1) sys_inv_init] by (simp add: sys_inv_def)
  then have "conn_path [A_DisConnected] (w, ts) (w\<lparr>State := DisConnect\<rparr>, ts)"
    by (simp add: step_DisConnected DisConnected_run)
  with * show ?thesis by (metis conn_act.distinct(1) empty_iff empty_set set_ConsD)
qed

end
