(* ===== verification/Server_Client.thy ===== *)
theory Server_Client
  imports Utils
begin

text \<open>
  \<open>client/grpc/server_client.go\<close> and \<open>helper.go\<close>: the client of the login, node and daemon
  services. Every method parses the WireGuard key it is given before it makes a call, and
  sends the node key and the public key as metadata.
\<close>

section \<open>Messages\<close>

record LoginNodeResponse =
  IsRegistered :: bool
  LoginUrl :: string
  Ip :: string
  Cidr :: string

record LoginSessionResponse =
  session_Ip :: string
  session_Cidr :: string

record Node =
  RemoteNodeKey :: string
  RemoteWgPubKey :: string
  node_AllowedIPs :: "string list"

record ComposeNodeResponse =
  compose_Ip :: string
  compose_Cidr :: string

text \<open>A nil slice of nodes is \<open>None\<close>.\<close>

record SyncNodesResponse =
  RemoteNodes :: "Node list option"
  sync_Ip :: string
  sync_Cidr :: string

record server_env = env +
  login_of :: "call list \<Rightarrow> LoginNodeResponse"
  session_of :: "call list \<Rightarrow> LoginSessionResponse"
  compose_of :: "call list \<Rightarrow> ComposeNodeResponse"
  session_ids_of :: "call list \<Rightarrow> string list"
  sync_of :: "call list \<Rightarrow> SyncNodesResponse"

section \<open>The methods\<close>

definition getLoginSessionID :: "string list \<Rightarrow> ('w, string) go" where
  "getLoginSessionID registered = (case registered of
       [] \<Rightarrow> panic ''index out of range [0] with length 0''
     | sessionid # _ \<Rightarrow> ret sessionid)"

text \<open>The receiving loop ends after its first turn, with an error or with the \<open>break\<close>.\<close>

definition ConnectLoginSession :: "'e server_env_scheme \<Rightarrow> SysInfo \<Rightarrow> string
    \<Rightarrow> ('z world_scheme, LoginSessionResponse) go" where
  "ConnectLoginSession env sys nk =
     bind (perform env (ServerCall (LoginSession [(NodeKey, nk), (HostName, Hostname sys), (OsKey, OS sys)]))) (\<lambda>_.
     bind (query env (session_ids_of env) (ServerCall SessionHeader)) (\<lambda>header.
     bind (getLoginSessionID header) (\<lambda>_.
     bind (query env (session_of env) (ServerCall SessionRecv)) (\<lambda>msg.
     bind (perform env (ServerCall SessionSend)) (\<lambda>_.
     ret msg)))))"

definition loginBySession :: "'e server_env_scheme \<Rightarrow> SysInfo \<Rightarrow> string \<Rightarrow> string
    \<Rightarrow> ('z world_scheme, string \<times> string) go" where
  "loginBySession env sys nk url =
     bind (OpenBrowser env url) (\<lambda>_.
     bind (ConnectLoginSession env sys nk) (\<lambda>msg.
     ret (session_Ip msg, session_Cidr msg)))"

text \<open>The address is only needed for the log line.\<close>

definition LoginNode :: "'e server_env_scheme \<Rightarrow> SysInfo \<Rightarrow> string \<Rightarrow> string
    \<Rightarrow> ('z world_scheme, LoginNodeResponse) go" where
  "LoginNode env sys nk wgPrivKey =
     bind (ParseKey env wgPrivKey) (\<lambda>parsedKey.
     bind (query env (login_of env)
       (ServerCall (LoginLoginNode [(NodeKey, nk), (WgPubKey, key_string env (public_key env parsedKey))]))) (\<lambda>res.
     bind (if \<not> IsRegistered res then loginBySession env sys nk (LoginUrl res)
           else ret (Ip res, Cidr res)) (\<lambda>(ip, cidr).
     ret res)))"

definition ComposeNode :: "'e server_env_scheme \<Rightarrow> SysInfo \<Rightarrow> string \<Rightarrow> string \<Rightarrow> string
    \<Rightarrow> ('z world_scheme, ComposeNodeResponse) go" where
  "ComposeNode env sys token nk wgPrivKey =
     bind (ParseKey env wgPrivKey) (\<lambda>parsedKey.
     query env (compose_of env) (ServerCall (NodeComposeNode
       [(AccessToken, token), (NodeKey, nk), (WgPubKey, key_string env (public_key env parsedKey)),
        (HostName, Hostname sys), (OsKey, OS sys)])))"

definition SyncRemoteNodesConfig :: "'e server_env_scheme \<Rightarrow> string \<Rightarrow> string
    \<Rightarrow> ('z world_scheme, SyncNodesResponse) go" where
  "SyncRemoteNodesConfig env nk wgPrivKey =
     bind (ParseKey env wgPrivKey) (\<lambda>parsedKey.
     query env (sync_of env) (ServerCall (NodeSyncRemoteNodesConfig
       [(NodeKey, nk), (WgPubKey, key_string env (public_key env parsedKey))])))"

definition Server_Connect :: "'e env_scheme \<Rightarrow> string \<Rightarrow> ('z world_scheme, string) go" where
  "Server_Connect env nk = query env (str_of env) (ServerCall (DaemonConnect [(NodeKey, nk)]))"

definition Server_Disconnect :: "'e env_scheme \<Rightarrow> string \<Rightarrow> ('z world_scheme, string) go" where
  "Server_Disconnect env nk = query env (str_of env) (ServerCall (DaemonDisconnect [(NodeKey, nk)]))"

definition GetConnectionStatus :: "'e env_scheme \<Rightarrow> string \<Rightarrow> ('z world_scheme, string) go" where
  "GetConnectionStatus env nk =
     query env (str_of env) (ServerCall (DaemonGetConnectionStatus [(NodeKey, nk)]))"

text \<open>The interface \<open>ServerClientImpl\<close>.\<close>

record 'w ServerClientImpl =
  sv_LoginNode :: "string \<Rightarrow> string \<Rightarrow> ('w, LoginNodeResponse) go"
  sv_ComposeNode :: "string \<Rightarrow> string \<Rightarrow> string \<Rightarrow> ('w, ComposeNodeResponse) go"
  sv_SyncRemoteNodesConfig :: "string \<Rightarrow> string \<Rightarrow> ('w, SyncNodesResponse) go"
  sv_ConnectLoginSession :: "string \<Rightarrow> ('w, LoginSessionResponse) go"
  sv_Connect :: "string \<Rightarrow> ('w, string) go"
  sv_Disconnect :: "string \<Rightarrow> ('w, string) go"
  sv_GetConnectionStatus :: "string \<Rightarrow> ('w, string) go"

definition NewServerClient :: "'e server_env_scheme \<Rightarrow> SysInfo \<Rightarrow> ('z world_scheme) ServerClientImpl" where
  "NewServerClient env sys = \<lparr>
     sv_LoginNode = LoginNode env sys, sv_ComposeNode = ComposeNode env sys,
     sv_SyncRemoteNodesConfig = SyncRemoteNodesConfig env,
     sv_ConnectLoginSession = ConnectLoginSession env sys,
     sv_Connect = Server_Connect env, sv_Disconnect = Server_Disconnect env,
     sv_GetConnectionStatus = GetConnectionStatus env\<rparr>"

section \<open>The contract of the interface\<close>

text \<open>No method touches anything but the outside: an invariant of single calls is kept.\<close>

locale server_client =
  fixes sv :: "'w ServerClientImpl" and I :: "'w \<Rightarrow> bool"
  assumes keeps_LoginNode: "keeps I (sv_LoginNode sv nk k)"
    and keeps_SyncRemoteNodesConfig: "keeps I (sv_SyncRemoteNodesConfig sv nk k)"
    and keeps_Connect: "keeps I (sv_Connect sv nk)"
    and keeps_Disconnect: "keeps I (sv_Disconnect sv nk)"
begin

lemmas keeps_server = keeps_LoginNode keeps_SyncRemoteNodesConfig keeps_Connect keeps_Disconnect

end

lemma keeps_getLoginSessionID [keeps_intros]: "keeps I (getLoginSessionID xs)"
  by (cases xs) (simp_all add: getLoginSessionID_def keeps_intros)

lemma server_client_calls:
  assumes "\<And>c. keeps I (perform env c)"
  shows "server_client (NewServerClient env sys) I"
  by unfold_locales
     (auto simp: NewServerClient_def LoginNode_def loginBySession_def ConnectLoginSession_def
        SyncRemoteNodesConfig_def Server_Connect_def Server_Disconnect_def intro!: keeps_intros assms)

interpretation sv_ext: server_client "NewServerClient env sys" "extends h" for env sys h
  by (rule server_client_calls) (rule keeps_intros)

section \<open>Properties\<close>

text \<open>The login script of a node that is not registered.\<close>

definition login_calls :: "'e server_env_scheme \<Rightarrow> SysInfo \<Rightarrow> string \<Rightarrow> key \<Rightarrow> string \<Rightarrow> call list" where
  "login_calls env sys nk k url =
     [ServerCall (LoginLoginNode [(NodeKey, nk), (WgPubKey, key_string env (public_key env k))]),
      ExecCall (ExecStart [''xdg-open'', url]),
      ServerCall (LoginSession [(NodeKey, nk), (HostName, Hostname sys), (OsKey, OS sys)]),
      ServerCall SessionHeader, ServerCall SessionRecv, ServerCall SessionSend]"

text \<open>
  C38. A node that is not registered is sent to the browser and then waits for its login
  session, and when every call succeeds \<open>LoginNode\<close> answers the response of the very first
  call: the address that the session assigned is not in it, whatever it is.
\<close>
theorem LoginNode_drops_session_address:
  assumes "parse_key env pk = Inr k" "goos env = ''linux''" "\<forall>h. err_of env h = None"
    "h = hist w @ [ServerCall (LoginLoginNode [(NodeKey, nk), (WgPubKey, key_string env (public_key env k))])]"
    "\<not> IsRegistered (login_of env h)" "\<forall>h. session_ids_of env h \<noteq> []"
  shows "LoginNode env sys nk pk w =
    (Ok (login_of env h), w\<lparr>hist := hist w @ login_calls env sys nk k (LoginUrl (login_of env h))\<rparr>)"
  using assms
  by (simp add: LoginNode_def ParseKey_def loginBySession_def ConnectLoginSession_def OpenBrowser_def
      query_def getLoginSessionID_def go_simps perform_def Let_def login_calls_def split: list.splits)


text \<open>An outside in which every call succeeds and the node is not registered.\<close>

definition server_env1 :: server_env where
  "server_env1 = env.extend env1
     \<lparr>login_of = \<lambda>h. \<lparr>IsRegistered = False, LoginUrl = ''https://l'', Ip = [], Cidr = []\<rparr>,
      session_of = \<lambda>h. \<lparr>session_Ip = ''100.64.0.1'', session_Cidr = ''24''\<rparr>,
      compose_of = \<lambda>h. \<lparr>compose_Ip = ''10.0.0.7'', compose_Cidr = ''24''\<rparr>,
      session_ids_of = \<lambda>h. [''id''],
      sync_of = \<lambda>h. \<lparr>RemoteNodes = None, sync_Ip = [], sync_Cidr = []\<rparr>\<rparr>"

definition sys1 :: SysInfo where "sys1 = \<lparr>GoOS = ''linux'', Kernel = ''Linux'', Core = ''6.1'', Platform = ''x86_64'', OS = ''Debian'',
    OSVersion = ''12'', Hostname = ''host'', CPUs = 4, Version = []\<rparr>"

theorem LoginNode_drops_session_address_witness:
  "\<exists>h w'. LoginNode server_env1 sys1 ''k'' ''p'' world0 = (Ok (login_of server_env1 h), w') \<and>
     Ip (login_of server_env1 h) = [] \<and> length (hist w') = 6 \<and>
     session_Ip (session_of server_env1 h) = ''100.64.0.1''"
  using LoginNode_drops_session_address [of server_env1 "''p''" "replicate 32 1" _ world0 "''k''" sys1]
  by (auto simp: server_env1_def env.defs env1_def env0_def world0_def login_calls_def)

text \<open>
  A login session whose header carries no session id makes \<open>ConnectLoginSession\<close> panic
  instead of returning an error.
\<close>
theorem ConnectLoginSession_needs_id:
  assumes "h = hist w @ [ServerCall (LoginSession [(NodeKey, nk), (HostName, Hostname sys), (OsKey, OS sys)])]"
    "err_of env h = None" "err_of env (h @ [ServerCall SessionHeader]) = None"
  shows "(\<exists>s. fst (ConnectLoginSession env sys nk w) = Panic s) \<longleftrightarrow>
    session_ids_of env (h @ [ServerCall SessionHeader]) = []"
  using assms
  by (simp add: ConnectLoginSession_def query_def getLoginSessionID_def go_simps perform_def Let_def
      split: list.splits option.splits)

theorem ConnectLoginSession_needs_id_witness:
  "\<exists>s. fst (ConnectLoginSession (server_env1\<lparr>session_ids_of := \<lambda>h. []\<rparr>) sys1 ''k'' world0) = Panic s"
  using ConnectLoginSession_needs_id [OF refl, of "server_env1\<lparr>session_ids_of := \<lambda>h. []\<rparr>" world0 "''k''" sys1]
  by (simp add: server_env1_def env.defs env1_def)

end
