(* ===== verification/Signal_Client.thy ===== *)
theory Signal_Client
  imports Conn_State Server_Client
begin

text \<open>
  \<open>client/grpc/signal_client.go\<close>: the client of the negotiation and rtc services. The Go
  interface \<open>SignalClientImpl\<close> is a record of methods, the struct behind it is the world;
  the locale \<open>signal_client\<close> is the contract the callers rely on.
\<close>

section \<open>Messages\<close>

datatype NegotiationType = ANSWER | OFFER | CANDIDATE | UnknownType nat

record NegotiationRequest =
  DstNodeKey :: string
  MsgType :: NegotiationType
  UFlag :: string
  Pwd :: string
  Candidate :: string

text \<open>The generated getters are defined on a nil pointer too, where they give the zero value.\<close>

definition getter :: "(NegotiationRequest \<Rightarrow> string) \<Rightarrow> NegotiationRequest option \<Rightarrow> string" where
  "getter f m = (case m of None \<Rightarrow> [] | Some r \<Rightarrow> f r)"

definition GetType :: "NegotiationRequest option \<Rightarrow> NegotiationType" where
  "GetType m = (case m of None \<Rightarrow> UnknownType 0 | Some r \<Rightarrow> MsgType r)"

datatype conn_state = Idle | Connecting | Ready | TransientFailure | Shutdown

text \<open>The messages in the answer of the rtc service are pointers.\<close>

record StunHostConfig =
  StunUrl :: string

record TurnHostConfig =
  TurnUrl :: string
  TurnUsername :: string
  TurnPassword :: string

record RtcConfigMsg =
  StunHost :: "StunHostConfig option"
  TurnHost :: "TurnHostConfig option"

record GetStunTurnConfigResponse =
  RtcConfig :: "RtcConfigMsg option"

text \<open>\<open>recv_of\<close> answers \<open>stream.Recv()\<close> with the pointer and the error of that call.\<close>

record signal_env = server_env +
  recv_of :: "call list \<Rightarrow> NegotiationRequest option \<times> err option"
  conn_state_of :: "call list \<Rightarrow> conn_state"
  stun_of :: "call list \<Rightarrow> GetStunTurnConfigResponse"

type_synonym 'w handler = "NegotiationRequest option \<Rightarrow> ('w, unit) go"

record 'w SignalClientImpl =
  sc_Candidate :: "string \<Rightarrow> string \<Rightarrow> string \<Rightarrow> ('w, unit) go"
  sc_Offer :: "string \<Rightarrow> string \<Rightarrow> string \<Rightarrow> string \<Rightarrow> ('w, unit) go"
  sc_Answer :: "string \<Rightarrow> string \<Rightarrow> string \<Rightarrow> string \<Rightarrow> ('w, unit) go"
  sc_Connect :: "string \<Rightarrow> 'w handler \<Rightarrow> ('w, unit) go"
  sc_WaitStartConnect :: "('w, unit) go"
  sc_IsReady :: "('w, bool) go"
  sc_GetStunTurnConfig :: "('w, GetStunTurnConfigResponse) go"
  sc_DisConnected :: "('w, unit) go"
  sc_Connected :: "('w, unit) go"
  sc_GetConnStatus :: "('w, string) go"

section \<open>The unary calls\<close>

definition SC_Candidate :: "'e env_scheme \<Rightarrow> string \<Rightarrow> string \<Rightarrow> string \<Rightarrow> ('z world_scheme, unit) go" where
  "SC_Candidate env dstnk srcnk candidate = perform env (SignalCall (NegCandidate dstnk srcnk candidate))"

definition SC_Offer :: "'e env_scheme \<Rightarrow> string \<Rightarrow> string \<Rightarrow> string \<Rightarrow> string \<Rightarrow> ('z world_scheme, unit) go" where
  "SC_Offer env dstnk srcnk uFlag pwd = perform env (SignalCall (NegOffer dstnk srcnk uFlag pwd))"

definition SC_Answer :: "'e env_scheme \<Rightarrow> string \<Rightarrow> string \<Rightarrow> string \<Rightarrow> string \<Rightarrow> ('z world_scheme, unit) go" where
  "SC_Answer env dstnk srcnk uFlag pwd = perform env (SignalCall (NegAnswer dstnk srcnk uFlag pwd))"

text \<open>The state of the connection is read once, and once more when it was not \<open>Ready\<close>.\<close>

definition SC_IsReady :: "'e signal_env_scheme \<Rightarrow> ('z world_scheme, bool) go" where
  "SC_IsReady env =
     bind (ask (conn_state_of env) (SignalCall ConnGetState)) (\<lambda>s1.
     if s1 = Ready then ret True
     else bind (ask (conn_state_of env) (SignalCall ConnGetState)) (\<lambda>s2. ret (s2 = Idle)))"

definition SC_GetStunTurnConfig :: "'e signal_env_scheme \<Rightarrow> ('z world_scheme, GetStunTurnConfigResponse) go" where
  "SC_GetStunTurnConfig env = query env (stun_of env) (SignalCall RtcGetStunTurnConfig)"

section \<open>The status\<close>

definition SC_DisConnected :: "('z signal_world_scheme, unit) go" where
  "SC_DisConnected = bind DisConnected (\<lambda>_. ret ())"

definition SC_Connected :: "('z signal_world_scheme, unit) go" where
  "SC_Connected = bind Connected (\<lambda>_. ret ())"

definition SC_GetConnStatus :: "('z signal_world_scheme, string) go" where
  "SC_GetConnStatus = bind Connected (\<lambda>_. bind GetConnStatus (\<lambda>status. ret (ConnStatus_String status)))"

definition WaitStartConnect :: "('z signal_world_scheme, unit) go" where
  "WaitStartConnect w = (if IsConnected w then (Ok (), w) else bind GetConnChan recv_closed w)"

section \<open>Connect: the receiving loop\<close>

definition Recv :: "'e signal_env_scheme \<Rightarrow> 'z world_scheme
    \<Rightarrow> (NegotiationRequest option \<times> err option) \<times> 'z world_scheme" where
  "Recv env w = (let h = hist w @ [SignalCall NegRecv] in (recv_of env h, w\<lparr>hist := h\<rparr>))"

text \<open>\<open>msg.DstNodeKey\<close>, read for a log message.\<close>

definition deref_msg :: "NegotiationRequest option \<Rightarrow> ('w, unit) go" where
  "deref_msg msg = (if msg = None then panic ''nil pointer dereference'' else ret ())"

text \<open>\<open>None\<close>: the loop runs for ever.\<close>

partial_function (option) recv_loop :: "'e signal_env_scheme \<Rightarrow> ('z world_scheme) handler
    \<Rightarrow> 'z world_scheme \<Rightarrow> (unit res \<times> 'z world_scheme) option" where
  "recv_loop env handler w = (case Recv env w of
       ((msg, Some err), w1) \<Rightarrow>
         if err = ErrEOF then Some (Err err, w1)
         else Some (bind (deref_msg msg) (\<lambda>_. throw err) w1)
     | ((msg, None), w1) \<Rightarrow> (case handler msg w1 of
           (Ok _, w2) \<Rightarrow> recv_loop env handler w2
         | (Err err, w2) \<Rightarrow> Some (bind (deref_msg msg) (\<lambda>_. throw err) w2)
         | (Panic s, w2) \<Rightarrow> Some (Panic s, w2)
         | (Stuck, w2) \<Rightarrow> Some (Stuck, w2)))"

text \<open>\<open>defer stream.CloseSend()\<close> runs when the loop returns or panics.\<close>

definition SC_Connect :: "'e signal_env_scheme \<Rightarrow> SysInfo \<Rightarrow> string \<Rightarrow> ('z signal_world_scheme) handler
    \<Rightarrow> ('z signal_world_scheme, unit) go" where
  "SC_Connect env sys nk handler =
     bind (perform env (SignalCall (NegConnect [(NodeKey, nk), (HostName, Hostname sys), (OsKey, OS sys)]))) (\<lambda>_.
     bind Connected (\<lambda>_ w.
     (case recv_loop env handler w of
        None \<Rightarrow> (Stuck, w)
      | Some rw \<Rightarrow> deferred (perform env (SignalCall NegCloseSend)) rw)))"

definition NewSignalClient :: "'e signal_env_scheme \<Rightarrow> SysInfo \<Rightarrow> ('z signal_world_scheme) SignalClientImpl" where
  "NewSignalClient env sys = \<lparr>
     sc_Candidate = SC_Candidate env, sc_Offer = SC_Offer env, sc_Answer = SC_Answer env,
     sc_Connect = SC_Connect env sys, sc_WaitStartConnect = WaitStartConnect,
     sc_IsReady = SC_IsReady env, sc_GetStunTurnConfig = SC_GetStunTurnConfig env,
     sc_DisConnected = SC_DisConnected, sc_Connected = SC_Connected,
     sc_GetConnStatus = SC_GetConnStatus\<rparr>"

section \<open>What the loop does\<close>

text \<open>\<open>served env handler w ms w'\<close>: from \<open>w\<close> the loop receives and handles the messages \<open>ms\<close>, in
  order and all with success, and is back at its head in \<open>w'\<close>.\<close>

inductive served :: "'e signal_env_scheme \<Rightarrow> ('z world_scheme) handler \<Rightarrow> 'z world_scheme
    \<Rightarrow> NegotiationRequest option list \<Rightarrow> 'z world_scheme \<Rightarrow> bool"
  for env :: "'e signal_env_scheme" and handler :: "('z world_scheme) handler" where
  served_Nil: "served env handler w [] w"
| served_Cons: "Recv env w = ((msg, None), w1) \<Longrightarrow> handler msg w1 = (Ok (), w2) \<Longrightarrow>
    served env handler w2 ms w' \<Longrightarrow> served env handler w (msg # ms) w'"

text \<open>One more turn of the loop that ends it.\<close>

definition loop_end :: "'e signal_env_scheme \<Rightarrow> ('z world_scheme) handler
    \<Rightarrow> 'z world_scheme \<Rightarrow> (unit res \<times> 'z world_scheme) option" where
  "loop_end env handler w = (case Recv env w of
       ((msg, Some err), w1) \<Rightarrow>
         Some (if err \<noteq> ErrEOF \<and> msg = None then Panic ''nil pointer dereference'' else Err err, w1)
     | ((msg, None), w1) \<Rightarrow> (case handler msg w1 of
           (Ok _, w2) \<Rightarrow> None
         | (Err err, w2) \<Rightarrow> Some (if msg = None then Panic ''nil pointer dereference'' else Err err, w2)
         | (Panic s, w2) \<Rightarrow> Some (Panic s, w2)
         | (Stuck, w2) \<Rightarrow> Some (Stuck, w2)))"

lemma recv_loop_end: "loop_end env handler w = Some rw \<Longrightarrow> recv_loop env handler w = Some rw"
  by (subst recv_loop.simps)
     (auto simp: loop_end_def deref_msg_def go_simps split: prod.splits option.splits res.splits if_splits)

lemma recv_loop_served:
  "served env handler w ms w' \<Longrightarrow> recv_loop env handler w = recv_loop env handler w'"
proof (induction rule: served.induct)
  case (served_Cons w msg w1 w2 ms w')
  have "recv_loop env handler w = recv_loop env handler w2"
    by (subst recv_loop.simps) (simp add: served_Cons.hyps)
  with served_Cons.IH show ?case by simp
qed simp

lemma recv_loop_returns:
  fixes env :: "'e signal_env_scheme" and handler :: "('z world_scheme) handler"
  assumes "recv_loop env handler w = Some rw"
  shows "\<exists>ms w'. served env handler w ms w' \<and> loop_end env handler w' = Some rw"
proof (rule recv_loop.raw_induct [OF _ assms])
  fix f and env :: "'e signal_env_scheme" and handler :: "('z world_scheme) handler" and w rw
  assume IH: "\<And>env handler w rw. f env handler w = Some rw \<Longrightarrow>
      \<exists>ms w'. served env handler w ms w' \<and> loop_end env handler w' = Some rw"
    and body: "(case Recv env w of
       ((msg, Some err), w1) \<Rightarrow>
         if err = ErrEOF then Some (Err err, w1)
         else Some (bind (deref_msg msg) (\<lambda>_. throw err) w1)
     | ((msg, None), w1) \<Rightarrow> (case handler msg w1 of
           (Ok _, w2) \<Rightarrow> f env handler w2
         | (Err err, w2) \<Rightarrow> Some (bind (deref_msg msg) (\<lambda>_. throw err) w2)
         | (Panic s, w2) \<Rightarrow> Some (Panic s, w2)
         | (Stuck, w2) \<Rightarrow> Some (Stuck, w2))) = Some rw"
  show "\<exists>ms w'. served env handler w ms w' \<and> loop_end env handler w' = Some rw"
  proof (cases "loop_end env handler w")
    case None
    then obtain msg w1 w2 where turn: "Recv env w = ((msg, None), w1)" "handler msg w1 = (Ok (), w2)"
      by (auto simp: loop_end_def split: prod.splits option.splits res.splits)
    with body have "f env handler w2 = Some rw" by simp
    from IH [OF this] obtain ms w' where "served env handler w2 ms w'" "loop_end env handler w' = Some rw"
      by blast
    with turn show ?thesis by (meson served.served_Cons)
  next
    case (Some rw')
    with body have "rw' = rw"
      by (auto simp: loop_end_def deref_msg_def go_simps split: prod.splits option.splits res.splits if_splits)
    with Some show ?thesis by (meson served.served_Nil)
  qed
qed

lemma recv_loop_iff:
  "recv_loop env handler w = Some rw \<longleftrightarrow>
   (\<exists>ms w'. served env handler w ms w' \<and> loop_end env handler w' = Some rw)"
  by (metis recv_loop_returns recv_loop_served recv_loop_end)

lemma loop_end_cases:
  assumes "loop_end env handler w = Some (r, w')"
  obtains (recv) msg err where "Recv env w = ((msg, Some err), w')"
      "r = (if err \<noteq> ErrEOF \<and> msg = None then Panic ''nil pointer dereference'' else Err err)"
  | (handled) msg w1 r' where "Recv env w = ((msg, None), w1)" "handler msg w1 = (r', w')" "r' \<noteq> Ok ()"
      "r = (case r' of Err _ \<Rightarrow> if msg = None then Panic ''nil pointer dereference'' else r' | _ \<Rightarrow> r')"
proof -
  obtain msg e w1 where rc: "Recv env w = ((msg, e), w1)" by (metis surj_pair)
  show ?thesis
  proof (cases e)
    case (Some err)
    then show ?thesis
      by (intro that(1) [of msg err]) (use assms rc in \<open>simp_all add: loop_end_def\<close>)
  next
    case None
    obtain r' w2 where h: "handler msg w1 = (r', w2)" by (cases "handler msg w1")
    show ?thesis
      by (cases r'; intro that(2) [of msg w1 r'])
         (use assms rc None h in \<open>auto simp: loop_end_def\<close>)
  qed
qed

lemma loop_end_not_Ok: "loop_end env handler w = Some (r, w') \<Longrightarrow> r \<noteq> Ok ()"
  by (erule loop_end_cases) (auto split: res.splits)

lemma served_keeps:
  assumes "served env handler w ms w'" "I w"
    "\<And>w :: 'z world_scheme. I w \<Longrightarrow> I (w\<lparr>hist := hist w @ [SignalCall NegRecv]\<rparr>)"
    "\<And>m. keeps I (handler m)"
  shows "I w'"
  using assms(1,2)
proof (induction rule: served.induct)
  case (served_Cons w msg w1 w2 ms w')
  from served_Cons.hyps(1) have "w1 = w\<lparr>hist := hist w @ [SignalCall NegRecv]\<rparr>"
    by (simp add: Recv_def Let_def)
  with served_Cons assms(3) have "I w1" by simp
  with served_Cons.hyps(2) have "I w2" by (rule keeps_run [OF assms(4)])
  with served_Cons.IH show ?case by blast
qed

lemma loop_end_keeps:
  assumes "loop_end env handler w = Some (r, w')" "I w"
    "\<And>w :: 'z world_scheme. I w \<Longrightarrow> I (w\<lparr>hist := hist w @ [SignalCall NegRecv]\<rparr>)"
    "\<And>m. keeps I (handler m)"
  shows "I w'"
proof -
  have "I (snd (Recv env w))" using assms(2,3) by (simp add: Recv_def Let_def)
  with assms(1) show ?thesis
    by (cases rule: loop_end_cases) (auto dest: keeps_run [OF assms(4)])
qed

lemma recv_loop_keeps:
  assumes "recv_loop env handler w = Some (r, w'')" "I w"
    "\<And>w :: 'z world_scheme. I w \<Longrightarrow> I (w\<lparr>hist := hist w @ [SignalCall NegRecv]\<rparr>)"
    "\<And>m. keeps I (handler m)"
  shows "I w''"
proof -
  from recv_loop_returns [OF assms(1)] obtain ms w'
    where sv: "served env handler w ms w'" and e: "loop_end env handler w' = Some (r, w'')" by blast
  have "I w'" by (rule served_keeps [OF sv assms(2-4)])
  with e show ?thesis by (rule loop_end_keeps) (rule assms(3,4), assumption?)+
qed

section \<open>The contract of the interface\<close>

text \<open>
  What the callers rely on: \<open>I\<close> is an invariant of every method, under it the two status
  methods return and set the status \<open>st\<close>, and no other method but \<open>Connect\<close> and
  \<open>GetConnStatus\<close> changes the status.
\<close>

locale signal_client =
  fixes sc :: "'w SignalClientImpl"
    and I :: "'w \<Rightarrow> bool"
    and st :: "'w \<Rightarrow> ConnStatus"
  assumes keeps_Candidate: "keeps I (sc_Candidate sc d s c)"
    and keeps_Offer: "keeps I (sc_Offer sc d s u p)"
    and keeps_Answer: "keeps I (sc_Answer sc d s u p)"
    and status_Offer: "st (snd (sc_Offer sc d s u p w)) = st w"
    and status_Answer: "st (snd (sc_Answer sc d s u p w)) = st w"
    and Connected_sets: "I w \<Longrightarrow> \<exists>w'. sc_Connected sc w = (Ok (), w') \<and> I w' \<and> st w' = Connect"
    and DisConnected_sets: "I w \<Longrightarrow> \<exists>w'. sc_DisConnected sc w = (Ok (), w') \<and> I w' \<and> st w' = DisConnect"
    and keeps_GetStunTurnConfig: "keeps I (sc_GetStunTurnConfig sc)"
    and keeps_IsReady: "keeps I (sc_IsReady sc)"
    and keeps_WaitStartConnect: "keeps I (sc_WaitStartConnect sc)"
    and keeps_GetConnStatus: "keeps I (sc_GetConnStatus sc)"
begin

lemma keeps_Connected: "keeps I (sc_Connected sc)"
  using Connected_sets by (fastforce simp: keeps_def)

lemma keeps_DisConnected: "keeps I (sc_DisConnected sc)"
  using DisConnected_sets by (fastforce simp: keeps_def)

lemmas keeps_client =
  keeps_Candidate keeps_Offer keeps_Answer keeps_Connected keeps_DisConnected
  keeps_GetStunTurnConfig keeps_IsReady keeps_WaitStartConnect keeps_GetConnStatus

end

text \<open>The invariant of the status with its mutex free.\<close>

definition conn_ok :: "'z signal_world_scheme \<Rightarrow> bool" where
  "conn_ok w \<longleftrightarrow> conn_inv w \<and> conn_mu \<notin> held w"

lemma conn_ok_hist [simp]: "conn_ok (w\<lparr>hist := h\<rparr>) = conn_ok w"
  by (simp add: conn_ok_def)

lemma conn_ok_world0 [simp]: "conn_ok conn_world0"
  by (simp add: conn_ok_def conn_inv_def conn_world0_def NewConnectedState_def)

lemma lock_free_conn_ok: "mu \<noteq> conn_mu \<Longrightarrow> lock_free mu conn_ok"
  by (auto simp: lock_free_def conn_ok_def)

lemma keeps_conn_ok_emit [keeps_intros]: "keeps conn_ok (emit c)"
  by (rule keeps_emit) simp

lemma keeps_conn_ok_perform [keeps_intros]: "keeps conn_ok (perform env c)"
  by (rule keeps_perform) simp

lemma conn_ok_connected:
  "conn_ok w \<Longrightarrow> conn_ok (w\<lparr>State := s, conn := None, closed := closed w \<union> set_option (conn w)\<rparr>)"
  by (simp add: conn_ok_def conn_inv_connected)

lemma Connected_ok:
  "conn_ok w \<Longrightarrow> Connected w =
    (Ok (), w\<lparr>State := Connect, conn := None, closed := closed w \<union> set_option (conn w)\<rparr>)"
  by (simp add: conn_ok_def Connected_run)

lemma keeps_conn_ok_Connected [keeps_intros]: "keeps conn_ok Connected"
  by (rule keepsI) (simp add: Connected_ok conn_ok_connected)

lemma keeps_conn_ok_GetConnChan [keeps_intros]: "keeps conn_ok GetConnChan"
  by (rule keepsI)
     (auto simp: GetConnChan_run conn_ok_def conn_inv_new_chan split: option.splits)

lemma keeps_conn_ok_GetConnStatus [keeps_intros]: "keeps conn_ok GetConnStatus"
  by (rule keepsI) (simp add: conn_ok_def GetConnStatus_run)

lemma keeps_recv_closed [keeps_intros]: "keeps I (recv_closed c)"
  by (auto simp: keeps_def recv_closed_def split: option.splits)

lemma keeps_conn_ok_WaitStartConnect: "keeps conn_ok WaitStartConnect"
proof (rule keepsI)
  fix w :: "'a signal_world_scheme" assume w: "conn_ok w"
  have "keeps conn_ok (bind GetConnChan recv_closed :: ('a signal_world_scheme, unit) go)"
    by (intro keeps_intros)
  with w show "conn_ok (snd (WaitStartConnect w))"
    by (auto simp: WaitStartConnect_def dest: keepsD)
qed

interpretation sc_ok: signal_client "NewSignalClient env sys" conn_ok State for env sys
proof
  fix w :: "'b signal_world_scheme" assume w: "conn_ok w"
  show "\<exists>w'. sc_Connected (NewSignalClient env sys) w = (Ok (), w') \<and> conn_ok w' \<and> State w' = Connect"
    using w by (simp add: NewSignalClient_def SC_Connected_def Connected_ok conn_ok_connected ret_def)
  show "\<exists>w'. sc_DisConnected (NewSignalClient env sys) w = (Ok (), w') \<and> conn_ok w' \<and> State w' = DisConnect"
    using w by (simp add: NewSignalClient_def SC_DisConnected_def DisConnected_run conn_ok_def ret_def)
qed (simp_all add: NewSignalClient_def SC_Candidate_def SC_Offer_def SC_Answer_def SC_IsReady_def
      SC_GetStunTurnConfig_def SC_GetConnStatus_def perform_def Let_def keeps_intros
      keeps_conn_ok_WaitStartConnect)

lemma SC_Connect_not_Ok:
  "fst (SC_Connect env sys nk handler w) \<noteq> Ok ()"
proof -
  have loop: "fst (case recv_loop env handler v of None \<Rightarrow> (Stuck, v)
      | Some rw \<Rightarrow> deferred (perform env (SignalCall NegCloseSend)) rw) \<noteq> Ok ()" for v
  proof (cases "recv_loop env handler v")
    case (Some rw)
    obtain r v' where rw: "rw = (r, v')" by (cases rw)
    from recv_loop_returns [OF Some] rw have "r \<noteq> Ok ()" by (auto dest: loop_end_not_Ok)
    with Some rw show ?thesis by (cases r) (auto simp: deferred_def)
  qed simp
  show ?thesis
    unfolding SC_Connect_def bind_def [of "perform env _"] bind_def [of Connected]
    by (auto split: prod.splits res.splits simp: loop)
qed

section \<open>Properties\<close>

text \<open>
  \<open>Connect\<close> never returns success: the receiving loop is left only by an error of the
  stream, an error of the handler, or a panic, and otherwise the call does not return.
\<close>
theorem Connect_never_succeeds:
  "fst (SC_Connect env sys nk handler w) \<noteq> Ok ()"
  by (rule SC_Connect_not_Ok)


text \<open>What \<open>Connect\<close> does when the stream opens and the loop ends.\<close>

lemma SC_Connect_run:
  assumes "conn_ok w" "NegConnect md = NegConnect [(NodeKey, nk), (HostName, Hostname sys), (OsKey, OS sys)]"
    "h = hist w @ [SignalCall (NegConnect md)]" "err_of env h = None"
    "served env handler (w\<lparr>hist := h, State := Connect, conn := None,
        closed := closed w \<union> set_option (conn w)\<rparr>) ms w'"
    "loop_end env handler w' = Some (r, w'')" "r \<noteq> Stuck"
  shows "SC_Connect env sys nk handler w =
    (r, w''\<lparr>hist := hist w'' @ [SignalCall NegCloseSend]\<rparr>)"
proof -
  let ?w = "w\<lparr>hist := h, State := Connect, conn := None, closed := closed w \<union> set_option (conn w)\<rparr>"
  have loop: "recv_loop env handler ?w = Some (r, w'')"
    using recv_loop_served [OF assms(5)] recv_loop_end [OF assms(6)] by simp
  have close: "snd (ignore (perform env (SignalCall NegCloseSend)) w'') =
      w''\<lparr>hist := hist w'' @ [SignalCall NegCloseSend]\<rparr>"
    by (simp add: ignore_def go_simps perform_def Let_def split: option.splits)
  have "SC_Connect env sys nk handler w = deferred (perform env (SignalCall NegCloseSend)) (r, w'')"
    using assms(1-4) loop by (simp add: SC_Connect_def perform_def Let_def Connected_ok go_simps)
  with close assms(7) show ?thesis by (cases r) (simp_all add: deferred_def)
qed

text \<open>
  C36. The generated stub answers a failing \<open>Recv\<close> with a nil message, and \<open>Connect\<close> reads the
  node key of that message for its log line: whatever messages have been served before,
  every error of the stream other than the end of file ends in a panic, with the stream
  closed for sending and the status still CONNECT if no message changed it.
\<close>
theorem Connect_stream_error_panics:
  assumes "conn_ok w" "h = hist w @ [SignalCall (NegConnect [(NodeKey, nk), (HostName, Hostname sys), (OsKey, OS sys)])]"
    "err_of env h = None"
    "served env handler (w\<lparr>hist := h, State := Connect, conn := None,
        closed := closed w \<union> set_option (conn w)\<rparr>) ms w'"
    "recv_of env (hist w' @ [SignalCall NegRecv]) = (None, Some e)"
  shows "SC_Connect env sys nk handler w =
     ((if e = ErrEOF then Err ErrEOF else Panic ''nil pointer dereference''),
      w'\<lparr>hist := hist w' @ [SignalCall NegRecv, SignalCall NegCloseSend]\<rparr>)"
proof -
  have e: "loop_end env handler w' =
      Some (if e = ErrEOF then Err ErrEOF else Panic ''nil pointer dereference'',
        w'\<lparr>hist := hist w' @ [SignalCall NegRecv]\<rparr>)"
    using assms(5) by (simp add: loop_end_def Recv_def)
  show ?thesis
    using SC_Connect_run [OF assms(1) refl assms(2,3,4) e] by (simp split: if_splits)
qed

text \<open>An outside in which every call succeeds, the stream has one message and then fails.\<close>

definition signal_env1 :: signal_env where
  "signal_env1 = server_env.extend server_env1
     \<lparr>recv_of = \<lambda>h. if length h = 2
          then (Some \<lparr>DstNodeKey = ''n'', MsgType = CANDIDATE, UFlag = [], Pwd = [], Candidate = ''c''\<rparr>, None)
          else (None, Some (ErrExt 14)),
      conn_state_of = \<lambda>h. Ready,
      stun_of = \<lambda>h. \<lparr>RtcConfig = Some \<lparr>StunHost = Some \<lparr>StunUrl = ''stun:s''\<rparr>,
        TurnHost = Some \<lparr>TurnUrl = ''turn:t'', TurnUsername = ''u'', TurnPassword = ''p''\<rparr>\<rparr>\<rparr>\<rparr>"

lemma signal_env1_simps [simp]:
  "err_of signal_env1 h = None" "conn_state_of signal_env1 h = Ready"
  by (simp_all add: signal_env1_def server_env.defs server_env1_def env.defs env1_def env0_def)

theorem Connect_stream_error_panics_witness:
  "fst (SC_Connect signal_env1 sys1 ''k'' (\<lambda>m. ret ()) conn_world0) = Panic ''nil pointer dereference''"
proof -
  define h where "h = hist conn_world0 @
    [SignalCall (NegConnect [(NodeKey, ''k''), (HostName, Hostname sys1), (OsKey, OS sys1)])]"
  define w1 where "w1 = conn_world0\<lparr>hist := h, State := Connect, conn := None,
    closed := closed conn_world0 \<union> set_option (conn conn_world0)\<rparr>"
  define w2 where "w2 = w1\<lparr>hist := h @ [SignalCall NegRecv]\<rparr>"
  have len: "length h = 1" by (simp add: h_def conn_world0_def NewConnectedState_def)
  obtain m where r: "Recv signal_env1 w1 = ((Some m, None), w2)"
    using len by (simp add: Recv_def Let_def w1_def w2_def signal_env1_def server_env.defs server_env1_def env.defs)
  have sv: "served signal_env1 (\<lambda>m. ret ()) w1 [Some m] w2"
    by (rule served_Cons [OF r _ served_Nil]) (simp add: ret_def)
  have "recv_of signal_env1 (hist w2 @ [SignalCall NegRecv]) = (None, Some (ErrExt 14))"
    using len by (simp add: w2_def w1_def signal_env1_def server_env.defs server_env1_def env.defs)
  from Connect_stream_error_panics [OF conn_ok_world0 h_def signal_env1_simps(1) sv [unfolded w1_def] this]
  show ?thesis by simp
qed

text \<open>
  \<open>GetConnStatus\<close> of the client reports \<open>connect\<close> whatever the status was, because it first
  marks the client as connected, which also releases the goroutines that wait for the
  connection.
\<close>
theorem GetConnStatus_always_connect:
  assumes "conn_ok w"
  shows "sc_GetConnStatus (NewSignalClient env sys) w =
    (Ok ''connect'', w\<lparr>State := Connect, conn := None, closed := closed w \<union> set_option (conn w)\<rparr>)"
proof -
  let ?w = "w\<lparr>State := Connect, conn := None, closed := closed w \<union> set_option (conn w)\<rparr>"
  have "conn_ok ?w" using assms by (rule conn_ok_connected)
  then have "GetConnStatus ?w = (Ok Connect, ?w)" by (simp add: GetConnStatus_run conn_ok_def)
  with assms show ?thesis
    by (simp add: NewSignalClient_def SC_GetConnStatus_def Connected_ok ret_def ConnStatus_String_def)
qed

theorem GetConnStatus_always_connect_witness:
  "State conn_world0 = DisConnect \<and>
   fst (sc_GetConnStatus (NewSignalClient signal_env1 sys1) conn_world0) = Ok ''connect''"
  using GetConnStatus_always_connect [OF conn_ok_world0, of signal_env1 sys1]
  by (simp add: conn_world0_def NewConnectedState_def)

text \<open>\<open>WaitStartConnect\<close> is the waiter of the step relation, run without interference.\<close>

lemma WaitStartConnect_waiter:
  assumes "conn_ok w" "WaitStartConnect w = (Ok (), w')"
  shows "\<exists>as. conn_path as (w, [W_check]) (w', [W_done])"
proof (cases "IsConnected w")
  case True
  with assms(2) have "w' = w" by (simp add: WaitStartConnect_def)
  have "conn_step (A_waiter 0) (w, [W_check]) (w, [W_done])"
    using True step_waiter [of 0 "[W_check]" w W_done w] by (simp add: waiter_step_def)
  with \<open>w' = w\<close> have "conn_path [A_waiter 0] (w, [W_check]) (w', [W_done])" by simp
  then show ?thesis by blast
next
  case False
  obtain c w1 where g: "GetConnChan w = (Ok (Some c), w1)"
    using assms(1) by (cases "conn w") (simp_all add: conn_ok_def GetConnChan_run)
  with assms(2) False have "c \<in> closed w1 \<and> w' = w1"
    by (auto simp: WaitStartConnect_def recv_closed_def split: if_splits)
  moreover have "conn_step (A_waiter 0) (w, [W_check]) (w, [W_get])"
    using False step_waiter [of 0 "[W_check]" w W_get w] by (simp add: waiter_step_def)
  moreover have "conn_step (A_waiter 0) (w, [W_get]) (w1, [W_wait c])"
    using g step_waiter [of 0 "[W_get]" w "W_wait c" w1] by (simp add: waiter_step_def)
  moreover have "c \<in> closed w1 \<Longrightarrow> conn_step (A_waiter 0) (w1, [W_wait c]) (w1, [W_done])"
    using step_waiter [of 0 "[W_wait c]" w1 W_done w1] by (simp add: waiter_step_def recv_closed_def)
  ultimately have "conn_path [A_waiter 0, A_waiter 0, A_waiter 0] (w, [W_check]) (w', [W_done])"
    by (auto intro: run_Cons run_Nil)
  then show ?thesis by blast
qed

end
