(* ===== verification/Wire_Proxy.thy ===== *)
theory Wire_Proxy
  imports Iface Signal_Client
begin

text \<open>
  \<open>rcn/proxy/wire_proxy.go\<close>: the decision whether the packets of a peer are relayed, the
  configuration of the peer's endpoint, and the two loops that relay. The objects
  \<open>WireProxy\<close> live in the world under a number, a missing number is a nil pointer.
\<close>

section \<open>The decision\<close>

definition IsPublicIP :: "ip \<Rightarrow> bool" where
  "IsPublicIP ip =
     (if IsLoopback ip \<or> IsLinkLocalUnicast ip \<or> IsLinkLocalMulticast ip \<or> IsPrivate ip then False
      else True)"

definition shouldUseProxy :: "CandidatePair \<Rightarrow> bool" where
  "shouldUseProxy pair =
     (let remoteIsPublic = IsPublicIP (ParseIP (Address (Remote pair)));
          myIsPublic = IsPublicIP (ParseIP (Address (Local pair)))
      in if remoteIsPublic \<and> Type (Remote pair) = CandidateTypeHost then False
         else if myIsPublic \<and> Type (Local pair) = CandidateTypeHost then False
         else if Type (Local pair) = CandidateTypeHost \<and> Type (Remote pair) = CandidateTypeHost
              \<and> \<not> remoteIsPublic \<and> \<not> myIsPublic then False
         else True)"

section \<open>The object\<close>

record WireProxy =
  wp_iface :: Iface
  wp_remoteWgPubKey :: string
  wp_remoteIp :: string
  wp_wgIface :: string
  wp_listenAddr :: string
  wp_preSharedKey :: string
  wp_agent :: nat
  wp_remoteConn :: bool
  wp_localConn :: bool
  wp_cancelled :: bool

record proxy_world = signal_world +
  proxies :: "nat \<Rightarrow> WireProxy option"
  next_proxy :: nat

text \<open>\<open>pair_of\<close>: a nil pair without an error is what the agent answers when none is selected.\<close>

record proxy_env = signal_env +
  pair_of :: "call list \<Rightarrow> CandidatePair option"
  addr_of :: "call list \<Rightarrow> udp_addr"

definition with_proxy :: "nat \<Rightarrow> (WireProxy \<Rightarrow> ('z proxy_world_scheme, 'a) go) \<Rightarrow> ('z proxy_world_scheme, 'a) go" where
  "with_proxy p f w = (case proxies w p of
       None \<Rightarrow> panic ''nil pointer dereference'' w | Some x \<Rightarrow> f x w)"

definition set_proxy :: "nat \<Rightarrow> (WireProxy \<Rightarrow> WireProxy) \<Rightarrow> ('z proxy_world_scheme, unit) go" where
  "set_proxy p f = modify (\<lambda>w. w\<lparr>proxies := (proxies w)(p := map_option f (proxies w p))\<rparr>)"

definition NewWireProxy :: "Iface \<Rightarrow> string \<Rightarrow> string \<Rightarrow> string \<Rightarrow> string \<Rightarrow> string \<Rightarrow> nat
    \<Rightarrow> ('z proxy_world_scheme, nat) go" where
  "NewWireProxy ifac remoteWgPubKey remoteip wgiface listenAddr presharedkey agent w =
     (let p = next_proxy w in
      (Ok p, w\<lparr>proxies := (proxies w)(p \<mapsto> \<lparr>wp_iface = ifac, wp_remoteWgPubKey = remoteWgPubKey,
          wp_remoteIp = remoteip, wp_wgIface = wgiface, wp_listenAddr = listenAddr,
          wp_preSharedKey = presharedkey, wp_agent = agent, wp_remoteConn = False, wp_localConn = False,
          wp_cancelled = False\<rparr>), next_proxy := Suc p\<rparr>))"

section \<open>The operations\<close>

definition proxy_setup :: "'e env_scheme \<Rightarrow> nat \<Rightarrow> ('z proxy_world_scheme, unit) go" where
  "proxy_setup env p = with_proxy p (\<lambda>wp.
     bind (set_proxy p (\<lambda>x. x\<lparr>wp_remoteConn := True\<rparr>)) (\<lambda>_.
     bind (perform env (ProxyCall p (NetDialUdp (wp_listenAddr wp)))) (\<lambda>_.
     set_proxy p (\<lambda>x. x\<lparr>wp_localConn := True\<rparr>))))"

definition configureNoProxy :: "'e proxy_env_scheme \<Rightarrow> nat \<Rightarrow> ('z proxy_world_scheme, unit) go" where
  "configureNoProxy env p = with_proxy p (\<lambda>wp.
     bind (query env (addr_of env) (ProxyCall p ResolveUDPAddr)) (\<lambda>udpAddr.
     ConfigureRemoteNodePeer env (wp_iface wp) (wp_remoteWgPubKey wp) (wp_remoteIp wp)
       (udpAddr\<lparr>Port := WgPort\<rparr>) DefaultWgKeepAlive (wp_preSharedKey wp)))"

definition configureWireProxy :: "'e proxy_env_scheme \<Rightarrow> nat \<Rightarrow> ('z proxy_world_scheme, unit) go" where
  "configureWireProxy env p = with_proxy p (\<lambda>wp.
     bind (query env (addr_of env) (ProxyCall p ResolveUDPAddr)) (\<lambda>udpAddr.
     ConfigureRemoteNodePeer env (wp_iface wp) (wp_remoteWgPubKey wp) (wp_remoteIp wp)
       udpAddr DefaultWgKeepAlive (wp_preSharedKey wp)))"

definition proxy_Stop :: "'e env_scheme \<Rightarrow> nat \<Rightarrow> ('z proxy_world_scheme, unit) go" where
  "proxy_Stop env p = with_proxy p (\<lambda>wp.
     bind (set_proxy p (\<lambda>x. x\<lparr>wp_cancelled := True\<rparr>)) (\<lambda>_.
     if \<not> wp_localConn wp then ret ()
     else RemoveRemotePeer env (wp_iface wp) (wp_wgIface wp) (wp_remoteIp wp) (wp_remoteWgPubKey wp)))"

definition startMon :: "nat \<Rightarrow> ('z world_scheme, unit) go" where
  "startMon p = bind (spawn (MonLocalToRemote p)) (\<lambda>_. spawn (MonRemoteToLocal p))"

definition StartProxy :: "'e proxy_env_scheme \<Rightarrow> nat \<Rightarrow> ('z proxy_world_scheme, unit) go" where
  "StartProxy env p = with_proxy p (\<lambda>wp.
     bind (proxy_setup env p) (\<lambda>_.
     bind (query env (pair_of env) (IceCall (wp_agent wp) GetSelectedCandidatePair)) (\<lambda>pair.
     case pair of
       None \<Rightarrow> panic ''nil pointer dereference''
     | Some pair \<Rightarrow>
         if shouldUseProxy pair then
           bind (configureWireProxy env p) (\<lambda>_. startMon p)
         else
           bind (configureNoProxy env p) (\<lambda>_. startMon p))))"

section \<open>The relay loops\<close>

text \<open>
  A goroutine of a loop is either before its \<open>select\<close>, or in its \<open>Read\<close>, or it has returned.
  The \<open>Read\<close> blocks until the socket has data or an error; nothing else ends it, and the code
  neither closes the socket nor sets a deadline. One turn is a step of such a goroutine, in
  which \<open>ready\<close> says whether the socket has something to answer by now: the test of the
  context, or the end of the \<open>Read\<close> with the \<open>Write\<close> that follows it, or waiting.
\<close>

datatype mon_pc = MonSelect | MonRead | MonReturned

definition monLocalToRemoteProxy :: "'e env_scheme \<Rightarrow> nat \<Rightarrow> bool \<Rightarrow> mon_pc \<Rightarrow> ('z proxy_world_scheme, mon_pc) go" where
  "monLocalToRemoteProxy env p ready pc = (case pc of
       MonSelect \<Rightarrow> with_proxy p (\<lambda>wp. if wp_cancelled wp then ret MonReturned else ret MonRead)
     | MonRead \<Rightarrow>
         if \<not> ready then ret MonRead
         else bind (attempt (query env (str_of env) (ProxyCall p LocalRead))) (\<lambda>r. case r of
           Inl err \<Rightarrow> ret MonSelect
         | Inr buf \<Rightarrow> bind (attempt (perform env (ProxyCall p (RemoteWrite buf)))) (\<lambda>_. ret MonSelect))
     | MonReturned \<Rightarrow> ret MonReturned)"

definition monRemoteToLocalProxy :: "'e env_scheme \<Rightarrow> nat \<Rightarrow> bool \<Rightarrow> mon_pc \<Rightarrow> ('z proxy_world_scheme, mon_pc) go" where
  "monRemoteToLocalProxy env p ready pc = (case pc of
       MonSelect \<Rightarrow> with_proxy p (\<lambda>wp. if wp_cancelled wp then ret MonReturned else ret MonRead)
     | MonRead \<Rightarrow>
         if \<not> ready then ret MonRead
         else bind (attempt (query env (str_of env) (ProxyCall p RemoteRead))) (\<lambda>r. case r of
           Inl err \<Rightarrow> ret MonSelect
         | Inr buf \<Rightarrow> bind (attempt (perform env (ProxyCall p (LocalWrite buf)))) (\<lambda>_. ret MonSelect))
     | MonReturned \<Rightarrow> ret MonReturned)"

datatype direction = LocalToRemote | RemoteToLocal

fun mon_turn :: "'e env_scheme \<Rightarrow> direction \<Rightarrow> nat \<Rightarrow> bool \<Rightarrow> mon_pc \<Rightarrow> ('z proxy_world_scheme, mon_pc) go" where
  "mon_turn env LocalToRemote = monLocalToRemoteProxy env"
| "mon_turn env RemoteToLocal = monRemoteToLocalProxy env"

text \<open>The loop beside the rest of the program, for as many turns as the list has: before a turn
  another goroutine may have cancelled the context of the object (the first component), also
  while the loop is in its \<open>Read\<close>; the second is \<open>ready\<close>.\<close>

fun mon_loop :: "'e env_scheme \<Rightarrow> direction \<Rightarrow> nat \<Rightarrow> (bool \<times> bool) list \<Rightarrow> mon_pc \<Rightarrow> ('z proxy_world_scheme, mon_pc) go" where
  "mon_loop env d p [] pc = ret pc"
| "mon_loop env d p ((cancel, ready) # evs) pc =
     bind (if cancel then set_proxy p (\<lambda>x. x\<lparr>wp_cancelled := True\<rparr>) else ret ()) (\<lambda>_.
     bind (mon_turn env d p ready pc) (mon_loop env d p evs))"

section \<open>Lemmas\<close>

lemma IsPublicIP_nil [simp]: "IsPublicIP []"
  by (simp add: IsPublicIP_def IsLoopback_def IsLinkLocalUnicast_def IsLinkLocalMulticast_def
      IsPrivate_def To4_def)

lemma with_proxy_Some [simp]: "proxies w p = Some wp \<Longrightarrow> with_proxy p f w = f wp w"
  by (simp add: with_proxy_def)

lemma keeps_with_proxy [keeps_intros]: "(\<And>wp. keeps I (f wp)) \<Longrightarrow> keeps I (with_proxy p f)"
  unfolding keeps_def with_proxy_def by (simp add: go_simps split: option.splits)

lemma keeps_set_proxy:
  "(\<And>w ps. I w \<Longrightarrow> I (w\<lparr>proxies := ps\<rparr>)) \<Longrightarrow> keeps I (set_proxy p f)"
  by (simp add: set_proxy_def keeps_modify)

text \<open>What \<open>StartProxy\<close>, \<open>proxy_Stop\<close> and the loops keep: an invariant of the calls and of the objects.\<close>

locale proxy_keeps =
  fixes env :: "'e proxy_env_scheme" and I :: "'z proxy_world_scheme \<Rightarrow> bool"
  assumes calls: "keeps I (perform env c)"
    and spawns: "keeps I (spawn t)"
    and objects: "I w \<Longrightarrow> I (w\<lparr>proxies := ps\<rparr>)"
begin

lemma keeps_setup: "keeps I (proxy_setup env p)"
  by (simp add: proxy_setup_def keeps_intros calls keeps_set_proxy objects)

lemma keeps_StartProxy: "keeps I (StartProxy env p)"
  by (auto simp: StartProxy_def configureNoProxy_def configureWireProxy_def startMon_def
      intro!: keeps_intros keeps_setup calls spawns)

lemma keeps_Stop: "keeps I (proxy_Stop env p)"
  by (simp add: proxy_Stop_def keeps_intros calls keeps_set_proxy objects)

lemma keeps_mon_turn: "keeps I (mon_turn env d p ready pc)"
  by (cases d; cases pc)
     (simp_all add: monLocalToRemoteProxy_def monRemoteToLocalProxy_def keeps_intros calls)

lemma keeps_mon_loop: "keeps I (mon_loop env d p evs pc)"
proof (induction evs arbitrary: pc)
  case (Cons e evs)
  obtain c r where e: "e = (c, r)" by (cases e)
  show ?case
    unfolding e mon_loop.simps by (intro keeps_bind keeps_mon_turn Cons.IH) (simp add: keeps_set_proxy objects keeps_ret)
qed (simp add: keeps_ret)

end

interpretation wp_ext: proxy_keeps env "extends h" for env h
  by unfold_locales (simp_all add: keeps_intros spawn_def extends_def)

interpretation wp_ok: proxy_keeps env conn_ok for env
  by unfold_locales (simp_all add: keeps_intros spawn_def conn_ok_def conn_inv_def)

section \<open>Properties\<close>

text \<open>
  An IPv4 address in dotted notation is public exactly when it is outside the networks
  127/8, 169.254/16, 224.0.0/24, 10/8, 172.16/12 and 192.168/16.
\<close>

definition public_octets :: "nat \<times> nat \<times> nat \<times> nat \<Rightarrow> bool" where
  "public_octets = (\<lambda>(a, b, c, d). a \<noteq> 127 \<and> \<not> (a = 169 \<and> b = 254) \<and> \<not> (a = 224 \<and> b = 0 \<and> c = 0) \<and>
     a \<noteq> 10 \<and> \<not> (a = 172 \<and> b div 16 = 1) \<and> \<not> (a = 192 \<and> b = 168))"

definition address_octets :: "string \<Rightarrow> nat \<times> nat \<times> nat \<times> nat \<Rightarrow> bool" where
  "address_octets s = (\<lambda>(a, b, c, d). s = dotted a b c d \<and> a < 256 \<and> b < 256 \<and> c < 256 \<and> d < 256)"

lemma IsPublicIP_dotted:
  assumes "a < 256" "b < 256" "c < 256" "d < 256"
  shows "IsPublicIP (ParseIP (dotted a b c d)) \<longleftrightarrow>
     a \<noteq> 127 \<and> \<not> (a = 169 \<and> b = 254) \<and> \<not> (a = 224 \<and> b = 0 \<and> c = 0) \<and>
     a \<noteq> 10 \<and> \<not> (a = 172 \<and> b div 16 = 1) \<and> \<not> (a = 192 \<and> b = 168)"
proof -
  have k: "(word_of_nat x = (127 :: u8)) = (x = 127)" "(word_of_nat x = (169 :: u8)) = (x = 169)"
    "(word_of_nat x = (254 :: u8)) = (x = 254)" "(word_of_nat x = (224 :: u8)) = (x = 224)"
    "(word_of_nat x = (0 :: u8)) = (x = 0)" "(word_of_nat x = (10 :: u8)) = (x = 10)"
    "(word_of_nat x = (172 :: u8)) = (x = 172)" "(word_of_nat x = (192 :: u8)) = (x = 192)"
    "(word_of_nat x = (168 :: u8)) = (x = 168)" if "x < 256" for x
    using u8_eq_iff [OF that, of 127] u8_eq_iff [OF that, of 169] u8_eq_iff [OF that, of 254]
      u8_eq_iff [OF that, of 224] u8_eq_iff [OF that, of 0] u8_eq_iff [OF that, of 10]
      u8_eq_iff [OF that, of 172] u8_eq_iff [OF that, of 192] u8_eq_iff [OF that, of 168]
    by simp_all
  have n: "(word_of_nat b AND 0xf0 = (16 :: u8)) = (b div 16 = 1)"
    using assms(2) by (simp add: high_nibble unat_of_nat)
  show ?thesis
    unfolding ParseIP_dotted [OF assms]
    by (simp add: IsPublicIP_def IsLoopback_def IsLinkLocalUnicast_def IsLinkLocalMulticast_def
        IsPrivate_def Let_def k assms n)
qed

text \<open>
  C26. Two nodes with IPv4 addresses talk through the relay exactly when not both candidates are
  of type host, and neither is of type host with a public address.
\<close>
theorem shouldUseProxy_dotted:
  assumes "address_octets (Address (Local pair)) l" "address_octets (Address (Remote pair)) r"
  shows "shouldUseProxy pair \<longleftrightarrow>
     \<not> (Type (Local pair) = CandidateTypeHost \<and> Type (Remote pair) = CandidateTypeHost) \<and>
     \<not> (Type (Local pair) = CandidateTypeHost \<and> public_octets l) \<and>
     \<not> (Type (Remote pair) = CandidateTypeHost \<and> public_octets r)"
proof -
  have "IsPublicIP (ParseIP s) = public_octets x" if "address_octets s x" for s x
    using that IsPublicIP_dotted by (auto simp: address_octets_def public_octets_def)
  from this [OF assms(1)] this [OF assms(2)] show ?thesis by (auto simp: shouldUseProxy_def Let_def)
qed

theorem shouldUseProxy_dotted_witness:
  "\<exists>pair. Type (Local pair) = CandidateTypeHost \<and> Address (Local pair) = ''192.168.0.7'' \<and>
     Address (Remote pair) = ''8.8.8.8'' \<and> shouldUseProxy pair \<and>
     \<not> shouldUseProxy (pair\<lparr>Remote := (Remote pair)\<lparr>Type := CandidateTypeHost\<rparr>\<rparr>)"
proof -
  define pair where "pair = \<lparr>Local = \<lparr>Address = ''192.168.0.7'', Type = CandidateTypeHost\<rparr>,
     Remote = \<lparr>Address = ''8.8.8.8'', Type = CandidateTypeRelay\<rparr>\<rparr>"
  have d: "dotted 192 168 0 7 = ''192.168.0.7''" "dotted 8 8 8 8 = ''8.8.8.8''" by (code_simp, code_simp)
  have o: "address_octets ''192.168.0.7'' (192, 168, 0, 7)" "address_octets ''8.8.8.8'' (8, 8, 8, 8)"
    by (simp_all add: address_octets_def d)
  show ?thesis
    using shouldUseProxy_dotted [of pair "(192, 168, 0, 7)" "(8, 8, 8, 8)"]
      shouldUseProxy_dotted [of "pair\<lparr>Remote := (Remote pair)\<lparr>Type := CandidateTypeHost\<rparr>\<rparr>" "(192, 168, 0, 7)" "(8, 8, 8, 8)"] o
    by (intro exI [of _ pair]) (simp add: pair_def public_octets_def)
qed

text \<open>
  C19. When every call succeeds \<open>StartProxy\<close> connects the local socket, asks the agent for the
  selected pair, configures the peer once and starts the two relay loops. The endpoint of
  the peer is the resolved address, with the port replaced by the WireGuard port when the
  pair needs no relay.
\<close>
theorem StartProxy_endpoint:
  assumes "proxies w p = Some wp" "\<forall>h. err_of env h = None"
    "h2 = hist w @ [ProxyCall p (NetDialUdp (wp_listenAddr wp)), IceCall (wp_agent wp) GetSelectedCandidatePair]"
    "pair_of env h2 = Some pair" "ParseCIDR (wp_remoteIp wp) = Some n"
    "parse_key env (wp_remoteWgPubKey wp) = Inr k" "wp_preSharedKey wp = []"
    "addr = addr_of env (h2 @ [ProxyCall p ResolveUDPAddr])"
  shows "StartProxy env p w = (Ok (), w\<lparr>hist := h2 @ [ProxyCall p ResolveUDPAddr,
       WgCall WgctrlNew, WgCall (WgDevice (Tun (wp_iface wp))),
       WgCall (WgConfigureDevice (Tun (wp_iface wp)) (peers_config
         [\<lparr>PublicKey = k, Remove = False, PresharedKey = Some zero_key,
           Endpoint = Some (if shouldUseProxy pair then addr else addr\<lparr>Port := WgPort\<rparr>),
           PersistentKeepaliveInterval = Some DefaultWgKeepAlive, ReplaceAllowedIPs = True, AllowedIPs = [n]\<rparr>])),
       WgCall WgClose, Go (MonLocalToRemote p), Go (MonRemoteToLocal p)],
     proxies := (proxies w)(p \<mapsto> wp\<lparr>wp_remoteConn := True, wp_localConn := True\<rparr>)\<rparr>)"
  using assms
  by (simp add: StartProxy_def proxy_setup_def set_proxy_def query_def go_simps configureNoProxy_def
      configureWireProxy_def ConfigureRemoteNodePeer_def ParseCIDR_go_def ParseKey_def
      configureDevice_run startMon_def spawn_def)

definition wp0 :: WireProxy where
  "wp0 = \<lparr>wp_iface = iface0, wp_remoteWgPubKey = ''k'', wp_remoteIp = ''10.0.0.2/32'', wp_wgIface = ''rt0'',
     wp_listenAddr = ''127.0.0.1:51820'', wp_preSharedKey = [], wp_agent = 0, wp_remoteConn = False,
     wp_localConn = False, wp_cancelled = False\<rparr>"

definition proxy_world0 :: proxy_world where
  "proxy_world0 = signal_world.extend conn_world0 \<lparr>proxies = [0 \<mapsto> wp0], next_proxy = 1\<rparr>"

definition pair0 :: CandidatePair where
  "pair0 = \<lparr>Local = \<lparr>Address = ''192.168.0.2'', Type = CandidateTypeHost\<rparr>,
     Remote = \<lparr>Address = ''192.168.0.3'', Type = CandidateTypeHost\<rparr>\<rparr>"

definition proxy_env1 :: proxy_env where
  "proxy_env1 = signal_env.extend signal_env1
     \<lparr>pair_of = \<lambda>h. Some pair0, addr_of = \<lambda>h. \<lparr>addrIP = [1, 2, 3, 4], Port = 4000\<rparr>\<rparr>"

lemma proxy_env1_simps [simp]:
  "err_of proxy_env1 h = None" "pair_of proxy_env1 h = Some pair0"
  "addr_of proxy_env1 h = \<lparr>addrIP = [1, 2, 3, 4], Port = 4000\<rparr>"
  "parse_key proxy_env1 s = Inr (replicate 32 (of_nat (length s)))"
  by (simp_all add: proxy_env1_def signal_env1_def server_env1_def env1_def env0_def
      signal_env.defs server_env.defs env.defs)

lemma proxy_world0_simps [simp]:
  "proxies proxy_world0 = [0 \<mapsto> wp0]" "hist proxy_world0 = []" "held proxy_world0 = {}"
  by (simp_all add: proxy_world0_def signal_world.defs conn_world0_def NewConnectedState_def)

theorem StartProxy_endpoint_witness:
  "\<exists>w'. StartProxy proxy_env1 0 proxy_world0 = (Ok (), w') \<and> length (hist w') = 9"
proof -
  have n: "ParseCIDR (wp_remoteIp wp0) = Some \<lparr>netIP = [10, 0, 0, 2], ones = 32\<rparr>"
    by code_simp
  show ?thesis
    using StartProxy_endpoint [of proxy_world0 0 wp0 proxy_env1 _ pair0, OF _ _ refl _ n _ _ refl]
    by (auto simp: wp0_def)
qed

text \<open>No goroutine among the calls made since \<open>h\<close>.\<close>

definition no_go :: "call list \<Rightarrow> 'z world_scheme \<Rightarrow> bool" where
  "no_go h w \<longleftrightarrow> (\<exists>cs. hist w = h @ cs \<and> (\<forall>t. Go t \<notin> set cs))"

lemma no_go_calls: "(\<forall>t. c \<noteq> Go t) \<Longrightarrow> keeps (no_go h) (perform env c)"
  by (rule keeps_perform) (auto simp: no_go_def)

text \<open>
  C20. \<open>StartProxy\<close> starts the relay loops only when it succeeds: when it fails or panics no
  goroutine has been started.
\<close>
theorem StartProxy_failure_starts_nothing:
  assumes "fst (StartProxy env p w) \<noteq> Ok ()"
  shows "\<exists>cs. hist (snd (StartProxy env p w)) = hist w @ cs \<and> (\<forall>t. Go t \<notin> set cs)"
proof -
  let ?I = "no_go (hist w) :: 'c proxy_world_scheme \<Rightarrow> bool"
  have conf: "keeps ?I (configureNoProxy env p)" "keeps ?I (configureWireProxy env p)"
    unfolding configureNoProxy_def configureWireProxy_def ConfigureRemoteNodePeer_def configureDevice_def
    by (intro keeps_intros no_go_calls; simp)+
  have set_up: "keeps ?I (proxy_setup env p)"
    unfolding proxy_setup_def
    by (intro keeps_intros no_go_calls keeps_set_proxy) (simp_all add: no_go_def)
  have mon: "keeps_failing ?I (startMon p)"
    by (rule keeps_failing_total) (simp add: startMon_def spawn_def go_simps)
  have "keeps_failing ?I (case pair of None \<Rightarrow> panic ''nil pointer dereference''
      | Some pair \<Rightarrow> if shouldUseProxy pair then bind (configureWireProxy env p) (\<lambda>_. startMon p)
          else bind (configureNoProxy env p) (\<lambda>_. startMon p))" for pair
    by (cases pair) (simp_all add: keeps_failing_keeps keeps_panic keeps_failing_bind conf mon)
  then have "keeps_failing ?I (bind (proxy_setup env p) (\<lambda>_.
      bind (query env (pair_of env) (IceCall a GetSelectedCandidatePair)) (\<lambda>pair.
      case pair of None \<Rightarrow> panic ''nil pointer dereference''
      | Some pair \<Rightarrow> if shouldUseProxy pair then bind (configureWireProxy env p) (\<lambda>_. startMon p)
          else bind (configureNoProxy env p) (\<lambda>_. startMon p))))" for a
    by (intro keeps_failing_bind set_up keeps_query no_go_calls) simp_all
  moreover have "?I w" by (simp add: no_go_def)
  ultimately have "?I (snd (StartProxy env p w))"
    using assms by (auto simp: StartProxy_def with_proxy_def panic_def keeps_failing_def split: option.splits)
  then show ?thesis by (simp add: no_go_def)
qed

theorem StartProxy_failure_starts_nothing_witness:
  "\<exists>cs. hist (snd (StartProxy (proxy_env1\<lparr>pair_of := \<lambda>h. None\<rparr>) 0 proxy_world0)) = cs \<and> length cs = 2
     \<and> (\<forall>t. Go t \<notin> set cs)"
proof -
  have "StartProxy (proxy_env1\<lparr>pair_of := \<lambda>h. None\<rparr>) 0 proxy_world0 =
    (Panic ''nil pointer dereference'', proxy_world0\<lparr>hist := [ProxyCall 0 (NetDialUdp (wp_listenAddr wp0)),
       IceCall 0 GetSelectedCandidatePair],
     proxies := [0 \<mapsto> wp0\<lparr>wp_remoteConn := True, wp_localConn := True\<rparr>]\<rparr>)"
    by (simp add: StartProxy_def proxy_setup_def set_proxy_def query_def go_simps wp0_def)
  then show ?thesis
    using StartProxy_failure_starts_nothing [of "proxy_env1\<lparr>pair_of := \<lambda>h. None\<rparr>" 0 proxy_world0] by simp
qed

lemma proxy_Stop_cancel:
  assumes "proxies w p = Some wp" "proxy_Stop env p w = (r, w')"
  shows "proxies w' p = Some (wp\<lparr>wp_cancelled := True\<rparr>)"
  using assms
  by (auto simp: proxy_Stop_def set_proxy_def go_simps RemoveRemotePeer_def ParseKey_def
      configureDevice_run Let_def split: if_splits sum.splits option.splits)

text \<open>
  \<open>Stop\<close> always cancels the loops of the object; before \<open>setup\<close> it makes no call at all, and
  after it asks the device to remove the peer, which it reports when it fails.
\<close>
theorem proxy_Stop_cancels:
  assumes "proxies w p = Some wp" "proxy_Stop env p w = (r, w')"
  shows "proxies w' p = Some (wp\<lparr>wp_cancelled := True\<rparr>) \<and>
    (\<not> wp_localConn wp \<longrightarrow> r = Ok () \<and> hist w' = hist w) \<and>
    (wp_localConn wp \<longrightarrow> r = fst (RemoveRemotePeer env (wp_iface wp) (wp_wgIface wp) (wp_remoteIp wp)
       (wp_remoteWgPubKey wp) w))"
  using assms
  by (auto simp: proxy_Stop_def set_proxy_def go_simps RemoveRemotePeer_def ParseKey_def
      configureDevice_run Let_def split: if_splits sum.splits option.splits)

theorem proxy_Stop_cancels_witness:
  "\<exists>w'. proxy_Stop proxy_env1 0 proxy_world0 = (Ok (), w') \<and>
     proxies w' 0 = Some (wp0\<lparr>wp_cancelled := True\<rparr>) \<and> hist w' = []"
proof -
  obtain r w' where r: "proxy_Stop proxy_env1 0 proxy_world0 = (r, w')" by (metis surj_pair)
  with proxy_Stop_cancels [OF _ r, of wp0] show ?thesis by (simp add: wp0_def)
qed

subsection \<open>The relay loops\<close>

fun mon_read :: "direction \<Rightarrow> proxy_call" where
  "mon_read LocalToRemote = LocalRead"
| "mon_read RemoteToLocal = RemoteRead"

fun mon_write :: "direction \<Rightarrow> string \<Rightarrow> proxy_call" where
  "mon_write LocalToRemote s = RemoteWrite s"
| "mon_write RemoteToLocal s = LocalWrite s"

text \<open>The calls of a \<open>Read\<close> that ends at the history \<open>h\<close>: it fails, or its data is written to the
  other socket, unchanged.\<close>

definition relayed :: "'e env_scheme \<Rightarrow> direction \<Rightarrow> nat \<Rightarrow> call list \<Rightarrow> call list" where
  "relayed env d p h = (let h1 = h @ [ProxyCall p (mon_read d)] in
     if err_of env h1 = None then [ProxyCall p (mon_read d), ProxyCall p (mon_write d (str_of env h1))]
     else [ProxyCall p (mon_read d)])"

text \<open>What a loop of direction \<open>d\<close> may add to the history \<open>h\<close>: reads that fail, and reads whose
  data is written to the other socket next, unchanged.\<close>

inductive relay_trace :: "'e env_scheme \<Rightarrow> direction \<Rightarrow> nat \<Rightarrow> call list \<Rightarrow> call list \<Rightarrow> bool"
  for env d p where
  relay_Nil: "relay_trace env d p h []"
| relay_fail: "err_of env (h @ [ProxyCall p (mon_read d)]) \<noteq> None \<Longrightarrow>
    relay_trace env d p (h @ [ProxyCall p (mon_read d)]) cs \<Longrightarrow>
    relay_trace env d p h (ProxyCall p (mon_read d) # cs)"
| relay_pass: "h1 = h @ [ProxyCall p (mon_read d)] \<Longrightarrow> err_of env h1 = None \<Longrightarrow>
    c = ProxyCall p (mon_write d (str_of env h1)) \<Longrightarrow>
    relay_trace env d p (h1 @ [c]) cs \<Longrightarrow>
    relay_trace env d p h (ProxyCall p (mon_read d) # c # cs)"

lemma relay_relayed: "relay_trace env d p (h @ relayed env d p h) cs \<Longrightarrow> relay_trace env d p h (relayed env d p h @ cs)"
  by (auto simp: relayed_def Let_def intro: relay_fail relay_pass split: if_splits)

text \<open>A turn, in any direction.\<close>

lemma mon_turn_run:
  assumes "proxies w p = Some wp"
  shows "mon_turn env d p ready pc w = (case pc of
      MonSelect \<Rightarrow> (Ok (if wp_cancelled wp then MonReturned else MonRead), w)
    | MonRead \<Rightarrow> if ready then (Ok MonSelect, w\<lparr>hist := hist w @ relayed env d p (hist w)\<rparr>) else (Ok MonRead, w)
    | MonReturned \<Rightarrow> (Ok MonReturned, w))"
  using assms
  by (cases d; cases pc)
     (auto simp: monLocalToRemoteProxy_def monRemoteToLocalProxy_def relayed_def query_def perform_def go_simps Let_def
       split: option.splits)

text \<open>The next turn of a loop: the object after it, and the program counter.\<close>

lemma mon_loop_Cons:
  assumes "proxies w p = Some wp"
  obtains w1 wp1 where "proxies w1 p = Some wp1" "hist w1 = hist w"
    "wp_cancelled wp1 \<longleftrightarrow> wp_cancelled wp \<or> cancel"
    "mon_loop env d p ((cancel, ready) # evs) pc w = bind (mon_turn env d p ready pc) (mon_loop env d p evs) w1"
    "\<not> cancel \<or> wp_cancelled wp \<Longrightarrow> w1 = w"
proof (cases cancel)
  case True
  let ?w1 = "w\<lparr>proxies := (proxies w)(p \<mapsto> wp\<lparr>wp_cancelled := True\<rparr>)\<rparr>"
  have "wp_cancelled wp \<Longrightarrow> wp\<lparr>wp_cancelled := True\<rparr> = wp" by simp
  then have "wp_cancelled wp \<Longrightarrow> ?w1 = w" using assms by (simp add: fun_upd_idem)
  then show ?thesis
    using assms True by (intro that [of ?w1 "wp\<lparr>wp_cancelled := True\<rparr>"]) (auto simp: set_proxy_def modify_def bind_def)
next
  case False
  then show ?thesis using assms by (intro that [of w wp]) (simp_all add: ret_def bind_def)
qed

lemma mon_loop_trace:
  assumes "proxies w p = Some wp"
  shows "\<exists>pc' w' cs. mon_loop env d p evs pc w = (Ok pc', w') \<and> hist w' = hist w @ cs \<and> relay_trace env d p (hist w) cs"
  using assms
proof (induction evs arbitrary: pc w wp)
  case Nil
  then show ?case by (auto simp: ret_def relay_Nil)
next
  case (Cons e evs)
  obtain c r where e: "e = (c, r)" by (cases e)
  obtain w1 wp1 where w1: "proxies w1 p = Some wp1" "hist w1 = hist w"
    and step: "mon_loop env d p (e # evs) pc w = bind (mon_turn env d p r pc) (mon_loop env d p evs) w1"
    unfolding e by (rule mon_loop_Cons [OF Cons.prems])
  show ?case
  proof (cases "pc = MonRead \<and> r")
    case True
    let ?w2 = "w1\<lparr>hist := hist w @ relayed env d p (hist w)\<rparr>"
    obtain pc' w' cs where "mon_loop env d p evs MonSelect ?w2 = (Ok pc', w')"
      "hist w' = hist w @ relayed env d p (hist w) @ cs" "relay_trace env d p (hist w @ relayed env d p (hist w)) cs"
      using Cons.IH [of ?w2 wp1 MonSelect] w1(1) by auto
    with True show ?thesis unfolding step by (auto simp: mon_turn_run [OF w1(1)] w1(2) intro: relay_relayed)
  next
    case False
    then obtain pc1 where "mon_turn env d p r pc w1 = (Ok pc1, w1)" by (cases pc) (auto simp: mon_turn_run [OF w1(1)])
    with Cons.IH [OF w1(1), of pc1] w1(2) show ?thesis unfolding step by auto
  qed
qed

text \<open>
  C15. Beside any cancellation by the rest of the program, and however long its reads block, a
  relay loop writes to the other socket exactly the data of its successful reads, each once, in
  order and unchanged, and skips the reads that fail.
\<close>
theorem mon_loop_relays:
  assumes "proxies w p \<noteq> None"
  shows "\<exists>cs. hist (snd (mon_loop env d p evs pc w)) = hist w @ cs \<and> relay_trace env d p (hist w) cs"
proof -
  obtain wp where "proxies w p = Some wp" using assms by blast
  from mon_loop_trace [OF this, of env d evs pc] show ?thesis by auto
qed

theorem mon_loop_relays_witness:
  "\<exists>cs. hist (snd (mon_loop proxy_env1 LocalToRemote 0
       [(False, False), (False, False), (False, True), (False, False), (True, True)] MonSelect proxy_world0)) = cs \<and>
     length cs = 4 \<and> relay_trace proxy_env1 LocalToRemote 0 [] cs"
proof -
  let ?evs = "[(False, False), (False, False), (False, True), (False, False), (True, True)]"
  have "length (hist (snd (mon_loop proxy_env1 LocalToRemote 0 ?evs MonSelect proxy_world0))) = 4"
    by (simp add: monLocalToRemoteProxy_def set_proxy_def query_def go_simps wp0_def)
  then show ?thesis
    using mon_loop_relays [of proxy_world0 0 proxy_env1 LocalToRemote ?evs MonSelect] by auto
qed

lemma mon_loop_returned:
  assumes "proxies w p = Some wp" "wp_cancelled wp"
  shows "mon_loop env d p evs MonReturned w = (Ok MonReturned, w)"
proof (induction evs)
  case (Cons e evs)
  obtain c r where e: "e = (c, r)" by (cases e)
  have "mon_loop env d p (e # evs) MonReturned w = bind (mon_turn env d p r MonReturned) (mon_loop env d p evs) w"
    unfolding e using assms(2) by (rule_tac mon_loop_Cons [OF assms(1), of c env d r evs MonReturned]) simp_all
  then show ?case using Cons.IH by (simp add: mon_turn_run [OF assms(1)])
qed (simp add: ret_def)

lemma mon_loop_cancelled:
  assumes "proxies w p = Some wp" "wp_cancelled wp"
  shows "mon_loop env d p ((c, r) # evs) pc w = (case pc of
      MonSelect \<Rightarrow> (Ok MonReturned, w)
    | MonRead \<Rightarrow> if r then mon_loop env d p evs MonSelect (w\<lparr>hist := hist w @ relayed env d p (hist w)\<rparr>)
        else mon_loop env d p evs MonRead w
    | MonReturned \<Rightarrow> (Ok MonReturned, w))"
proof -
  obtain w1 where "mon_loop env d p ((c, r) # evs) pc w = bind (mon_turn env d p r pc) (mon_loop env d p evs) w1" "w1 = w"
    using assms(2) by (metis mon_loop_Cons [OF assms(1)])
  then show ?thesis
    by (cases pc) (simp_all add: assms mon_turn_run [OF assms(1)] mon_loop_returned [OF assms])
qed

text \<open>
  C27. What ends a relay loop after \<open>Stop\<close>: a loop that is before its test returns in its next
  turn without a call. A loop that is in its \<open>Read\<close> is not released: it stays there as long as
  the socket has no data and no error, for ever if there is none any more, since \<open>Stop\<close> closes
  no socket and sets no deadline; when the \<open>Read\<close> ends it relays the data it got, also after the
  cancellation, makes no other call, and returns in the turn after.
\<close>
theorem mon_loop_stops:
  fixes w :: "'z proxy_world_scheme"
  assumes "proxies w p \<noteq> None" "proxy_Stop env p w = (x, w1)"
  shows "\<exists>pc' w2. mon_loop env d p evs pc w1 = (Ok pc', w2) \<and>
    (pc' = MonReturned \<longleftrightarrow> (case pc of MonSelect \<Rightarrow> evs \<noteq> [] | MonReturned \<Rightarrow> True
       | MonRead \<Rightarrow> 2 \<le> length (dropWhile (\<lambda>(cancel, ready). \<not> ready) evs))) \<and>
    hist w2 = hist w1 @ (if pc = MonRead \<and> (\<exists>cancel. (cancel, True) \<in> set evs) then relayed env d p (hist w1) else [])"
proof -
  obtain wp where "proxies w p = Some wp" using assms(1) by blast
  from proxy_Stop_cancel [OF this assms(2)] obtain wp1 where
    c: "proxies w1 p = Some wp1" "wp_cancelled wp1" by simp
  have 1: "mon_loop env d p (e # es) MonSelect u = (Ok MonReturned, u)"
    if "proxies u p = Some wp1" for e es and u :: "'z proxy_world_scheme"
    using mon_loop_cancelled [OF that c(2), of env d "fst e" "snd e" es MonSelect] by (simp del: mon_loop.simps(2))
  let ?u = "w1\<lparr>hist := hist w1 @ relayed env d p (hist w1)\<rparr>"
  show ?thesis
  proof (cases pc)
    case MonSelect
    then show ?thesis using 1 [OF c(1)] by (cases evs) (auto simp: ret_def)
  next
    case MonReturned
    then show ?thesis using mon_loop_returned [OF c, of env d evs] by simp
  next
    case MonRead
    have "\<exists>pc' w2. mon_loop env d p evs MonRead w1 = (Ok pc', w2) \<and>
        (pc' = MonReturned \<longleftrightarrow> 2 \<le> length (dropWhile (\<lambda>(cancel, ready). \<not> ready) evs)) \<and>
        hist w2 = hist w1 @ (if \<exists>cancel. (cancel, True) \<in> set evs then relayed env d p (hist w1) else [])"
    proof (induction evs)
      case (Cons e evs)
      obtain a r where e: "e = (a, r)" by (cases e)
      show ?case
      proof (cases r)
        case True
        then have "mon_loop env d p (e # evs) MonRead w1 = (Ok (if evs = [] then MonSelect else MonReturned), ?u)"
          using 1 [of ?u] c(1) by (cases evs) (auto simp: e mon_loop_cancelled [OF c] ret_def simp del: mon_loop.simps(2))
        with True show ?thesis by (auto simp: e Suc_le_eq)
      next
        case False
        with Cons.IH show ?thesis by (auto simp: e mon_loop_cancelled [OF c] simp del: mon_loop.simps(2))
      qed
    qed (auto simp: ret_def)
    with MonRead show ?thesis by simp
  qed
qed

theorem mon_loop_stops_witness:
  "\<exists>w1. proxy_Stop proxy_env1 0 proxy_world0 = (Ok (), w1) \<and>
     fst (mon_loop proxy_env1 RemoteToLocal 0 [(False, True)] MonSelect w1) = Ok MonReturned \<and>
     fst (mon_loop proxy_env1 RemoteToLocal 0 (replicate 100 (True, False)) MonRead w1) \<noteq> Ok MonReturned"
proof -
  obtain x w1 where s: "proxy_Stop proxy_env1 0 proxy_world0 = (x, w1)" by (metis surj_pair)
  with proxy_Stop_cancels [OF _ s, of wp0] have x: "x = Ok ()" by (simp add: wp0_def)
  have d: "dropWhile (\<lambda>(cancel, ready). \<not> ready) (replicate 100 (True, False)) = []" by (simp add: dropWhile_eq_Nil_conv)
  show ?thesis
    using mon_loop_stops [OF _ s, of RemoteToLocal "[(False, True)]" MonSelect]
      mon_loop_stops [OF _ s, of RemoteToLocal "replicate 100 (True, False)" MonRead] s x d by auto
qed

end
