(* ===== verification/Peer_Conn.thy ===== *)
theory Peer_Conn
  imports Wire_Proxy "HOL-Library.Char_ord" "HOL-Library.List_Lexorder"
begin

text \<open>
  \<open>rcn/conn/conn.go\<close>: one connection to a peer. Which side dials and which accepts is decided
  by comparing the two public keys. The objects \<open>Conn\<close> live in the world under a number;
  the agent is named by the number of its \<open>Ice\<close> object, a nil pointer is \<open>None\<close>.
\<close>

record Conn =
  c_agent :: "nat option"
  c_remoteConn :: bool
  c_uname :: string
  c_pwd :: string
  c_wireproxy :: "nat option"
  c_remoteWgPubKey :: string
  c_wgPubKey :: string
  c_cancelled :: bool

record conn_world = proxy_world +
  conns :: "nat \<Rightarrow> Conn option"
  next_conn :: nat

definition with_conn :: "nat \<Rightarrow> (Conn \<Rightarrow> ('z conn_world_scheme, 'a) go) \<Rightarrow> ('z conn_world_scheme, 'a) go" where
  "with_conn n f w = (case conns w n of
       None \<Rightarrow> panic ''nil pointer dereference'' w | Some c \<Rightarrow> f c w)"

definition set_conn :: "nat \<Rightarrow> (Conn \<Rightarrow> Conn) \<Rightarrow> ('z conn_world_scheme, unit) go" where
  "set_conn n f = modify (\<lambda>w. w\<lparr>conns := (conns w)(n := map_option f (conns w n))\<rparr>)"

definition NewConn :: "nat option \<Rightarrow> string \<Rightarrow> string \<Rightarrow> nat option \<Rightarrow> string \<Rightarrow> string
    \<Rightarrow> ('z conn_world_scheme, nat) go" where
  "NewConn agent uname pwd wireproxy remoteWgPubKey wgPubKey w =
     (let n = next_conn w in
      (Ok n, w\<lparr>conns := (conns w)(n \<mapsto> \<lparr>c_agent = agent, c_remoteConn = False, c_uname = uname,
          c_pwd = pwd, c_wireproxy = wireproxy, c_remoteWgPubKey = remoteWgPubKey,
          c_wgPubKey = wgPubKey, c_cancelled = False\<rparr>), next_conn := Suc n\<rparr>))"

text \<open>A method of the agent: on a nil pointer it panics.\<close>

definition agent_call :: "'e env_scheme \<Rightarrow> nat option \<Rightarrow> ice_call \<Rightarrow> ('z world_scheme, unit) go" where
  "agent_call env a c = (case a of
       None \<Rightarrow> panic ''nil pointer dereference'' | Some i \<Rightarrow> perform env (IceCall i c))"

text \<open>The same key comparison decides the role on both sides.\<close>

definition dials :: "string \<Rightarrow> string \<Rightarrow> bool" where
  "dials wgPubKey remoteWgPubKey \<longleftrightarrow> wgPubKey < remoteWgPubKey"

definition Conn_Start :: "'e proxy_env_scheme \<Rightarrow> nat \<Rightarrow> ('z conn_world_scheme, unit) go" where
  "Conn_Start env n = with_conn n (\<lambda>c.
     bind (attempt (agent_call env (c_agent c)
        (if dials (c_wgPubKey c) (c_remoteWgPubKey c) then AgentDial (c_uname c) (c_pwd c)
         else AgentAccept (c_uname c) (c_pwd c)))) (\<lambda>r.
     bind (set_conn n (\<lambda>x. x\<lparr>c_remoteConn := \<not> isl r\<rparr>)) (\<lambda>_.
     case r of
       Inl err \<Rightarrow> throw err
     | Inr _ \<Rightarrow> (case c_wireproxy c of
           None \<Rightarrow> panic ''nil pointer dereference''
         | Some p \<Rightarrow> StartProxy env p))))"

definition Conn_Close :: "'e env_scheme \<Rightarrow> nat \<Rightarrow> ('z conn_world_scheme, unit) go" where
  "Conn_Close env n = with_lock (''Conn.mu'', n) (with_conn n (\<lambda>c.
     case c_wireproxy c of
       None \<Rightarrow> ret ()
     | Some p \<Rightarrow> bind (proxy_Stop env p) (\<lambda>_. set_conn n (\<lambda>x. x\<lparr>c_cancelled := True\<rparr>))))"

section \<open>Lemmas\<close>

lemma keeps_with_conn [keeps_intros]: "(\<And>c. keeps I (f c)) \<Longrightarrow> keeps I (with_conn n f)"
  unfolding keeps_def with_conn_def by (simp add: go_simps split: option.splits)

lemma keeps_set_conn:
  "(\<And>w cs. I w \<Longrightarrow> I (w\<lparr>conns := cs\<rparr>)) \<Longrightarrow> keeps I (set_conn n f)"
  by (simp add: set_conn_def keeps_modify)

lemma keeps_agent_call [keeps_intros]:
  "(\<And>c. keeps I (perform env c)) \<Longrightarrow> keeps I (agent_call env a c)"
  by (simp add: agent_call_def keeps_intros)

locale conn_keeps = proxy_keeps env I
  for env :: "'e proxy_env_scheme" and I :: "'z conn_world_scheme \<Rightarrow> bool" +
  assumes conn_objects: "I w \<Longrightarrow> I (w\<lparr>conns := cs\<rparr>)"
    and conn_locks: "lock_free (''Conn.mu'', n) I"
begin

lemma keeps_Conn_Start: "keeps I (Conn_Start env n)"
  by (auto simp: Conn_Start_def intro!: keeps_intros calls keeps_StartProxy keeps_set_conn conn_objects)

lemma keeps_Conn_Close: "keeps I (Conn_Close env n)"
  unfolding Conn_Close_def
  by (intro keeps_with_lock keeps_intros keeps_Stop keeps_set_conn conn_objects conn_locks)

end

lemma conn_mu_neq [simp]: "(''Conn.mu'', n) \<noteq> conn_mu"
  by (simp add: conn_mu_def)

interpretation cn_ext: conn_keeps env "extends h" for env h
  by unfold_locales (simp_all add: extends_def)

interpretation cn_ok: conn_keeps env conn_ok for env
  by unfold_locales (simp_all add: lock_free_conn_ok, simp add: conn_ok_def conn_inv_def)

section \<open>Properties\<close>

lemma Conn_Start_first_call:
  fixes w :: "'z conn_world_scheme"
  assumes "conns w n = Some c" "c_agent c = Some i"
  shows "\<exists>cs. hist (snd (Conn_Start env n w)) = hist w @ IceCall i
    (if dials (c_wgPubKey c) (c_remoteWgPubKey c) then AgentDial (c_uname c) (c_pwd c)
     else AgentAccept (c_uname c) (c_pwd c)) # cs"
proof -
  let ?c = "IceCall i (if dials (c_wgPubKey c) (c_remoteWgPubKey c) then AgentDial (c_uname c) (c_pwd c)
     else AgentAccept (c_uname c) (c_pwd c))"
  let ?w1 = "w\<lparr>hist := hist w @ [?c]\<rparr>"
  define rest :: "err + unit \<Rightarrow> ('z conn_world_scheme, unit) go" where "rest r = bind (set_conn n (\<lambda>x. x\<lparr>c_remoteConn := \<not> isl r\<rparr>)) (\<lambda>_.
     case r of
       Inl err \<Rightarrow> throw err
     | Inr _ \<Rightarrow> (case c_wireproxy c of
           None \<Rightarrow> panic ''nil pointer dereference''
         | Some p \<Rightarrow> StartProxy env p))" for r
  have "keeps (extends (hist ?w1)) (rest r)" for r
    by (auto simp: rest_def intro!: keeps_intros wp_ext.keeps_StartProxy keeps_set_conn simp: extends_def)
  then have "extends (hist ?w1) (snd (rest r ?w1))" for r by (rule keepsD) (simp add: extends_def)
  moreover have "Conn_Start env n w = rest (case err_of env (hist ?w1) of None \<Rightarrow> Inr () | Some e \<Rightarrow> Inl e) ?w1"
  proof -
    have "Conn_Start env n w = bind (attempt (agent_call env (c_agent c)
        (if dials (c_wgPubKey c) (c_remoteWgPubKey c) then AgentDial (c_uname c) (c_pwd c)
         else AgentAccept (c_uname c) (c_pwd c)))) rest w"
      using assms(1) by (simp add: Conn_Start_def with_conn_def rest_def [abs_def])
    moreover have "attempt (agent_call env (c_agent c)
        (if dials (c_wgPubKey c) (c_remoteWgPubKey c) then AgentDial (c_uname c) (c_pwd c)
         else AgentAccept (c_uname c) (c_pwd c))) w =
        (Ok (case err_of env (hist ?w1) of None \<Rightarrow> Inr () | Some e \<Rightarrow> Inl e), ?w1)"
      using assms(2) by (simp add: agent_call_def attempt_def perform_def Let_def split: option.splits)
    ultimately show ?thesis by simp
  qed
  ultimately show ?thesis by (auto simp: extends_def)
qed

text \<open>
  C11. Two nodes that hold each other's public key take different roles: when they start their
  connections, the first thing exactly one of them does is to dial, and the other accepts.
\<close>
theorem one_side_dials:
  assumes "conns w n = Some c" "c_agent c = Some i" "conns w' m = Some d" "c_agent d = Some j"
    "c_wgPubKey c = c_remoteWgPubKey d" "c_wgPubKey d = c_remoteWgPubKey c" "c_wgPubKey c \<noteq> c_wgPubKey d"
  shows "hist (snd (Conn_Start env n w)) ! length (hist w) = IceCall i (AgentDial (c_uname c) (c_pwd c)) \<and>
      hist (snd (Conn_Start env' m w')) ! length (hist w') = IceCall j (AgentAccept (c_uname d) (c_pwd d)) \<or>
    hist (snd (Conn_Start env n w)) ! length (hist w) = IceCall i (AgentAccept (c_uname c) (c_pwd c)) \<and>
      hist (snd (Conn_Start env' m w')) ! length (hist w') = IceCall j (AgentDial (c_uname d) (c_pwd d))"
proof -
  have "dials (c_wgPubKey c) (c_remoteWgPubKey c) \<noteq> dials (c_wgPubKey d) (c_remoteWgPubKey d)"
    using assms(5-7) by (auto simp: dials_def)
  then show ?thesis
    using Conn_Start_first_call [OF assms(1,2), of env] Conn_Start_first_call [OF assms(3,4), of env']
    by (auto split: if_splits)
qed

definition conn0 :: "string \<Rightarrow> string \<Rightarrow> Conn" where
  "conn0 mine theirs = \<lparr>c_agent = Some 0, c_remoteConn = False, c_uname = ''u'', c_pwd = ''p'',
     c_wireproxy = Some 0, c_remoteWgPubKey = theirs, c_wgPubKey = mine, c_cancelled = False\<rparr>"

definition conn_world1 :: "string \<Rightarrow> string \<Rightarrow> conn_world" where
  "conn_world1 mine theirs = proxy_world.extend proxy_world0 \<lparr>conns = [0 \<mapsto> conn0 mine theirs], next_conn = 1\<rparr>"

lemma conn_world1_simps [simp]:
  "conns (conn_world1 a b) = [0 \<mapsto> conn0 a b]" "hist (conn_world1 a b) = []"
  "proxies (conn_world1 a b) = [0 \<mapsto> wp0]" "held (conn_world1 a b) = {}"
  by (simp_all add: conn_world1_def proxy_world.defs proxy_world0_def signal_world.defs
      conn_world0_def NewConnectedState_def)

theorem one_side_dials_witness:
  "\<exists>a b. a \<noteq> b \<and> hist (snd (Conn_Start proxy_env1 0 (conn_world1 ''ka'' ''kb''))) ! 0 = IceCall 0 a \<and>
     hist (snd (Conn_Start proxy_env1 0 (conn_world1 ''kb'' ''ka''))) ! 0 = IceCall 0 b"
  using one_side_dials [of "conn_world1 ''ka'' ''kb''" 0 "conn0 ''ka'' ''kb''" 0
      "conn_world1 ''kb'' ''ka''" 0 "conn0 ''kb'' ''ka''" 0 proxy_env1 proxy_env1]
  by (auto simp: conn0_def)

text \<open>
  Closing a connection cancels the relay loops of its proxy whatever happens after, and
  releases the mutex of the connection; the connection itself is only cancelled when the
  device has removed the peer.
\<close>
theorem Conn_Close_cancels:
  fixes w :: "'z conn_world_scheme"
  assumes "conns w n = Some c" "c_wireproxy c = Some p" "proxies w p = Some wp"
    "(''Conn.mu'', n) \<notin> held w" "Conn_Close env n w = (r, w')"
  shows "proxies w' p = Some (wp\<lparr>wp_cancelled := True\<rparr>) \<and> held w' = held w \<and>
    conns w' n = Some (if r = Ok () then c\<lparr>c_cancelled := True\<rparr> else c)"
proof -
  define w1 where "w1 = w\<lparr>held := insert (''Conn.mu'', n) (held w)\<rparr>"
  obtain r2 w2 where stop: "proxy_Stop env p w1 = (r2, w2)" by (metis surj_pair)
  have p: "proxies w2 p = Some (wp\<lparr>wp_cancelled := True\<rparr>)"
    using proxy_Stop_cancel [OF _ stop, of wp] assms(3) by (simp add: w1_def)
  have k: "keeps (\<lambda>v. held v = held w1 \<and> conns v = conns w1) (proxy_Stop env p)"
    unfolding proxy_Stop_def RemoveRemotePeer_def configureDevice_def
    by (intro keeps_intros keeps_set_proxy keeps_perform) simp_all
  have same: "held w2 = held w1 \<and> conns w2 = conns w1"
    by (rule keeps_run [OF k stop]) simp
  have stuck: "r2 \<noteq> Stuck"
    using stop assms(3) by (auto simp: proxy_Stop_def set_proxy_def go_simps RemoveRemotePeer_def ParseKey_def
        configureDevice_run Let_def w1_def split: if_splits sum.splits option.splits)
  define m :: "('z conn_world_scheme, unit) go" where "m = with_conn n (\<lambda>c. case c_wireproxy c of None \<Rightarrow> ret ()
     | Some p \<Rightarrow> bind (proxy_Stop env p) (\<lambda>_. set_conn n (\<lambda>x. x\<lparr>c_cancelled := True\<rparr>)))"
  have c1: "conns w1 n = Some c" using assms(1) by (simp add: w1_def)
  have m: "m w1 = (case r2 of
      Ok _ \<Rightarrow> (Ok (), w2\<lparr>conns := (conns w2)(n := map_option (\<lambda>x. x\<lparr>c_cancelled := True\<rparr>) (conns w2 n))\<rparr>)
    | Err e \<Rightarrow> (Err e, w2) | Panic s \<Rightarrow> (Panic s, w2) | Stuck \<Rightarrow> (Stuck, w2))"
    using c1 assms(2) stop by (cases r2) (simp_all add: m_def with_conn_def set_conn_def modify_def)
  have "Conn_Close env n w = (case m w1 of (Stuck, w') \<Rightarrow> (Stuck, w')
      | (r, w') \<Rightarrow> (r, w'\<lparr>held := held w' - {(''Conn.mu'', n)}\<rparr>))"
    using assms(4) by (simp add: Conn_Close_def m_def with_lock_def w1_def)
  with assms(5) m stuck have "(r, w') = (case r2 of
      Ok _ \<Rightarrow> (Ok (), w2\<lparr>conns := (conns w2)(n := map_option (\<lambda>x. x\<lparr>c_cancelled := True\<rparr>) (conns w2 n)),
        held := held w2 - {(''Conn.mu'', n)}\<rparr>)
    | Err e \<Rightarrow> (Err e, w2\<lparr>held := held w2 - {(''Conn.mu'', n)}\<rparr>)
    | Panic s \<Rightarrow> (Panic s, w2\<lparr>held := held w2 - {(''Conn.mu'', n)}\<rparr>) | Stuck \<Rightarrow> (Stuck, w2))"
    by (cases r2) auto
  with p same stuck assms(1,4) show ?thesis
    by (cases r2) (auto simp: w1_def)
qed

theorem Conn_Close_cancels_witness:
  "\<exists>r w'. Conn_Close proxy_env1 0 (conn_world1 ''a'' ''b'') = (r, w') \<and>
     proxies w' 0 = Some (wp0\<lparr>wp_cancelled := True\<rparr>) \<and> held w' = {}"
proof -
  obtain r w' where r: "Conn_Close proxy_env1 0 (conn_world1 ''a'' ''b'') = (r, w')" by (metis surj_pair)
  with Conn_Close_cancels [OF _ _ _ _ r, of "conn0 ''a'' ''b''" 0 wp0] show ?thesis
    by (auto simp: conn0_def)
qed

end
