(* ===== verification/Ice.thy ===== *)
theory Ice
  imports Peer_Conn
begin

text \<open>
  \<open>rcn/webrtc\<close>: the negotiation with one peer (\<open>ice.go\<close>), the sender of its signals
  (\<open>sig_executer.go\<close>), the credentials and the servers it uses (\<open>credential.go\<close>,
  \<open>stun_turn.go\<close>). The objects \<open>Ice\<close> live in the world under a number. The two channels
  are unbuffered and sent to without blocking, so a message arrives only while the
  goroutine of the object waits for one (\<open>i_waiting\<close>), and is then in \<open>i_inbox\<close>.
\<close>

section \<open>The object\<close>

record Credentials =
  UserName :: string
  creds_Pwd :: string

record StunTurnConfig =
  Stun :: "ice_url option"
  Turn :: "ice_url option"

datatype signal_kind = AnswerKind | OfferKind

record SigExecuter =
  dstmk :: string
  srcmk :: string

record Ice =
  i_sigexec :: "SigExecuter option"
  i_conn :: "nat option"
  i_wireproxy :: "nat option"
  i_agent :: bool
  i_udpMux :: bool
  i_udpMuxSrflx :: bool
  i_udpMuxConn :: bool
  i_udpMuxConnSrflx :: bool
  i_stunTurn :: "StunTurnConfig option"
  i_remoteWgPubKey :: string
  i_remoteIp :: string
  i_remoteNodeKey :: string
  i_wgPubKey :: string
  i_wgPrivKey :: key
  i_wgIface :: string
  i_wgPort :: nat
  i_preSharedKey :: string
  i_ip :: string
  i_cidr :: string
  i_nk :: string
  i_blackList :: "string list option"
  i_waiting :: bool
  i_inbox :: "(signal_kind \<times> Credentials) option"

record ice_world = conn_world +
  ices :: "nat \<Rightarrow> Ice option"
  next_ice :: nat

record ice_env = proxy_env +
  creds_of :: "call list \<Rightarrow> string \<times> string"
  parse_url :: "string \<Rightarrow> err + ice_url"
  unmarshal_candidate :: "string \<Rightarrow> err + string"

definition with_ice :: "nat \<Rightarrow> (Ice \<Rightarrow> ('z ice_world_scheme, 'a) go) \<Rightarrow> ('z ice_world_scheme, 'a) go" where
  "with_ice n f w = (case ices w n of
       None \<Rightarrow> panic ''nil pointer dereference'' w | Some i \<Rightarrow> f i w)"

definition set_ice :: "nat \<Rightarrow> (Ice \<Rightarrow> Ice) \<Rightarrow> ('z ice_world_scheme, unit) go" where
  "set_ice n f = modify (\<lambda>w. w\<lparr>ices := (ices w)(n := map_option f (ices w n))\<rparr>)"

definition ice_mu :: "nat \<Rightarrow> mutex" where "ice_mu n = (''Ice.mu'', n)"

definition NewIce :: "'e env_scheme \<Rightarrow> string \<Rightarrow> string \<Rightarrow> string \<Rightarrow> string \<Rightarrow> string \<Rightarrow> key \<Rightarrow> nat
    \<Rightarrow> string \<Rightarrow> string \<Rightarrow> string \<Rightarrow> StunTurnConfig option \<Rightarrow> string list option \<Rightarrow> ('z ice_world_scheme, nat) go" where
  "NewIce env remoteWgPubKey remoteip remoteNodeKey ip cidr wgPrivateKey wgPort wgIface presharedKey
     nk stunTurn blacklist w =
     (let n = next_ice w in
      (Ok n, w\<lparr>ices := (ices w)(n \<mapsto> \<lparr>i_sigexec = None, i_conn = None, i_wireproxy = None,
          i_agent = False, i_udpMux = False, i_udpMuxSrflx = False, i_udpMuxConn = False,
          i_udpMuxConnSrflx = False, i_stunTurn = stunTurn, i_remoteWgPubKey = remoteWgPubKey,
          i_remoteIp = remoteip, i_remoteNodeKey = remoteNodeKey,
          i_wgPubKey = key_string env (public_key env wgPrivateKey), i_wgPrivKey = wgPrivateKey,
          i_wgIface = wgIface, i_wgPort = wgPort, i_preSharedKey = presharedKey, i_ip = ip,
          i_cidr = cidr, i_nk = nk, i_blackList = blacklist, i_waiting = False, i_inbox = None\<rparr>),
        next_ice := Suc n\<rparr>))"

section \<open>The signals\<close>

definition SigExecuter_Candidate :: "nat \<Rightarrow> string option \<Rightarrow> ('z world_scheme, unit) go" where
  "SigExecuter_Candidate n candidate = (case candidate of
       None \<Rightarrow> ret () | Some c \<Rightarrow> spawn (SendCandidate n c))"

definition SigExecuter_send :: "'w SignalClientImpl \<Rightarrow> SigExecuter \<Rightarrow> string \<Rightarrow> ('w, unit) go" where
  "SigExecuter_send sc s candidate = ignore (sc_Candidate sc (dstmk s) (srcmk s) candidate)"

definition SigExecuter_Offer :: "'w SignalClientImpl \<Rightarrow> SigExecuter option \<Rightarrow> string \<Rightarrow> string \<Rightarrow> ('w, unit) go" where
  "SigExecuter_Offer sc s uFlag pwd = (case s of
       None \<Rightarrow> panic ''nil pointer dereference''
     | Some s \<Rightarrow> sc_Offer sc (dstmk s) (srcmk s) uFlag pwd)"

definition SigExecuter_Answer :: "'w SignalClientImpl \<Rightarrow> SigExecuter option \<Rightarrow> string \<Rightarrow> string \<Rightarrow> ('w, unit) go" where
  "SigExecuter_Answer sc s uFlag pwd = (case s of
       None \<Rightarrow> panic ''nil pointer dereference''
     | Some s \<Rightarrow> sc_Answer sc (dstmk s) (srcmk s) uFlag pwd)"

section \<open>Setting the agent up\<close>

definition GetStunTurnsURL :: "StunTurnConfig option \<Rightarrow> ('w, ice_url option list) go" where
  "GetStunTurnsURL s = (case s of
       None \<Rightarrow> panic ''nil pointer dereference'' | Some s \<Rightarrow> ret [Stun s, Turn s])"

text \<open>\<open>getBlackListWithInterfaceFilter\<close>: the filter the agent calls with the name of an interface.\<close>

definition getBlackListWithInterfaceFilter :: "Ice \<Rightarrow> string \<Rightarrow> bool" where
  "getBlackListWithInterfaceFilter i iFace =
     (let blackListMap = (case i_blackList i of None \<Rightarrow> {} | Some xs \<Rightarrow> set xs)
      in if blackListMap = {} then True else iFace \<notin> blackListMap)"

text \<open>The error of the two \<open>ListenUDP\<close> is overwritten before it is looked at.\<close>

definition Ice_Setup :: "'e ice_env_scheme \<Rightarrow> nat \<Rightarrow> ('z ice_world_scheme, unit) go" where
  "Ice_Setup env n = with_ice n (\<lambda>_. with_lock (ice_mu n) (with_ice n (\<lambda>i.
     bind (set_ice n (\<lambda>x. x\<lparr>i_sigexec := Some \<lparr>dstmk = i_remoteNodeKey i, srcmk = i_nk i\<rparr>\<rparr>)) (\<lambda>_.
     bind (attempt (perform env (IceCall n (ListenUDP UdpMuxConn)))) (\<lambda>r1.
     bind (set_ice n (\<lambda>x. x\<lparr>i_udpMuxConn := \<not> isl r1\<rparr>)) (\<lambda>_.
     bind (attempt (perform env (IceCall n (ListenUDP UdpMuxConnSrflx)))) (\<lambda>r2.
     bind (set_ice n (\<lambda>x. x\<lparr>i_udpMuxConnSrflx := \<not> isl r2, i_udpMux := True, i_udpMuxSrflx := True\<rparr>)) (\<lambda>_.
     bind (GetStunTurnsURL (i_stunTurn i)) (\<lambda>urls.
     bind (attempt (perform env (IceCall n (NewAgent urls (case i_blackList i of None \<Rightarrow> [] | Some xs \<Rightarrow> xs))))) (\<lambda>r3.
     bind (set_ice n (\<lambda>x. x\<lparr>i_agent := \<not> isl r3\<rparr>)) (\<lambda>_.
     case r3 of
       Inl err \<Rightarrow> throw err
     | Inr _ \<Rightarrow>
         bind (perform env (IceCall n OnCandidate)) (\<lambda>_.
         bind (perform env (IceCall n OnConnectionStateChange)) (\<lambda>_.
         bind (perform env (IceCall n OnSelectedCandidatePairChange)) (\<lambda>_.
         bind (NewWireProxy \<lparr>Tun = i_wgIface i, WgPrivateKey = key_string env (i_wgPrivKey i),
                 IP = i_ip i, CIDR = i_cidr i\<rparr>
               (i_remoteWgPubKey i) (i_remoteIp i) (i_wgIface i)
               (''127.0.0.1:'' @ Itoa (i_wgPort i)) (i_preSharedKey i) n) (\<lambda>p.
         set_ice n (\<lambda>x. x\<lparr>i_wireproxy := Some p\<rparr>))))))))))))))))"

section \<open>What the agent reports\<close>

datatype ConnectionState =
    ConnectionStateNew | ConnectionStateChecking | ConnectionStateConnected | ConnectionStateCompleted
  | ConnectionStateFailed | ConnectionStateDisconnected | ConnectionStateClosed | ConnectionStateUnknown

definition IceConnectionHasBeenChanged :: "'w SignalClientImpl \<Rightarrow> ConnectionState \<Rightarrow> ('w, unit) go" where
  "IceConnectionHasBeenChanged sc state = (case state of
       ConnectionStateCompleted \<Rightarrow> ignore (sc_Connected sc)
     | ConnectionStateFailed \<Rightarrow> ignore (sc_DisConnected sc)
     | ConnectionStateDisconnected \<Rightarrow> ignore (sc_DisConnected sc)
     | _ \<Rightarrow> ret ())"

section \<open>Closing\<close>

text \<open>Closing a resource: a nil pointer panics, but for a nil \<open>*net.UDPConn\<close>, whose \<open>Close\<close>
  returns an error.\<close>

definition close_resource :: "'e env_scheme \<Rightarrow> nat \<Rightarrow> resource \<Rightarrow> bool \<Rightarrow> ('z world_scheme, unit) go" where
  "close_resource env n r present =
     (if present then perform env (IceCall n (CloseResource r))
      else if r = UdpMuxConn \<or> r = UdpMuxConnSrflx then throw (ErrNew ''invalid argument'')
      else panic ''nil pointer dereference'')"

definition closeIceAgent :: "'e env_scheme \<Rightarrow> ('z ice_world_scheme) SignalClientImpl \<Rightarrow> nat
    \<Rightarrow> ('z ice_world_scheme, unit) go" where
  "closeIceAgent env sc n = with_ice n (\<lambda>_. with_lock (ice_mu n) (with_ice n (\<lambda>i.
     bind (close_resource env n UdpMux (i_udpMux i)) (\<lambda>_.
     bind (close_resource env n UdpMuxSrflx (i_udpMuxSrflx i)) (\<lambda>_.
     bind (close_resource env n UdpMuxConn (i_udpMuxConn i)) (\<lambda>_.
     bind (close_resource env n UdpMuxConnSrflx (i_udpMuxConnSrflx i)) (\<lambda>_.
     bind (close_resource env n Agent (i_agent i)) (\<lambda>_.
     ignore (sc_DisConnected sc)))))))))"

definition CloseIce :: "'e env_scheme \<Rightarrow> ('z ice_world_scheme) SignalClientImpl \<Rightarrow> nat
    \<Rightarrow> ('z ice_world_scheme, unit) go" where
  "CloseIce env sc n = bind (closeIceAgent env sc n) (\<lambda>_. ret ())"

definition CloseConn :: "'e env_scheme \<Rightarrow> nat \<Rightarrow> ('z ice_world_scheme, unit) go" where
  "CloseConn env n = with_ice n (\<lambda>i. case i_conn i of None \<Rightarrow> ret () | Some c \<Rightarrow> Conn_Close env c)"

definition Cleanup :: "'e env_scheme \<Rightarrow> ('z ice_world_scheme) SignalClientImpl \<Rightarrow> nat
    \<Rightarrow> ('z ice_world_scheme, unit) go" where
  "Cleanup env sc n = with_ice n (\<lambda>i.
     bind (case i_conn i of None \<Rightarrow> ret () | Some c \<Rightarrow> Conn_Close env c) (\<lambda>_.
     CloseIce env sc n))"

section \<open>Offers and answers\<close>

definition getLocalUserIceAgentCredentials :: "'e ice_env_scheme \<Rightarrow> nat \<Rightarrow> ('z ice_world_scheme, string \<times> string) go" where
  "getLocalUserIceAgentCredentials env n = with_ice n (\<lambda>i.
     bind (agent_call env (if i_agent i then Some n else None) GetLocalUserCredentials) (\<lambda>_.
     gets (\<lambda>w. creds_of env (hist w))))"

definition signalAnswer :: "'e ice_env_scheme \<Rightarrow> ('z ice_world_scheme) SignalClientImpl \<Rightarrow> nat
    \<Rightarrow> ('z ice_world_scheme, unit) go" where
  "signalAnswer env sc n = with_lock (ice_mu n)
     (bind (getLocalUserIceAgentCredentials env n) (\<lambda>(uname, pwd).
      with_ice n (\<lambda>i. SigExecuter_Answer sc (i_sigexec i) uname pwd)))"

definition signalOffer :: "'e ice_env_scheme \<Rightarrow> ('z ice_world_scheme) SignalClientImpl \<Rightarrow> nat
    \<Rightarrow> ('z ice_world_scheme, unit) go" where
  "signalOffer env sc n = with_lock (ice_mu n)
     (bind (getLocalUserIceAgentCredentials env n) (\<lambda>(uname, pwd).
      with_ice n (\<lambda>i. SigExecuter_Offer sc (i_sigexec i) uname pwd)))"

definition StartGatheringProcess :: "'e ice_env_scheme \<Rightarrow> ('z ice_world_scheme) SignalClientImpl \<Rightarrow> nat
    \<Rightarrow> ('z ice_world_scheme, unit) go" where
  "StartGatheringProcess env sc n =
     bind (spawn (WaitingRemotePeer n)) (\<lambda>_. signalOffer env sc n)"

text \<open>The sends to the channels, from the goroutine that receives signals.\<close>

definition SendRemoteCh :: "signal_kind \<Rightarrow> nat \<Rightarrow> string \<Rightarrow> string \<Rightarrow> ('z ice_world_scheme, unit) go" where
  "SendRemoteCh k n uname pwd = with_ice n (\<lambda>i.
     if i_waiting i then set_ice n (\<lambda>x. x\<lparr>i_waiting := False,
        i_inbox := Some (k, \<lparr>UserName = uname, creds_Pwd = pwd\<rparr>)\<rparr>)
     else ret ())"

definition SendRemoteOfferCh :: "nat \<Rightarrow> string \<Rightarrow> string \<Rightarrow> ('z ice_world_scheme, unit) go" where
  "SendRemoteOfferCh = SendRemoteCh OfferKind"

definition SendRemoteAnswerCh :: "nat \<Rightarrow> string \<Rightarrow> string \<Rightarrow> ('z ice_world_scheme, unit) go" where
  "SendRemoteAnswerCh = SendRemoteCh AnswerKind"

text \<open>The goroutine of \<open>SendRemoteCandidate\<close>.\<close>

definition SendRemoteCandidate :: "nat option \<Rightarrow> string \<Rightarrow> ('z world_scheme, unit) go" where
  "SendRemoteCandidate n candidate =
     spawn (case n of Some n \<Rightarrow> AddCandidate n candidate | None \<Rightarrow> AddCandidateNil candidate)"

definition AddCandidate_body :: "'e env_scheme \<Rightarrow> nat \<Rightarrow> string \<Rightarrow> ('z ice_world_scheme, unit) go" where
  "AddCandidate_body env n candidate = with_ice n (\<lambda>_. with_lock (ice_mu n) (with_ice n (\<lambda>i.
     if \<not> i_agent i then ret ()
     else ignore (perform env (IceCall n (AddRemoteCandidate candidate))))))"

section \<open>The goroutine that waits for the peer\<close>

definition startConn :: "'e proxy_env_scheme \<Rightarrow> nat \<Rightarrow> string \<Rightarrow> string \<Rightarrow> ('z ice_world_scheme, unit) go" where
  "startConn env n uname pwd = with_ice n (\<lambda>i.
     bind (NewConn (if i_agent i then Some n else None) uname pwd (i_wireproxy i)
             (i_remoteWgPubKey i) (i_wgPubKey i)) (\<lambda>c.
     bind (set_ice n (\<lambda>x. x\<lparr>i_conn := Some c\<rparr>)) (\<lambda>_.
     Conn_Start env c)))"

text \<open>The goroutine at its \<open>select\<close>, and the rest of a turn after a message.\<close>

definition waiting_enter :: "nat \<Rightarrow> ('z ice_world_scheme, unit) go" where
  "waiting_enter n = set_ice n (\<lambda>x. x\<lparr>i_waiting := True\<rparr>)"

definition waiting_turn :: "'e ice_env_scheme \<Rightarrow> ('z ice_world_scheme) SignalClientImpl
    \<Rightarrow> ('z ice_world_scheme) ServerClientImpl \<Rightarrow> nat \<Rightarrow> ('z ice_world_scheme, unit) go" where
  "waiting_turn env sc sv n = with_ice n (\<lambda>i. case i_inbox i of
       None \<Rightarrow> stuck
     | Some (k, credentials) \<Rightarrow>
         bind (set_ice n (\<lambda>x. x\<lparr>i_inbox := None\<rparr>)) (\<lambda>_.
         bind (case k of AnswerKind \<Rightarrow> ret () | OfferKind \<Rightarrow> signalAnswer env sc n) (\<lambda>_.
         bind (with_ice n (\<lambda>i. agent_call env (if i_agent i then Some n else None) GatherCandidates)) (\<lambda>_.
         bind (startConn env n (UserName credentials) (creds_Pwd credentials)) (\<lambda>_.
         bind (sv_Connect sv (i_nk i)) (\<lambda>_.
         waiting_enter n))))))"

section \<open>Lemmas\<close>

lemma with_ice_Some [simp]: "ices w n = Some i \<Longrightarrow> with_ice n f w = f i w"
  by (simp add: with_ice_def)

lemma keeps_with_ice [keeps_intros]: "(\<And>i. keeps I (f i)) \<Longrightarrow> keeps I (with_ice n f)"
  unfolding keeps_def with_ice_def by (simp add: go_simps split: option.splits)

text \<open>An update of a peer's object that does not change whose peer it is.\<close>

definition same_peer :: "(Ice \<Rightarrow> Ice) \<Rightarrow> bool" where
  "same_peer f \<longleftrightarrow> (\<forall>i. i_remoteNodeKey (f i) = i_remoteNodeKey i \<and> i_nk (f i) = i_nk i)"

lemma keeps_set_ice:
  "(\<And>w. I w \<Longrightarrow> I (w\<lparr>ices := (ices w)(n := map_option f (ices w n))\<rparr>)) \<Longrightarrow> keeps I (set_ice n f)"
  by (simp add: set_ice_def keeps_modify)

lemma keeps_close_resource [keeps_intros]:
  "(\<And>c. keeps I (perform env c)) \<Longrightarrow> keeps I (close_resource env n r b)"
  by (simp add: close_resource_def keeps_intros)

lemma keeps_GetStunTurnsURL [keeps_intros]: "keeps I (GetStunTurnsURL s)"
  by (simp add: GetStunTurnsURL_def keeps_intros split: option.splits)

text \<open>The client side of the two interfaces: every operation of a peer keeps what the methods
  keep, and the reports of the agent set the status as the methods promise.\<close>

locale ice_keeps =
  conn_keeps env I + signal_client sc I st + server_client sv I
  for env :: "'e ice_env_scheme" and I :: "'z ice_world_scheme \<Rightarrow> bool" and sc and st and sv +
  assumes ice_objects: "I w \<Longrightarrow> same_peer f \<Longrightarrow> I (w\<lparr>ices := (ices w)(n := map_option f (ices w n))\<rparr>)"
    and ice_locks: "lock_free (ice_mu n) I"
    and new_ids: "I w \<Longrightarrow> I (w\<lparr>next_proxy := k\<rparr>)" "I w \<Longrightarrow> I (w\<lparr>next_conn := k\<rparr>)"
begin

lemma keeps_same: "same_peer f \<Longrightarrow> keeps I (set_ice n f)"
  by (rule keeps_set_ice) (rule ice_objects)

lemma keeps_NewWireProxy: "keeps I (NewWireProxy a b c d e f g)"
  by (rule keepsI) (simp add: NewWireProxy_def Let_def objects new_ids)

lemma keeps_NewConn: "keeps I (NewConn a b c d e f)"
  by (rule keepsI) (simp add: NewConn_def Let_def conn_objects new_ids)

lemmas keeps_parts = keeps_intros keeps_with_lock calls spawns ice_locks
  keeps_NewWireProxy keeps_NewConn keeps_Conn_Start keeps_Conn_Close keeps_client keeps_server
  keeps_same

lemma keeps_Ice_Setup: "keeps I (Ice_Setup env n)"
  unfolding Ice_Setup_def by (intro keeps_parts; simp add: same_peer_def)

lemma keeps_closeIceAgent: "keeps I (closeIceAgent env sc n)"
  unfolding closeIceAgent_def by (intro keeps_parts; simp add: same_peer_def)

lemma keeps_Cleanup: "keeps I (Cleanup env sc n)"
  unfolding Cleanup_def CloseIce_def by (intro keeps_parts keeps_closeIceAgent)

lemma keeps_SigExecuter: "keeps I (SigExecuter_Offer sc s u p)" "keeps I (SigExecuter_Answer sc s u p)"
  by (cases s; simp add: SigExecuter_Offer_def SigExecuter_Answer_def keeps_parts)+

lemma keeps_credentials: "keeps I (getLocalUserIceAgentCredentials env n)"
  unfolding getLocalUserIceAgentCredentials_def by (intro keeps_parts; simp add: same_peer_def)

lemma keeps_signalOffer: "keeps I (signalOffer env sc n)"
  unfolding signalOffer_def by (intro keeps_parts keeps_credentials keeps_SigExecuter)

lemma keeps_signalAnswer: "keeps I (signalAnswer env sc n)"
  unfolding signalAnswer_def by (intro keeps_parts keeps_credentials keeps_SigExecuter)

lemma keeps_StartGatheringProcess: "keeps I (StartGatheringProcess env sc n)"
  unfolding StartGatheringProcess_def by (intro keeps_parts keeps_signalOffer)

lemma keeps_SendRemoteCh: "keeps I (SendRemoteCh k n u p)"
  unfolding SendRemoteCh_def by (intro keeps_parts; simp add: same_peer_def)

lemma keeps_waiting_turn: "keeps I (waiting_turn env sc sv n)"
proof -
  have "keeps I (startConn env n u p)" for u p
    unfolding startConn_def by (intro keeps_parts; simp add: same_peer_def)
  moreover have "keeps I (waiting_enter n)" unfolding waiting_enter_def by (intro keeps_parts; simp add: same_peer_def)
  moreover have "keeps I (case k of AnswerKind \<Rightarrow> ret () | OfferKind \<Rightarrow> signalAnswer env sc n)" for k
    by (cases k) (simp_all add: keeps_ret keeps_signalAnswer)
  ultimately show ?thesis unfolding waiting_turn_def by (intro keeps_parts; simp add: same_peer_def)
qed

lemma reported_status:
  assumes "I w"
  shows "\<exists>w'. IceConnectionHasBeenChanged sc state w = (Ok (), w') \<and> I w' \<and>
    st w' = (case state of ConnectionStateCompleted \<Rightarrow> Connect
      | ConnectionStateFailed \<Rightarrow> DisConnect | ConnectionStateDisconnected \<Rightarrow> DisConnect
      | _ \<Rightarrow> st w)"
  using assms Connected_sets [of w] DisConnected_sets [of w]
  by (cases state) (auto simp: IceConnectionHasBeenChanged_def go_simps)

end

lemma ice_mu_neq [simp]: "ice_mu n \<noteq> conn_mu"
  by (simp add: conn_mu_def ice_mu_def)

interpretation sv_ok: server_client "NewServerClient env sys" conn_ok for env sys
  by (rule server_client_calls) (rule keeps_intros)

interpretation ice_ok: ice_keeps env conn_ok "NewSignalClient env sys" State "NewServerClient env sys" for env sys
  by unfold_locales (simp_all add: lock_free_conn_ok, simp_all add: conn_ok_def conn_inv_def)

section \<open>Properties\<close>

text \<open>
  C18. The reports of the agent drive the status of the client: after \<open>Completed\<close> it is
  connected, after \<open>Failed\<close> and \<open>Disconnected\<close> it is disconnected, every other report leaves it
  alone, and no report fails.
\<close>
theorem agent_reports_set_status:
  fixes w :: "'z ice_world_scheme" and env :: "'e ice_env_scheme"
  assumes "conn_ok w"
  shows "\<exists>w'. IceConnectionHasBeenChanged (NewSignalClient env sys) state w = (Ok (), w') \<and> conn_ok w' \<and>
    State w' = (case state of ConnectionStateCompleted \<Rightarrow> Connect
      | ConnectionStateFailed \<Rightarrow> DisConnect | ConnectionStateDisconnected \<Rightarrow> DisConnect
      | _ \<Rightarrow> State w)"
  using assms by (rule ice_ok.reported_status)

text \<open>
  The channels of a peer hold one message and only while its goroutine waits: a second
  offer or answer sent before the goroutine is back at its \<open>select\<close> is dropped, and so is
  one sent before the goroutine waits for the first time.
\<close>
theorem SendRemoteCh_drops_second:
  "bind (SendRemoteCh k n u p) (\<lambda>_. SendRemoteCh k' n u' p') w = SendRemoteCh k n u p w"
  by (cases "ices w n")
     (auto simp: SendRemoteCh_def with_ice_def set_ice_def go_simps)


text \<open>A peer that has not been set up yet, in a world of its own.\<close>

definition ice_world0 :: ice_world where
  "ice_world0 = snd (NewIce env1 ''r'' ''10.0.0.2/32'' ''rn'' ''10.0.0.1'' ''24'' (replicate 32 1) 51820
     ''rt0'' [] ''me'' (Some \<lparr>Stun = None, Turn = None\<rparr>) None
     (conn_world.extend (conn_world1 ''a'' ''b'') \<lparr>ices = \<lambda>_. None, next_ice = 0\<rparr>))"

definition ice_env1 :: ice_env where
  "ice_env1 = proxy_env.extend proxy_env1
     \<lparr>creds_of = \<lambda>h. (''lu'', ''lp''), parse_url = \<lambda>s. Inr \<lparr>Url = s, Username = [], Password = []\<rparr>,
      unmarshal_candidate = Inr\<rparr>"

lemma ice_env1_simps [simp]:
  "err_of ice_env1 h = None" "creds_of ice_env1 h = (''lu'', ''lp'')"
  "parse_key ice_env1 s = Inr (replicate 32 (of_nat (length s)))"
  by (simp_all add: ice_env1_def proxy_env1_def signal_env1_def server_env1_def env1_def env0_def
      proxy_env.defs signal_env.defs server_env.defs env.defs)

lemma ice_world0_simps [simp]:
  "hist ice_world0 = []" "held ice_world0 = {}" "conn_ok ice_world0" "next_ice ice_world0 = 1"
  by (simp_all add: ice_world0_def NewIce_def Let_def conn_world.defs conn_world1_def proxy_world.defs
      proxy_world0_def signal_world.defs conn_world0_def NewConnectedState_def conn_ok_def conn_inv_def)

lemma ice_world0_ices [simp]:
  "ices ice_world0 = [0 \<mapsto> \<lparr>i_sigexec = None, i_conn = None, i_wireproxy = None,
          i_agent = False, i_udpMux = False, i_udpMuxSrflx = False, i_udpMuxConn = False,
          i_udpMuxConnSrflx = False, i_stunTurn = Some \<lparr>Stun = None, Turn = None\<rparr>, i_remoteWgPubKey = ''r'',
          i_remoteIp = ''10.0.0.2/32'', i_remoteNodeKey = ''rn'',
          i_wgPubKey = key_string env1 (replicate 32 1), i_wgPrivKey = replicate 32 1,
          i_wgIface = ''rt0'', i_wgPort = 51820, i_preSharedKey = [], i_ip = ''10.0.0.1'',
          i_cidr = ''24'', i_nk = ''me'', i_blackList = None, i_waiting = False, i_inbox = None\<rparr>]"
  by (simp add: ice_world0_def NewIce_def Let_def conn_world.defs env1_def env0_def)

theorem agent_reports_set_status_witness:
  "\<exists>w'. IceConnectionHasBeenChanged (NewSignalClient ice_env1 sys1) ConnectionStateCompleted ice_world0 = (Ok (), w') \<and>
     State w' = Connect"
  using agent_reports_set_status [of ice_world0 ice_env1 sys1 ConnectionStateCompleted] by auto

text \<open>
  A peer that has not been set up cannot be cleaned up: the agent and its multiplexers are
  nil pointers, and \<open>Cleanup\<close> panics instead of returning an error. It makes no call, and the
  mutex is free again.
\<close>
theorem Cleanup_before_Setup_panics:
  assumes "ices w n = Some i" "\<not> i_udpMux i" "i_conn i = None" "ice_mu n \<notin> held w"
  shows "Cleanup env sc n w = (Panic ''nil pointer dereference'', w)"
  using assms
  by (simp add: Cleanup_def CloseIce_def closeIceAgent_def with_lock_def close_resource_def ret_def
      panic_def bind_def with_ice_def)

theorem Cleanup_before_Setup_panics_witness:
  "Cleanup ice_env1 (NewSignalClient ice_env1 sys1) 0 ice_world0 =
    (Panic ''nil pointer dereference'', ice_world0)"
  by (rule Cleanup_before_Setup_panics [of _ _ "the (ices ice_world0 0)"]) simp_all


lemma Ice_Setup_run:
  assumes "ices w n = Some i" "ice_mu n \<notin> held w" "i_stunTurn i = Some st"
    "h1 = hist w @ [IceCall n (ListenUDP UdpMuxConn)]"
    "h2 = h1 @ [IceCall n (ListenUDP UdpMuxConnSrflx)]"
    "\<forall>cs. cs \<noteq> [] \<longrightarrow> err_of env (h2 @ cs) = None"
    "Ice_Setup env n w = (r, w')"
  shows "r = Ok () \<and> held w' = held w \<and>
    ices w' n = Some (i\<lparr>i_sigexec := Some \<lparr>dstmk = i_remoteNodeKey i, srcmk = i_nk i\<rparr>,
      i_udpMuxConn := (err_of env h1 = None), i_udpMuxConnSrflx := (err_of env h2 = None),
      i_udpMux := True, i_udpMuxSrflx := True, i_agent := True, i_wireproxy := Some (next_proxy w)\<rparr>) \<and>
    hist w' = h2 @ [IceCall n (NewAgent [Stun st, Turn st] (case i_blackList i of None \<Rightarrow> [] | Some xs \<Rightarrow> xs)),
      IceCall n OnCandidate, IceCall n OnConnectionStateChange, IceCall n OnSelectedCandidatePairChange]"
proof -
  have cs: "err_of env (h2 @ c # cs) = None" for c cs using assms(6) by blast
  show ?thesis
    using assms(1-5,7) cs
    by (auto simp: Ice_Setup_def with_lock_def set_ice_def modify_def attempt_def bind_def perform_def Let_def
        GetStunTurnsURL_def ret_def NewWireProxy_def split: option.splits)
qed


text \<open>
  \<open>Setup\<close> succeeds even when both of its sockets cannot be opened: the two errors are
  overwritten before they are looked at, and the peer is left with a nil socket for each.
  With the agent it creates, the peer has all it needs to negotiate.
\<close>
theorem Setup_hides_socket_errors:
  assumes "ices w n = Some i" "ice_mu n \<notin> held w" "i_stunTurn i = Some st"
    "h1 = hist w @ [IceCall n (ListenUDP UdpMuxConn)]"
    "h2 = h1 @ [IceCall n (ListenUDP UdpMuxConnSrflx)]"
    "\<forall>cs. cs \<noteq> [] \<longrightarrow> err_of env (h2 @ cs) = None"
    "Ice_Setup env n w = (r, w')"
  shows "r = Ok () \<and> held w' = held w \<and>
    ices w' n = Some (i\<lparr>i_sigexec := Some \<lparr>dstmk = i_remoteNodeKey i, srcmk = i_nk i\<rparr>,
      i_udpMuxConn := (err_of env h1 = None), i_udpMuxConnSrflx := (err_of env h2 = None),
      i_udpMux := True, i_udpMuxSrflx := True, i_agent := True, i_wireproxy := Some (next_proxy w)\<rparr>) \<and>
    hist w' = h2 @ [IceCall n (NewAgent [Stun st, Turn st] (case i_blackList i of None \<Rightarrow> [] | Some xs \<Rightarrow> xs)),
      IceCall n OnCandidate, IceCall n OnConnectionStateChange, IceCall n OnSelectedCandidatePairChange]"
  using assms by (rule Ice_Setup_run)

theorem Setup_hides_socket_errors_witness:
  "\<exists>w' i. Ice_Setup (ice_env1\<lparr>err_of := \<lambda>h. if length h \<le> 2 then Some (ErrExt 24) else None\<rparr>) 0 ice_world0
     = (Ok (), w') \<and> ices w' 0 = Some i \<and> \<not> i_udpMuxConn i \<and> \<not> i_udpMuxConnSrflx i"
proof -
  let ?env = "ice_env1\<lparr>err_of := \<lambda>h. if length h \<le> 2 then Some (ErrExt 24) else None\<rparr>"
  obtain r w' where r: "Ice_Setup ?env 0 ice_world0 = (r, w')" by (metis surj_pair)
  have free: "ice_mu 0 \<notin> held ice_world0" by simp
  have late: "\<forall>cs. cs \<noteq> [] \<longrightarrow> err_of ?env (((hist ice_world0 @ [IceCall 0 (ListenUDP UdpMuxConn)]) @
      [IceCall 0 (ListenUDP UdpMuxConnSrflx)]) @ cs) = None"
    by (auto simp: neq_Nil_conv)
  show ?thesis
    using Setup_hides_socket_errors [OF _ free _ refl refl late r] r by auto
qed

text \<open>The resources of a peer, in the order in which they are closed.\<close>

definition close_script :: "nat \<Rightarrow> call list" where
  "close_script n = map (\<lambda>r. IceCall n (CloseResource r)) [UdpMux, UdpMuxSrflx, UdpMuxConn, UdpMuxConnSrflx, Agent]"

definition ice_ready :: "Ice \<Rightarrow> bool" where
  "ice_ready i \<longleftrightarrow> i_udpMux i \<and> i_udpMuxSrflx i \<and> i_udpMuxConn i \<and> i_udpMuxConnSrflx i \<and> i_agent i"

text \<open>
  Closing a peer that is set up closes its two multiplexers, its two sockets and its
  agent in this order and stops at the first that fails, leaving the rest open. Only when
  all are closed is the client marked as disconnected. The mutex of the peer is released
  on every branch.
\<close>
theorem closeIceAgent_script:
  fixes w :: "'z ice_world_scheme"
  assumes "conn_ok w" "ices w n = Some i" "ice_ready i" "ice_mu n \<notin> held w"
    "script_run env (hist w) (close_script n) = (h, e)"
    "closeIceAgent env (NewSignalClient env sys) n w = (r, w')"
  shows "hist w' = h \<and> held w' = held w \<and>
    r = (case e of None \<Rightarrow> Ok () | Some e \<Rightarrow> Err e) \<and>
    State w' = (if e = None then DisConnect else State w)"
proof -
  define w1 where "w1 = w\<lparr>held := insert (ice_mu n) (held w)\<rparr>"
  define sc :: "('z ice_world_scheme) SignalClientImpl" where "sc = NewSignalClient env sys"
  have ok: "conn_mu \<notin> held (w1\<lparr>hist := h\<rparr>)" using assms(1) by (simp add: w1_def conn_ok_def ice_mu_neq [symmetric])
  have dis: "sc_DisConnected sc (w1\<lparr>hist := h\<rparr>) = (Ok (), w1\<lparr>hist := h, State := DisConnect\<rparr>)"
    using ok by (simp add: sc_def NewSignalClient_def SC_DisConnected_def DisConnected_run ret_def)
  have "closeIceAgent env sc n w = with_lock (ice_mu n)
      (bind (script env (close_script n)) (\<lambda>_. ignore (sc_DisConnected sc))) w"
    using assms(2-4)
    by (simp add: closeIceAgent_def with_lock_def close_resource_def close_script_def script_def
        ice_ready_def bind_assoc with_ice_def)
  moreover have "bind (script env (close_script n)) (\<lambda>_. ignore (sc_DisConnected sc)) w1 =
      (case e of None \<Rightarrow> (Ok (), w1\<lparr>hist := h, State := DisConnect\<rparr>) | Some e \<Rightarrow> (Err e, w1\<lparr>hist := h\<rparr>))"
    using assms(5) dis
    by (cases e) (simp_all add: bind_def script_script_run w1_def ignore_def attempt_def ret_def)
  ultimately have "closeIceAgent env sc n w = (case e of
      None \<Rightarrow> (Ok (), w\<lparr>hist := h, State := DisConnect\<rparr>) | Some e \<Rightarrow> (Err e, w\<lparr>hist := h\<rparr>))"
    using assms(4) by (cases e) (simp_all add: with_lock_def w1_def)
  with assms(6) show ?thesis by (cases e) (auto simp: sc_def)
qed


text \<open>The same peer after a set-up in which every call succeeded.\<close>

definition ice_world1 :: ice_world where
  "ice_world1 = snd (Ice_Setup ice_env1 0 ice_world0)"

lemma ice_world1_facts:
  "held ice_world1 = {}" "conn_ok ice_world1"
  "\<exists>i. ices ice_world1 0 = Some i \<and> ice_ready i"
proof -
  have free: "ice_mu 0 \<notin> held ice_world0" by simp
  obtain r where r: "Ice_Setup ice_env1 0 ice_world0 = (r, ice_world1)"
    by (simp add: ice_world1_def prod_eq_iff)
  have calm: "\<forall>cs. cs \<noteq> [] \<longrightarrow> err_of ice_env1 (((hist ice_world0 @ [IceCall 0 (ListenUDP UdpMuxConn)]) @
      [IceCall 0 (ListenUDP UdpMuxConnSrflx)]) @ cs) = None" by simp
  note s = Ice_Setup_run [OF _ free _ refl refl calm r]
  from s show "held ice_world1 = {}" "\<exists>i. ices ice_world1 0 = Some i \<and> ice_ready i"
    by (auto simp: ice_ready_def)
  show "conn_ok ice_world1" unfolding ice_world1_def
    by (rule keepsD [OF ice_ok.keeps_Ice_Setup]) simp
qed

theorem closeIceAgent_script_witness:
  "\<exists>r w'. closeIceAgent ice_env1 (NewSignalClient ice_env1 sys1) 0 ice_world1 = (r, w') \<and>
     r = Ok () \<and> State w' = DisConnect"
proof -
  obtain i where i: "ices ice_world1 0 = Some i" "ice_ready i" using ice_world1_facts(3) by blast
  obtain r w' where r: "closeIceAgent ice_env1 (NewSignalClient ice_env1 sys1) 0 ice_world1 = (r, w')"
    by (metis surj_pair)
  have "script_run ice_env1 (hist ice_world1) (close_script 0) = (hist ice_world1 @ close_script 0, None)"
    by (simp add: close_script_def)
  from closeIceAgent_script [OF ice_world1_facts(2) i _ this r] r show ?thesis
    by (simp add: ice_world1_facts(1))
qed

text \<open>
  \<open>StartGatheringProcess\<close> starts the goroutine that waits for the peer and then sends the
  local credentials as an offer from this node to the peer; when the offer fails the
  goroutine is running all the same.
\<close>
theorem StartGatheringProcess_offers:
  fixes w :: "'z ice_world_scheme"
  assumes "ices w n = Some i" "ice_mu n \<notin> held w" "i_agent i" "i_sigexec i = Some s"
    "h1 = hist w @ [Go (WaitingRemotePeer n), IceCall n GetLocalUserCredentials]"
    "err_of env h1 = None" "creds_of env h1 = (u, p)"
    "h2 = h1 @ [SignalCall (NegOffer (dstmk s) (srcmk s) u p)]"
  shows "StartGatheringProcess env (NewSignalClient env sys) n w =
    ((case err_of env h2 of None \<Rightarrow> Ok () | Some e \<Rightarrow> Err e), w\<lparr>hist := h2\<rparr>)"
  using assms
  by (auto simp: StartGatheringProcess_def spawn_def signalOffer_def with_lock_def bind_def
      getLocalUserIceAgentCredentials_def agent_call_def gets_def SigExecuter_Offer_def NewSignalClient_def
      SC_Offer_def perform_def Let_def with_ice_def split: option.splits)

theorem StartGatheringProcess_offers_witness:
  "\<exists>w'. StartGatheringProcess ice_env1 (NewSignalClient ice_env1 sys1) 0
      (ice_world0\<lparr>ices := (ices ice_world0)(0 := map_option (\<lambda>i. i\<lparr>i_agent := True,
         i_sigexec := Some \<lparr>dstmk = ''rn'', srcmk = ''me''\<rparr>\<rparr>) (ices ice_world0 0))\<rparr>) = (Ok (), w') \<and>
     last (hist w') = SignalCall (NegOffer ''rn'' ''me'' ''lu'' ''lp'')"
  using StartGatheringProcess_offers [of "ice_world0\<lparr>ices := (ices ice_world0)(0 := map_option (\<lambda>i. i\<lparr>i_agent := True,
         i_sigexec := Some \<lparr>dstmk = ''rn'', srcmk = ''me''\<rparr>\<rparr>) (ices ice_world0 0))\<rparr>" 0 _ "\<lparr>dstmk = ''rn'', srcmk = ''me''\<rparr>"
       _ ice_env1 "''lu''" "''lp''" _ sys1, OF _ _ _ _ refl _ _ refl]
  by simp


lemma startConn_first_call:
  fixes w :: "'z ice_world_scheme"
  assumes "ices w n = Some i" "i_agent i"
  shows "\<exists>cs. hist (snd (startConn env n u p w)) = hist w @ IceCall n
    (if dials (i_wgPubKey i) (i_remoteWgPubKey i) then AgentDial u p else AgentAccept u p) # cs"
proof -
  let ?c = "\<lparr>c_agent = Some n, c_remoteConn = False, c_uname = u, c_pwd = p,
    c_wireproxy = i_wireproxy i, c_remoteWgPubKey = i_remoteWgPubKey i, c_wgPubKey = i_wgPubKey i,
    c_cancelled = False\<rparr>"
  let ?w = "w\<lparr>conns := (conns w)(next_conn w \<mapsto> ?c), next_conn := Suc (next_conn w),
    ices := (ices w)(n \<mapsto> i\<lparr>i_conn := Some (next_conn w)\<rparr>)\<rparr>"
  have "startConn env n u p w = Conn_Start env (next_conn w) ?w"
    using assms by (simp add: startConn_def NewConn_def Let_def bind_def set_ice_def modify_def)
  moreover have "\<exists>cs. hist (snd (Conn_Start env (next_conn w) ?w)) = hist w @ IceCall n
    (if dials (i_wgPubKey i) (i_remoteWgPubKey i) then AgentDial u p else AgentAccept u p) # cs"
    using Conn_Start_first_call [of ?w "next_conn w" ?c n env]
    by (cases "dials (i_wgPubKey i) (i_remoteWgPubKey i)") simp_all
  ultimately show ?thesis by simp
qed

lemma extends_bind:
  fixes m :: "('z world_scheme, 'a) go"
  assumes "hist (snd (m w)) = h @ cs" "\<And>x. keeps (extends (h @ cs)) (f x)"
  shows "\<exists>ds. hist (snd (bind m f w)) = h @ cs @ ds"
proof -
  obtain r w' where m: "m w = (r, w')" by (cases "m w")
  have "extends (h @ cs) (snd (bind m f w))"
  proof (cases r)
    case (Ok x)
    then have "bind m f w = f x w'" using m by simp
    then show ?thesis using keepsD [OF assms(2), of w' x] assms(1) m by (simp add: extends_def)
  qed (use m assms(1) in \<open>simp_all add: extends_def\<close>)
  then show ?thesis by (simp add: extends_def)
qed

text \<open>
  A turn of the waiting goroutine answers an offer before it gathers candidates, and does
  not answer an answer; only then does it dial or accept, with the credentials of the
  message it received.
\<close>
theorem waiting_turn_order:
  fixes w :: "'z ice_world_scheme"
  assumes "ices w n = Some i" "i_inbox i = Some (k, cr)" "i_agent i" "i_sigexec i = Some s"
    "ice_mu n \<notin> held w" "\<forall>h. err_of env h = None" "\<forall>h. creds_of env h = (u, p)"
  shows "\<exists>cs. hist (snd (waiting_turn env (NewSignalClient env sys) (NewServerClient env sys) n w)) = hist w @
    (if k = OfferKind then [IceCall n GetLocalUserCredentials, SignalCall (NegAnswer (dstmk s) (srcmk s) u p)] else []) @
    [IceCall n GatherCandidates, IceCall n (if dials (i_wgPubKey i) (i_remoteWgPubKey i)
       then AgentDial (UserName cr) (creds_Pwd cr) else AgentAccept (UserName cr) (creds_Pwd cr))] @ cs"
proof -
  let ?i = "i\<lparr>i_inbox := None\<rparr>"
  define h where "h = hist w @ (if k = OfferKind then [IceCall n GetLocalUserCredentials,
      SignalCall (NegAnswer (dstmk s) (srcmk s) u p)] else []) @ [IceCall n GatherCandidates]"
  define w1 where "w1 = w\<lparr>ices := (ices w)(n \<mapsto> ?i), hist := h\<rparr>"
  define rest :: "('z ice_world_scheme, unit) go" where "rest =
    bind (startConn env n (UserName cr) (creds_Pwd cr)) (\<lambda>_.
      bind (sv_Connect (NewServerClient env sys) (i_nk i)) (\<lambda>_. waiting_enter n))"
  have "waiting_turn env (NewSignalClient env sys) (NewServerClient env sys) n w = rest w1"
    using assms
    by (cases k) (auto simp: waiting_turn_def set_ice_def modify_def bind_def [of "\<lambda>w. (_, _)"]
        signalAnswer_def with_lock_def getLocalUserIceAgentCredentials_def agent_call_def gets_def
        SigExecuter_Answer_def NewSignalClient_def SC_Answer_def with_ice_def rest_def w1_def h_def
        bind_def ret_def split: res.splits prod.splits)
  moreover obtain cs where "hist (snd (startConn env n (UserName cr) (creds_Pwd cr) w1)) = h @ IceCall n
     (if dials (i_wgPubKey i) (i_remoteWgPubKey i) then AgentDial (UserName cr) (creds_Pwd cr)
      else AgentAccept (UserName cr) (creds_Pwd cr)) # cs"
    using startConn_first_call [of w1 n ?i env] assms(3) by (auto simp: w1_def)
  moreover have "keeps (extends g) (bind (sv_Connect (NewServerClient env sys) (i_nk i))
      (\<lambda>_. waiting_enter n) :: ('z ice_world_scheme, unit) go)" for g
    unfolding waiting_enter_def
    by (intro keeps_bind sv_ext.keeps_Connect keeps_set_ice) (simp add: extends_def)
  ultimately have "\<exists>ds. hist (snd (rest w1)) = h @ (IceCall n
     (if dials (i_wgPubKey i) (i_remoteWgPubKey i) then AgentDial (UserName cr) (creds_Pwd cr)
      else AgentAccept (UserName cr) (creds_Pwd cr)) # cs) @ ds"
    unfolding rest_def by (intro extends_bind) auto
  with \<open>waiting_turn _ _ _ _ w = rest w1\<close> show ?thesis by (auto simp: h_def)
qed

definition offered_world :: ice_world where
  "offered_world = ice_world0\<lparr>ices := (ices ice_world0)(0 := map_option (\<lambda>i. i\<lparr>i_agent := True,
     i_sigexec := Some \<lparr>dstmk = ''rn'', srcmk = ''me''\<rparr>,
     i_inbox := Some (OfferKind, \<lparr>UserName = ''ru'', creds_Pwd = ''rp''\<rparr>)\<rparr>) (ices ice_world0 0))\<rparr>"

theorem waiting_turn_order_witness:
  "\<exists>c cs. hist (snd (waiting_turn ice_env1 (NewSignalClient ice_env1 sys1) (NewServerClient ice_env1 sys1) 0
      offered_world)) = [IceCall 0 GetLocalUserCredentials, SignalCall (NegAnswer ''rn'' ''me'' ''lu'' ''lp''),
      IceCall 0 GatherCandidates, c] @ cs"
  using waiting_turn_order [of offered_world 0 _ OfferKind "\<lparr>UserName = ''ru'', creds_Pwd = ''rp''\<rparr>"
      "\<lparr>dstmk = ''rn'', srcmk = ''me''\<rparr>" ice_env1 "''lu''" "''lp''" sys1]
  by (auto simp: offered_world_def)

end
