(* ===== verification/Rcn_Sock.thy ===== *)
theory Rcn_Sock
  imports Ice
begin

text \<open>
  \<open>rcn/rcnsock\<close>: the local socket on which the daemon tells its status, and the question of
  the client. The object is a value; \<open>Connect\<close> sets its fields before it starts the
  goroutines, which only read them. The accepting loop has no end: it takes the number of its
  turns and is then still waiting.
\<close>

section \<open>Messages\<close>

record DialRunetaleStatus =
  ds_Ip :: string
  ds_Cidr :: string
  ds_ConnStatus :: string

text \<open>A pointer that was not sent is nil.\<close>

record RcnDialSock =
  MessageType :: int
  dial_status :: "DialRunetaleStatus option"

definition CompletedConn :: int where "CompletedConn = 0"

definition sockaddr :: string where "sockaddr = ''/tmp/rcn.sock''"

text \<open>\<open>sock_msg_of\<close> is the message the decoder has after a successful \<open>Decode\<close>.\<close>

record sock_env = ice_env +
  sock_msg_of :: "call list \<Rightarrow> RcnDialSock"

record 'w RcnSock =
  rs_signalClient :: "'w SignalClientImpl option"
  rs_ip :: string
  rs_cidr :: string
  rs_ch :: "chan option"

definition NewRcnSock :: "chan option \<Rightarrow> 'w RcnSock" where
  "NewRcnSock ch = \<lparr>rs_signalClient = None, rs_ip = [], rs_cidr = [], rs_ch = ch\<rparr>"

definition sock_encode :: "RcnDialSock \<Rightarrow> sock_call" where
  "sock_encode m = SockEncode (MessageType m)
     (map_option (\<lambda>d. (ds_Ip d, ds_Cidr d, ds_ConnStatus d)) (dial_status m))"

section \<open>The side of the daemon\<close>

definition cleanup :: "'e env_scheme \<Rightarrow> ('z world_scheme, unit) go" where
  "cleanup env =
     bind (attempt (perform env (OsCall (OsStat sockaddr)))) (\<lambda>r. case r of
       Inl _ \<Rightarrow> ret () | Inr _ \<Rightarrow> perform env (OsCall (OsRemoveAll sockaddr)))"

text \<open>One turn of the loop of \<open>listen\<close>; the answer is whether the loop goes on.\<close>

definition listen_turn :: "'e sock_env_scheme \<Rightarrow> ('z world_scheme) RcnSock \<Rightarrow> ('z world_scheme, bool) go" where
  "listen_turn env s =
     bind (attempt (query env (sock_msg_of env) (SockCall SockDecode))) (\<lambda>r. case r of
       Inl _ \<Rightarrow> ret False
     | Inr mes \<Rightarrow>
         bind (if MessageType mes = CompletedConn then
                 (case rs_signalClient s of
                    None \<Rightarrow> panic ''nil pointer dereference''
                  | Some sc \<Rightarrow> bind (sc_GetConnStatus sc) (\<lambda>status. case dial_status mes of
                        None \<Rightarrow> panic ''nil pointer dereference''
                      | Some d \<Rightarrow> ret (mes\<lparr>dial_status := Some (d\<lparr>ds_Ip := rs_ip s, ds_Cidr := rs_cidr s,
                          ds_ConnStatus := status\<rparr>)\<rparr>)))
               else ret mes) (\<lambda>mes.
         bind (attempt (perform env (SockCall (sock_encode mes)))) (\<lambda>r. ret (\<not> isl r))))"

text \<open>\<open>None\<close>: the loop runs for ever.\<close>

partial_function (option) listen_loop :: "'e sock_env_scheme \<Rightarrow> ('z world_scheme) RcnSock \<Rightarrow> 'z world_scheme
    \<Rightarrow> (unit res \<times> 'z world_scheme) option" where
  "listen_loop env s w = (case listen_turn env s w of
       (Ok again, w') \<Rightarrow> if again then listen_loop env s w' else Some (Ok (), w')
     | (Err e, w') \<Rightarrow> Some (Err e, w')
     | (Panic p, w') \<Rightarrow> Some (Panic p, w')
     | (Stuck, w') \<Rightarrow> Some (Stuck, w'))"

text \<open>\<open>defer conn.Close()\<close> panics at once when there is no connection.\<close>

definition listen :: "'e sock_env_scheme \<Rightarrow> ('z world_scheme) RcnSock \<Rightarrow> bool \<Rightarrow> ('z world_scheme, unit) go" where
  "listen env s has_conn w =
     (if \<not> has_conn then (Panic ''nil pointer dereference'', w)
      else case listen_loop env s w of
          None \<Rightarrow> (Stuck, w) | Some rw \<Rightarrow> deferred (perform env (SockCall SockClose)) rw)"

definition accept_turn :: "'e env_scheme \<Rightarrow> ('z world_scheme, unit) go" where
  "accept_turn env = bind (attempt (perform env (SockCall SockAccept))) (\<lambda>r. spawn (SockServe (\<not> isl r)))"

fun accept_loop :: "nat \<Rightarrow> 'e env_scheme \<Rightarrow> ('z world_scheme, unit) go" where
  "accept_loop 0 env = stuck"
| "accept_loop (Suc n) env = bind (accept_turn env) (\<lambda>_. accept_loop n env)"

text \<open>The fields \<open>Connect\<close> sets, and the rest of it.\<close>

definition RcnSock_fields :: "'w RcnSock \<Rightarrow> 'w SignalClientImpl \<Rightarrow> string \<Rightarrow> string \<Rightarrow> 'w RcnSock" where
  "RcnSock_fields s sc ip cidr = s\<lparr>rs_ip := ip, rs_cidr := cidr, rs_signalClient := Some sc\<rparr>"

definition RcnSock_Connect :: "nat \<Rightarrow> 'e env_scheme \<Rightarrow> ('z world_scheme, unit) go" where
  "RcnSock_Connect turns env =
     bind (cleanup env) (\<lambda>_.
     bind (perform env (SockCall SockListen)) (\<lambda>_.
     bind (spawn SockCleanup) (\<lambda>_.
     accept_loop turns env)))"

text \<open>The goroutine that removes the socket.\<close>

definition SockCleanup_body :: "'e env_scheme \<Rightarrow> 'w RcnSock \<Rightarrow> ('z world_scheme, unit) go" where
  "SockCleanup_body env s = bind (recv_closed (rs_ch s)) (\<lambda>_. ignore (cleanup env))"

section \<open>The side of the client\<close>

definition zero_status :: DialRunetaleStatus where
  "zero_status = \<lparr>ds_Ip = [], ds_Cidr = [], ds_ConnStatus = []\<rparr>"

definition DialRunetaledStatus :: "'e sock_env_scheme \<Rightarrow> ('z world_scheme, DialRunetaleStatus) go" where
  "DialRunetaledStatus env =
     bind (perform env (SockCall SockDial)) (\<lambda>_.
     deferring (perform env (SockCall SockClose))
       (bind (perform env (SockCall (sock_encode \<lparr>MessageType = CompletedConn, dial_status = Some zero_status\<rparr>))) (\<lambda>_.
        bind (query env (sock_msg_of env) (SockCall SockDecode)) (\<lambda>d.
        ret (case dial_status d of None \<Rightarrow> zero_status | Some st \<Rightarrow> st)))))"

section \<open>Properties\<close>

lemma SC_GetConnStatus_run:
  "conn_ok w \<Longrightarrow> SC_GetConnStatus w =
    (Ok ''connect'', w\<lparr>State := Connect, conn := None, closed := closed w \<union> set_option (conn w)\<rparr>)"
  using conn_ok_connected [of w Connect]
  by (simp add: SC_GetConnStatus_def Connected_ok GetConnStatus_run conn_ok_def ret_def)
     (simp add: ConnStatus_String_def)

text \<open>
  Whoever asks the daemon for its status is told that it is connected, with the address of the
  node, and is right: the question itself sets the status to connected and wakes those who
  wait for the connection, although none need have been made.
\<close>
theorem status_question_connects:
  fixes w :: "'z signal_world_scheme"
  assumes "conn_ok w" "rs_signalClient s = Some (NewSignalClient env sys)"
    "h = hist w @ [SockCall SockDecode]" "err_of env h = None"
    "sock_msg_of env h = \<lparr>MessageType = CompletedConn, dial_status = Some d\<rparr>"
    "h' = h @ [SockCall (SockEncode CompletedConn (Some (rs_ip s, rs_cidr s, ''connect'')))]"
  shows "listen_turn env s w = (Ok (err_of env h' = None),
    w\<lparr>hist := h', State := Connect, conn := None, closed := closed w \<union> set_option (conn w)\<rparr>)"
proof -
  have ok: "conn_ok (w\<lparr>hist := h\<rparr>)" using assms(1) by simp
  show ?thesis
    using assms(2-6) SC_GetConnStatus_run [OF ok]
    by (cases "err_of env h'")
      (simp_all add: listen_turn_def query_def gets_def attempt_def bind_def ret_def perform_def Let_def
        NewSignalClient_def sock_encode_def)
qed

text \<open>
  The daemon can be brought down over its socket: a message without a status, which the
  decoder accepts, and a connection that could not be accepted both end in a nil
  dereference, which no caller recovers from.
\<close>
theorem socket_panics:
  assumes "rs_signalClient s = Some sc" "h = hist w @ [SockCall SockDecode]" "err_of env h = None"
    "sock_msg_of env h = \<lparr>MessageType = CompletedConn, dial_status = None\<rparr>"
    "sc_GetConnStatus sc (w\<lparr>hist := h\<rparr>) = (Ok st, w1)"
  shows "(\<exists>w'. listen env s True w = (Panic ''nil pointer dereference'', w')) \<and>
    listen env s False w = (Panic ''nil pointer dereference'', w)"
proof -
  have "listen_turn env s w = (Panic ''nil pointer dereference'', w1)"
    using assms by (simp add: listen_turn_def query_def gets_def attempt_def bind_def panic_def perform_def Let_def)
  then have "listen_loop env s w = Some (Panic ''nil pointer dereference'', w1)"
    by (subst listen_loop.simps) simp
  then show ?thesis by (simp add: listen_def deferred_def)
qed

text \<open>
  The accepting loop starts one goroutine for every accepted connection, and one that
  panics for every connection it failed to accept; it never stops to listen, so
  \<open>Connect\<close> returns only an error of its preparation.
\<close>
lemma Connect_serves:
  assumes "\<forall>h. err_of env h = None \<or> last h = SockCall SockAccept"
  shows "\<exists>w'. RcnSock_Connect n env w = (Stuck, w') \<and>
    filter (\<lambda>c. \<exists>b. c = Go (SockServe b)) (drop (length (hist w)) (hist w')) =
    map (\<lambda>k. Go (SockServe (err_of env (take (length (hist w) + 2 * k + 5) (hist w')) = None))) [0..<n]"
proof -
  have loop: "\<exists>cs. length cs = 2 * n \<and> accept_loop n env v = (Stuck, v\<lparr>hist := hist v @ cs\<rparr>) \<and>
      filter (\<lambda>c. \<exists>b. c = Go (SockServe b)) cs =
      map (\<lambda>k. Go (SockServe (err_of env (hist v @ take (2 * k + 1) cs) = None))) [0..<n]" for v :: "'b world_scheme"
  proof (induction n arbitrary: v)
    case 0
    show ?case by (simp add: stuck_def)
  next
    case (Suc n)
    let ?h = "hist v @ [SockCall SockAccept]"
    let ?b = "err_of env ?h = None"
    let ?v = "v\<lparr>hist := ?h @ [Go (SockServe ?b)]\<rparr>"
    have turn: "accept_turn env v = (Ok (), ?v)"
      by (cases "err_of env ?h") (simp_all add: accept_turn_def attempt_def bind_def spawn_def)
    from Suc.IH [of ?v] obtain cs where cs: "length cs = 2 * n"
      "accept_loop n env ?v = (Stuck, ?v\<lparr>hist := hist ?v @ cs\<rparr>)"
      "filter (\<lambda>c. \<exists>b. c = Go (SockServe b)) cs =
        map (\<lambda>k. Go (SockServe (err_of env (hist ?v @ take (2 * k + 1) cs) = None))) [0..<n]" by blast
    let ?cs = "SockCall SockAccept # Go (SockServe ?b) # cs"
    have "map (\<lambda>k. Go (SockServe (err_of env (hist v @ take (2 * k + 1) ?cs) = None))) [0..<Suc n] =
        Go (SockServe ?b) # map (\<lambda>k. Go (SockServe (err_of env (hist ?v @ take (2 * k + 1) cs) = None))) [0..<n]"
      by (simp add: map_upt_Suc del: upt_Suc)
    with cs turn show ?case by (intro exI [of _ ?cs]) simp
  qed
  have pre: "perform env c v = (Ok (), v\<lparr>hist := hist v @ [c]\<rparr>)" if "c \<noteq> SockCall SockAccept" for c and v :: "'b world_scheme"
    using assms that by (metis last_snoc perform_None)
  define v where "v = w\<lparr>hist := hist w @ [OsCall (OsStat sockaddr), OsCall (OsRemoveAll sockaddr),
      SockCall SockListen, Go SockCleanup]\<rparr>"
  have "RcnSock_Connect n env w = accept_loop n env v"
    by (simp add: RcnSock_Connect_def cleanup_def attempt_def bind_def pre spawn_def v_def)
  have five: "2 * k + 5 = Suc (Suc (Suc (Suc (Suc (2 * k)))))" for k :: nat by simp
  show ?thesis using loop [of v] \<open>RcnSock_Connect n env w = _\<close> by (auto simp: v_def five)
qed

text \<open>An outside whose clients send the messages \<open>m\<close>.\<close>

definition sock_env1 :: "RcnDialSock \<Rightarrow> sock_env" where
  "sock_env1 m = ice_env.extend ice_env1 \<lparr>sock_msg_of = \<lambda>h. m\<rparr>"

lemma sock_env1_simps [simp]: "err_of (sock_env1 m) h = None" "sock_msg_of (sock_env1 m) h = m"
  using ice_env1_simps(1) [of h] by (cases ice_env1, simp_all add: sock_env1_def ice_env.defs)

definition sock1 :: "'e signal_env_scheme \<Rightarrow> ('z signal_world_scheme) RcnSock" where
  "sock1 env = RcnSock_fields (NewRcnSock None) (NewSignalClient env sys1) ''10.0.0.1'' ''24''"

theorem status_question_connects_witness:
  "\<exists>m w'. listen_turn (sock_env1 m) (sock1 (sock_env1 m)) conn_world0 = (Ok True, w') \<and>
     hist w' = [SockCall SockDecode, SockCall (SockEncode 0 (Some (''10.0.0.1'', ''24'', ''connect'')))] \<and> State w' = Connect"
proof -
  let ?m = "\<lparr>MessageType = CompletedConn, dial_status = Some zero_status\<rparr>"
  show ?thesis
    using status_question_connects [OF conn_ok_world0, of "sock1 (sock_env1 ?m)" "sock_env1 ?m" sys1 _ zero_status,
        OF _ refl _ _ refl]
    by (intro exI [of _ ?m])
       (simp add: sock1_def RcnSock_fields_def conn_world0_def NewConnectedState_def CompletedConn_def)
qed

theorem socket_panics_witness:
  "\<exists>m w'. listen (sock_env1 m) (sock1 (sock_env1 m)) True conn_world0 = (Panic ''nil pointer dereference'', w')"
proof -
  let ?m = "\<lparr>MessageType = CompletedConn, dial_status = None\<rparr>"
  have ok: "conn_ok (conn_world0\<lparr>hist := hist conn_world0 @ [SockCall SockDecode]\<rparr>)" by simp
  have "sc_GetConnStatus (NewSignalClient (sock_env1 ?m) sys1) (conn_world0\<lparr>hist := hist conn_world0 @ [SockCall SockDecode]\<rparr>) =
      SC_GetConnStatus (conn_world0\<lparr>hist := hist conn_world0 @ [SockCall SockDecode]\<rparr>)"
    by (simp add: NewSignalClient_def)
  from socket_panics [OF _ refl _ _ trans [OF this SC_GetConnStatus_run [OF ok]], of "sock1 (sock_env1 ?m)" "sock_env1 ?m"]
  show ?thesis by (intro exI [of _ ?m]) (auto simp: sock1_def RcnSock_fields_def)
qed

end
