(* ===== verification/Fs.thy ===== *)
theory Fs
  imports Utils
begin

text \<open>
  The file system as the program sees it, the atomic write of \<open>utils/file.go\<close> and the
  directories of \<open>paths/paths.go\<close>. Each operation is a call that the environment may let
  fail; one that succeeds acts on the files of the world, one that fails leaves them alone,
  but for a write, which may have written a part. Directories are not modelled, only the
  calls on them.
\<close>

section \<open>Paths\<close>

fun clean_parts :: "bool \<Rightarrow> string list \<Rightarrow> string list \<Rightarrow> string list" where
  "clean_parts rooted acc [] = rev acc"
| "clean_parts rooted acc (p # ps) =
     (if p = [] \<or> p = ''.'' then clean_parts rooted acc ps
      else if p = ''..'' then
        (case acc of
           [] \<Rightarrow> clean_parts rooted (if rooted then [] else [p]) ps
         | a # as \<Rightarrow> if a = ''..'' then clean_parts rooted (p # acc) ps else clean_parts rooted as ps)
      else clean_parts rooted (p # acc) ps)"

definition Clean :: "string \<Rightarrow> string" where
  "Clean s = (let rooted = (s \<noteq> [] \<and> hd s = CHR ''/''); ps = clean_parts rooted [] (Split s CHR ''/'') in
     if rooted then CHR ''/'' # Join ps ''/'' else if ps = [] then ''.'' else Join ps ''/'')"

definition is_slash :: "char \<Rightarrow> bool" where "is_slash c \<longleftrightarrow> c = CHR ''/''"

definition Dir :: "string \<Rightarrow> string" where
  "Dir s = Clean (rev (dropWhile (\<lambda>c. \<not> is_slash c) (rev s)))"

definition Base :: "string \<Rightarrow> string" where
  "Base s = (if s = [] then ''.'' else
     let t = dropWhile is_slash (rev s) in
     if t = [] then ''/'' else rev (takeWhile (\<lambda>c. \<not> is_slash c) t))"

section \<open>System calls\<close>

text \<open>\<open>os_do env c f\<close>: the call \<open>c\<close>, with the effect \<open>f\<close> on the files when it succeeds.\<close>

definition os_do :: "'e env_scheme \<Rightarrow> os_call
    \<Rightarrow> ((string \<Rightarrow> string option) \<Rightarrow> err + (string \<Rightarrow> string option)) \<Rightarrow> ('z world_scheme, unit) go" where
  "os_do env c f = bind (perform env (OsCall c)) (\<lambda>_ w.
     case f (files w) of Inl e \<Rightarrow> (Err e, w) | Inr fs \<Rightarrow> (Ok (), w\<lparr>files := fs\<rparr>))"

definition ReadFile :: "'e env_scheme \<Rightarrow> string \<Rightarrow> ('z world_scheme, string) go" where
  "ReadFile env p = bind (perform env (OsCall (OsReadFile p))) (\<lambda>_ w.
     (case files w p of None \<Rightarrow> Err ErrNotExist | Some c \<Rightarrow> Ok c, w))"

definition TempFile :: "'e env_scheme \<Rightarrow> string \<Rightarrow> string \<Rightarrow> ('z world_scheme, string) go" where
  "TempFile env dir pattern = bind (perform env (OsCall (OsTempFile dir pattern))) (\<lambda>_ w.
     let name = str_of env (hist w) in (Ok name, w\<lparr>files := (files w)(name \<mapsto> [])\<rparr>))"

text \<open>A write that fails may have written a part of the data.\<close>

definition write_fd :: "'e env_scheme \<Rightarrow> string \<Rightarrow> string \<Rightarrow> ('z world_scheme, unit) go" where
  "write_fd env p data w = (let h = hist w @ [OsCall (OsWrite p)] in case err_of env h of
       None \<Rightarrow> (Ok (), w\<lparr>hist := h, files := (files w)(p \<mapsto> data)\<rparr>)
     | Some e \<Rightarrow> (Err e, w\<lparr>hist := h, files := (files w)(p \<mapsto> take (nat (int_of env h)) data)\<rparr>))"

definition Rename :: "'e env_scheme \<Rightarrow> string \<Rightarrow> string \<Rightarrow> ('z world_scheme, unit) go" where
  "Rename env a b = os_do env (OsRename a b) (\<lambda>fs. case fs a of
       None \<Rightarrow> Inl ErrNotExist | Some c \<Rightarrow> Inr (fs(a := None, b \<mapsto> c)))"

definition os_Remove :: "'e env_scheme \<Rightarrow> string \<Rightarrow> ('z world_scheme, unit) go" where
  "os_Remove env p = os_do env (OsRemove p) (\<lambda>fs. case fs p of
       None \<Rightarrow> Inl ErrNotExist | Some _ \<Rightarrow> Inr (fs(p := None)))"

definition os_WriteFile :: "'e env_scheme \<Rightarrow> string \<Rightarrow> string \<Rightarrow> nat \<Rightarrow> ('z world_scheme, unit) go" where
  "os_WriteFile env p data perm = os_do env (OsWriteFile p perm) (\<lambda>fs. Inr (fs(p \<mapsto> data)))"

section \<open>AtomicWriteFile\<close>

text \<open>A deferred function that acts only when the result is an error.\<close>

definition on_error :: "('w, unit) go \<Rightarrow> ('w, 'a) go \<Rightarrow> ('w, 'a) go" where
  "on_error d m w = (case m w of (Err e, w') \<Rightarrow> (Err e, snd (d w')) | rw \<Rightarrow> rw)"

definition AtomicWriteFile :: "'e env_scheme \<Rightarrow> string \<Rightarrow> string \<Rightarrow> nat \<Rightarrow> ('z world_scheme, unit) go" where
  "AtomicWriteFile env filename data perm =
     bind (TempFile env (Dir filename) (Base filename @ ''.tmp'')) (\<lambda>tmpName.
     on_error (bind (ignore (perform env (OsCall (OsClose tmpName)))) (\<lambda>_. ignore (os_Remove env tmpName)))
       (bind (write_fd env tmpName data) (\<lambda>_.
        bind (if goos env \<noteq> ''windows'' then perform env (OsCall (OsChmod tmpName perm)) else ret ()) (\<lambda>_.
        bind (perform env (OsCall (OsSync tmpName))) (\<lambda>_.
        bind (perform env (OsCall (OsClose tmpName))) (\<lambda>_.
        Rename env tmpName filename))))))"

section \<open>The directories of the program\<close>

definition DefaultRunetaleClientStateFile :: "'e env_scheme \<Rightarrow> string" where
  "DefaultRunetaleClientStateFile env =
     (if goos env = ''freebsd'' \<or> goos env = ''openbsd'' then ''/var/db/runetale/client.state''
      else if goos env = ''linux'' then ''/var/lib/runetale/client.state''
      else if goos env = ''darwin'' then ''/Library/runetale/client.state''
      else [])"

definition DefaultClientConfigFile :: string where
  "DefaultClientConfigFile = ''/etc/runetale/client.json''"

definition DefaultClientLogFile :: string where
  "DefaultClientLogFile = ''/var/log/runetale/client.log''"

definition DefaultRunetaledLogFile :: string where
  "DefaultRunetaledLogFile = ''/var/log/runetaled/client.log''"

text \<open>The constant is the decimal number 700; \<open>fi.IsDir()\<close> and \<open>fi.Mode().Perm()\<close> are answers
  of the environment, the latter the low nine bits of the mode.\<close>

definition state_dir_perm :: nat where "state_dir_perm = 700"

definition Perm :: "nat \<Rightarrow> nat" where "Perm mode = mode mod 512"

definition checkStateDirPermission :: "'e env_scheme \<Rightarrow> string \<Rightarrow> ('z world_scheme, unit) go" where
  "checkStateDirPermission env dir =
     (if Base dir \<noteq> ''runetale'' then ret ()
      else bind (perform env (OsCall (OsStat dir))) (\<lambda>_.
        bind (gets (\<lambda>w. bool_of env (hist w))) (\<lambda>isdir.
        bind (gets (\<lambda>w. nat (int_of env (hist w)))) (\<lambda>mode.
        if \<not> isdir then throw (ErrNew ''expected a directory'')
        else if Perm mode = state_dir_perm then ret ()
        else perform env (OsCall (OsChmod dir state_dir_perm))))))"

definition MkStateDir :: "'e env_scheme \<Rightarrow> string \<Rightarrow> ('z world_scheme, unit) go" where
  "MkStateDir env dirPath =
     bind (perform env (OsCall (OsMkdirAll dirPath 448))) (\<lambda>_. checkStateDirPermission env dirPath)"

section \<open>Lemmas\<close>

lemma write_fd_run:
  "write_fd env p data w = (case err_of env (hist w @ [OsCall (OsWrite p)]) of
     None \<Rightarrow> (Ok (), w\<lparr>hist := hist w @ [OsCall (OsWrite p)], files := (files w)(p \<mapsto> data)\<rparr>)
   | Some e \<Rightarrow> (Err e, w\<lparr>hist := hist w @ [OsCall (OsWrite p)],
       files := (files w)(p \<mapsto> take (nat (int_of env (hist w @ [OsCall (OsWrite p)]))) data)\<rparr>))"
  by (simp add: write_fd_def Let_def)

lemma Rename_run:
  "Rename env a b w = (let w1 = w\<lparr>hist := hist w @ [OsCall (OsRename a b)]\<rparr> in
     case err_of env (hist w1) of Some e \<Rightarrow> (Err e, w1)
     | None \<Rightarrow> (case files w a of None \<Rightarrow> (Err ErrNotExist, w1)
        | Some c \<Rightarrow> (Ok (), w1\<lparr>files := (files w)(a := None, b \<mapsto> c)\<rparr>)))"
  by (simp add: Rename_def os_do_def bind_def perform_def Let_def split: option.splits)

lemma Remove_run:
  "os_Remove env p w = (let w1 = w\<lparr>hist := hist w @ [OsCall (OsRemove p)]\<rparr> in
     case err_of env (hist w1) of Some e \<Rightarrow> (Err e, w1)
     | None \<Rightarrow> (case files w p of None \<Rightarrow> (Err ErrNotExist, w1)
        | Some _ \<Rightarrow> (Ok (), w1\<lparr>files := (files w)(p := None)\<rparr>)))"
  by (simp add: os_Remove_def os_do_def bind_def perform_def Let_def split: option.splits)

text \<open>What no operation of the write but the rename touches: the files other than the temporary one.\<close>

definition same_but :: "string \<Rightarrow> 'z world_scheme \<Rightarrow> 'y world_scheme \<Rightarrow> bool" where
  "same_but tmp w0 w \<longleftrightarrow> (\<forall>p. p \<noteq> tmp \<longrightarrow> files w p = files w0 p)"

lemma keeps_same_but_perform: "keeps (same_but tmp w0) (perform env c)"
  by (rule keeps_perform) (simp add: same_but_def)

lemma keeps_same_but_write: "keeps (same_but tmp w0) (write_fd env tmp data)"
  by (simp add: keeps_def write_fd_run same_but_def split: option.splits)

lemma keeps_same_but_Remove: "keeps (same_but tmp w0) (os_Remove env tmp)"
  by (simp add: keeps_def Remove_run Let_def same_but_def split: option.splits)

lemma on_error_Ok: "m w = (Ok x, w') \<Longrightarrow> on_error d m w = (Ok x, w')"
  by (simp add: on_error_def)

lemma on_error_Err: "m w = (Err e, w') \<Longrightarrow> on_error d m w = (Err e, snd (d w'))"
  by (simp add: on_error_def)

lemma returns_os_do [returns_intros]: "returns (os_do env c f)"
  unfolding os_do_def by (intro returns_intros) (simp add: returns_def split: sum.splits)

lemma returns_write_fd [returns_intros]: "returns (write_fd env p data)"
  by (simp add: returns_def write_fd_run split: option.splits)

lemma returns_TempFile [returns_intros]: "returns (TempFile env d p)"
  unfolding TempFile_def by (intro returns_intros) (simp add: returns_def Let_def)

lemma returns_ReadFile [returns_intros]: "returns (ReadFile env p)"
  unfolding ReadFile_def by (intro returns_intros) (simp add: returns_def split: option.splits)

lemma returns_on_error [returns_intros]:
  assumes "returns m" shows "returns (on_error d m)"
  unfolding returns_def
proof
  fix w
  from assms show "(\<exists>x w'. on_error d m w = (Ok x, w')) \<or> (\<exists>e w'. on_error d m w = (Err e, w'))"
    by (rule returnsE [where w = w]) (simp_all add: on_error_def)
qed

lemma returns_Rename [returns_intros]: "returns (Rename env a b)"
  by (simp add: Rename_def returns_intros)

lemma returns_Remove [returns_intros]: "returns (os_Remove env p)"
  by (simp add: os_Remove_def returns_intros)

lemma returns_AtomicWriteFile [returns_intros]: "returns (AtomicWriteFile env fn data perm)"
  unfolding AtomicWriteFile_def by (intro returns_intros)

lemma keeps_os_do:
  "(\<And>w c. I w \<Longrightarrow> I (w\<lparr>hist := hist w @ [c]\<rparr>)) \<Longrightarrow> (\<And>w fs. I w \<Longrightarrow> I (w\<lparr>files := fs\<rparr>)) \<Longrightarrow>
   keeps I (os_do env c f)"
  by (auto simp: keeps_def os_do_def bind_def perform_def Let_def split: option.splits sum.splits)

lemma keeps_on_error [keeps_intros]:
  assumes d: "keeps I d" and m: "keeps I m" shows "keeps I (on_error d m)"
proof (rule keepsI)
  fix w assume w: "I w"
  obtain r w' where mw: "m w = (r, w')" by (cases "m w")
  have "I w'" by (rule keeps_run [OF m mw w])
  then show "I (snd (on_error d m w))"
    by (cases r) (simp_all add: on_error_def mw keepsD [OF d])
qed

text \<open>An invariant that neither calls nor files touch is kept by the whole write.\<close>

lemma keeps_AtomicWriteFile:
  fixes I :: "'z world_scheme \<Rightarrow> bool"
  assumes h: "\<And>w c. I w \<Longrightarrow> I (w\<lparr>hist := hist w @ [c]\<rparr>)" and f: "\<And>w fs. I w \<Longrightarrow> I (w\<lparr>files := fs\<rparr>)"
  shows "keeps I (AtomicWriteFile env fn data perm)"
proof -
  have perf: "keeps I (perform env c)" for c by (rule keeps_perform) (rule h)
  have "keeps I (TempFile env d p)" for d p
    unfolding TempFile_def by (intro keeps_intros perf) (simp add: keeps_def Let_def f)
  moreover have "keeps I (write_fd env p b)" for p b
  proof (rule keepsI)
    fix w assume w: "I w"
    have "I (w\<lparr>hist := hist w @ [OsCall (OsWrite p)], files := fs\<rparr>)" for fs by (intro f h w)
    then show "I (snd (write_fd env p b w))" by (simp add: write_fd_run split: option.splits)
  qed
  ultimately show ?thesis
    unfolding AtomicWriteFile_def Rename_def os_Remove_def
    by (intro keeps_intros perf keeps_os_do h f)
qed

text \<open>The steps of the write up to the rename, on the temporary file.\<close>

definition prepare :: "'e env_scheme \<Rightarrow> string \<Rightarrow> string \<Rightarrow> nat \<Rightarrow> ('z world_scheme, unit) go" where
  "prepare env tmp data perm =
     bind (write_fd env tmp data) (\<lambda>_.
     bind (if goos env \<noteq> ''windows'' then perform env (OsCall (OsChmod tmp perm)) else ret ()) (\<lambda>_.
     bind (perform env (OsCall (OsSync tmp))) (\<lambda>_. perform env (OsCall (OsClose tmp)))))"

definition discard :: "'e env_scheme \<Rightarrow> string \<Rightarrow> ('z world_scheme, unit) go" where
  "discard env tmp = bind (ignore (perform env (OsCall (OsClose tmp)))) (\<lambda>_. ignore (os_Remove env tmp))"

lemma AtomicWriteFile_prepare:
  "AtomicWriteFile env fn data perm =
     bind (TempFile env (Dir fn) (Base fn @ ''.tmp'')) (\<lambda>tmp.
     on_error (discard env tmp) (bind (prepare env tmp data perm) (\<lambda>_. Rename env tmp fn)))"
  by (simp add: AtomicWriteFile_def prepare_def discard_def bind_assoc)

lemma keeps_prepare: "keeps (same_but tmp w0) (prepare env tmp data perm)"
  unfolding prepare_def by (intro keeps_intros keeps_same_but_perform keeps_same_but_write)

lemma prepare_Ok:
  assumes "prepare env tmp data perm w = (Ok x, w')" shows "files w' tmp = Some data"
  using assms
  by (auto simp: prepare_def bind_def write_fd_run perform_def ret_def Let_def split: option.splits if_splits)

lemma prepare_result: "\<exists>w'. prepare env tmp data perm w = (Ok (), w') \<or> (\<exists>e. prepare env tmp data perm w = (Err e, w'))"
  by (auto simp: prepare_def bind_def write_fd_run perform_def ret_def Let_def split: option.splits)

lemma discard_run:
  "\<exists>w'. discard env tmp w = (Ok (), w') \<and> same_but tmp w w' \<and>
     (err_of env (hist w') = None \<longrightarrow> files w' tmp = None)"
proof -
  let ?w1 = "w\<lparr>hist := hist w @ [OsCall (OsClose tmp)]\<rparr>"
  have "ignore (perform env (OsCall (OsClose tmp))) w = (Ok (), ?w1)"
    by (simp add: ignore_def go_simps perform_def Let_def split: option.splits)
  then have "discard env tmp w = ignore (os_Remove env tmp) ?w1" by (simp add: discard_def)
  then show ?thesis
    by (auto simp: ignore_def bind_def attempt_def ret_def Remove_run Let_def same_but_def split: option.splits)
qed

lemma AtomicWriteFile_atomic_run:
  assumes "tmp = str_of env (hist w @ [OsCall (OsTempFile (Dir fn) (Base fn @ ''.tmp''))])"
    "tmp \<noteq> fn" "AtomicWriteFile env fn data perm w = (r, w')"
  shows "r = Ok () \<and> files w' = (files w)(tmp := None, fn \<mapsto> data) \<or>
    (\<exists>e. r = Err e) \<and> (\<forall>p. p \<noteq> tmp \<longrightarrow> files w' p = files w p) \<and>
      (err_of env (hist w') = None \<longrightarrow> files w' tmp = None)"
proof -
  let ?c = "OsCall (OsTempFile (Dir fn) (Base fn @ ''.tmp''))"
  let ?h = "hist w @ [?c]"
  define w1 where "w1 = w\<lparr>hist := ?h, files := (files w)(tmp \<mapsto> [])\<rparr>"
  show ?thesis
  proof (cases "err_of env ?h")
    case (Some e)
    then show ?thesis using assms
      by (auto simp: AtomicWriteFile_def TempFile_def bind_def perform_def Let_def)
  next
    case None
    then have run: "AtomicWriteFile env fn data perm w =
        on_error (discard env tmp) (bind (prepare env tmp data perm) (\<lambda>_. Rename env tmp fn)) w1"
      using assms(1) by (simp add: AtomicWriteFile_prepare TempFile_def bind_def perform_def Let_def w1_def)
    have base: "same_but tmp w w1" by (simp add: same_but_def w1_def)
    have failed: ?thesis if "bind (prepare env tmp data perm) (\<lambda>_. Rename env tmp fn) w1 = (Err e, w2)"
      "same_but tmp w w2" for e w2
    proof -
      from that(1) have "(r, w') = (Err e, snd (discard env tmp w2))"
        using assms(3) run by (simp add: on_error_Err)
      with discard_run [of env tmp w2] that(2) show ?thesis by (auto simp: same_but_def)
    qed
    from prepare_result [of env tmp data perm w1] consider
      (ok) w2 where "prepare env tmp data perm w1 = (Ok (), w2)"
      | (err) e w2 where "prepare env tmp data perm w1 = (Err e, w2)" by blast
    then show ?thesis
    proof cases
      case err
      then show ?thesis using failed keeps_run [OF keeps_prepare err base] by simp
    next
      case ok
      have s2: "same_but tmp w w2" by (rule keeps_run [OF keeps_prepare ok base])
      have d: "files w2 tmp = Some data" by (rule prepare_Ok [OF ok])
      let ?w3 = "w2\<lparr>hist := hist w2 @ [OsCall (OsRename tmp fn)]\<rparr>"
      show ?thesis
      proof (cases "err_of env (hist ?w3)")
        case (Some e)
        then have "bind (prepare env tmp data perm) (\<lambda>_. Rename env tmp fn) w1 = (Err e, ?w3)"
          using ok by (simp add: Rename_run)
        with failed s2 show ?thesis by (simp add: same_but_def)
      next
        case None
        then have "(r, w') = (Ok (), ?w3\<lparr>files := (files w2)(tmp := None, fn \<mapsto> data)\<rparr>)"
          using assms(3) run ok d by (simp add: Rename_run on_error_Ok)
        with s2 show ?thesis by (auto simp: same_but_def fun_eq_iff)
      qed
    qed
  qed
qed

text \<open>\<open>ioutil.TempFile\<close> makes a new name.\<close>

definition fresh_temps :: "'e env_scheme \<Rightarrow> string \<Rightarrow> bool" where
  "fresh_temps env p \<longleftrightarrow> (\<forall>h d q. str_of env (h @ [OsCall (OsTempFile d q)]) \<noteq> p)"

lemma keeps_MkStateDir: "(\<And>x. keeps I (perform env x)) \<Longrightarrow> keeps I (MkStateDir env d)"
  unfolding MkStateDir_def checkStateDirPermission_def by (intro keeps_intros)

lemma AtomicWriteFile_calm:
  assumes "\<forall>h. err_of env h = None"
  shows "\<exists>w'. AtomicWriteFile env fn data perm w = (Ok (), w')"
  using assms
  by (simp add: AtomicWriteFile_def TempFile_def write_fd_run Rename_run on_error_def go_simps perform_def Let_def)

lemma MkStateDir_calm:
  assumes "\<forall>h. err_of env h = None" "\<forall>h. bool_of env h"
  shows "\<exists>w'. MkStateDir env d w = (Ok (), w')"
proof -
  have "perform env c v = (Ok (), v\<lparr>hist := hist v @ [c]\<rparr>)" for c and v :: "'b world_scheme"
    using assms(1) by simp
  with assms(2) show ?thesis
    by (simp add: MkStateDir_def checkStateDirPermission_def bind_def gets_def ret_def)
qed

section \<open>Properties\<close>

text \<open>
  C3. \<open>AtomicWriteFile\<close> is all or nothing, whatever fails: when it succeeds the file has
  exactly the new data and no other file has changed; when it fails every file but the
  temporary one, the target included, is as it was, and the temporary file is gone unless
  its removal failed too.
\<close>
theorem AtomicWriteFile_atomic:
  assumes "tmp = str_of env (hist w @ [OsCall (OsTempFile (Dir fn) (Base fn @ ''.tmp''))])"
    "tmp \<noteq> fn" "AtomicWriteFile env fn data perm w = (r, w')"
  shows "r = Ok () \<and> files w' = (files w)(tmp := None, fn \<mapsto> data) \<or>
    (\<exists>e. r = Err e) \<and> (\<forall>p. p \<noteq> tmp \<longrightarrow> files w' p = files w p) \<and>
      (err_of env (hist w') = None \<longrightarrow> files w' tmp = None)"
  using assms by (rule AtomicWriteFile_atomic_run)

theorem AtomicWriteFile_atomic_witness:
  "\<exists>r w'. AtomicWriteFile (env1\<lparr>str_of := \<lambda>h. ''/t/x.tmp1'', err_of := \<lambda>h. if length h = 5 then Some (ErrExt 28) else None\<rparr>)
      ''/t/x'' ''new'' 420 (world0\<lparr>files := [''/t/x'' \<mapsto> ''old'']\<rparr>) = (r, w') \<and>
     (r = Ok () \<or> files w' ''/t/x'' = Some ''old'')"
proof -
  let ?env = "env1\<lparr>str_of := \<lambda>h. ''/t/x.tmp1'', err_of := \<lambda>h. if length h = 5 then Some (ErrExt 28) else None\<rparr>"
  obtain r w' where r: "AtomicWriteFile ?env ''/t/x'' ''new'' 420 (world0\<lparr>files := [''/t/x'' \<mapsto> ''old'']\<rparr>) = (r, w')"
    by (metis surj_pair)
  from AtomicWriteFile_atomic [OF refl _ r] show ?thesis using r by auto
qed

text \<open>
  The check of the state directory never finds the permission it looks for: the constant
  is decimal 700 where octal was meant, which is more than nine bits. It always changes the
  mode, to the nine bits 0274: the owner may only write, the group may do everything and
  all others may read.
\<close>
theorem state_dir_is_exposed:
  assumes "Base dir = ''runetale''" "h = hist w @ [OsCall (OsStat dir)]" "err_of env h = None" "bool_of env h"
  shows "checkStateDirPermission env dir w = perform env (OsCall (OsChmod dir state_dir_perm)) (w\<lparr>hist := h\<rparr>) \<and>
    Perm state_dir_perm div 64 = 2 \<and> Perm state_dir_perm div 8 mod 8 = 7 \<and> Perm state_dir_perm mod 8 = 4"
proof -
  have "Perm m \<noteq> state_dir_perm" for m by (simp add: Perm_def state_dir_perm_def)
  then show ?thesis
    using assms by (simp add: checkStateDirPermission_def bind_def perform_def gets_def Let_def)
      (simp add: Perm_def state_dir_perm_def)
qed

theorem state_dir_is_exposed_witness:
  "checkStateDirPermission (env1\<lparr>bool_of := \<lambda>h. True\<rparr>) ''/var/lib/runetale'' world0 =
    (Ok (), world0\<lparr>hist := [OsCall (OsStat ''/var/lib/runetale''), OsCall (OsChmod ''/var/lib/runetale'' 700)]\<rparr>)"
proof -
  have "Base ''/var/lib/runetale'' = ''runetale''" by code_simp
  from state_dir_is_exposed [OF this refl, of "env1\<lparr>bool_of := \<lambda>h. True\<rparr>" world0] show ?thesis
    by (simp add: env1_def env0_def world0_def state_dir_perm_def)
qed

end
