(* ===== verification/Base64.thy ===== *)
theory Base64
  imports Hex_Key
begin

text \<open>
  What \<open>encoding/json\<close> uses of \<open>encoding/base64\<close> for a slice of bytes: the standard alphabet with
  padding. The decoder skips line ends and, being lenient, does not look at the bits that the
  last character has too many.
\<close>

definition b64_char :: "nat \<Rightarrow> char" where
  "b64_char n = (if n < 26 then char_of (65 + n) else if n < 52 then char_of (71 + n) else if n < 62 then char_of (n - 4)
     else if n = 62 then CHR ''+'' else CHR ''/'')"

definition b64_val :: "char \<Rightarrow> nat option" where
  "b64_val c = (let n = of_char c :: nat in
     if 65 \<le> n \<and> n \<le> 90 then Some (n - 65) else if 97 \<le> n \<and> n \<le> 122 then Some (n - 71)
     else if 48 \<le> n \<and> n \<le> 57 then Some (n + 4) else if n = 43 then Some 62 else if n = 47 then Some 63 else None)"

fun b64_encode :: "u8 list \<Rightarrow> string" where
  "b64_encode [] = []"
| "b64_encode [a] = (let x = unat a in [b64_char (x div 4), b64_char (x mod 4 * 16), CHR ''='', CHR ''=''])"
| "b64_encode [a, b] = (let x = unat a; y = unat b in
     [b64_char (x div 4), b64_char (x mod 4 * 16 + y div 16), b64_char (y mod 16 * 4), CHR ''=''])"
| "b64_encode (a # b # c # r) = (let x = unat a; y = unat b; z = unat c in
     b64_char (x div 4) # b64_char (x mod 4 * 16 + y div 16) # b64_char (y mod 16 * 4 + z div 64) # b64_char (z mod 64)
       # b64_encode r)"

fun b64_quanta :: "string \<Rightarrow> u8 list option" where
  "b64_quanta [] = Some []"
| "b64_quanta (a # b # c # d # r) = (case (b64_val a, b64_val b) of
       (Some x, Some y) \<Rightarrow>
         if c = CHR ''='' then
           (if d = CHR ''='' \<and> r = [] then Some [of_nat (x * 4 + y div 16)] else None)
         else (case b64_val c of None \<Rightarrow> None | Some z \<Rightarrow>
           if d = CHR ''='' then
             (if r = [] then Some [of_nat (x * 4 + y div 16), of_nat (y mod 16 * 16 + z div 4)] else None)
           else (case b64_val d of None \<Rightarrow> None | Some u \<Rightarrow>
             map_option (\<lambda>t. of_nat (x * 4 + y div 16) # of_nat (y mod 16 * 16 + z div 4) # of_nat (z mod 4 * 64 + u) # t)
               (b64_quanta r)))
     | _ \<Rightarrow> None)"
| "b64_quanta _ = None"

definition b64_decode :: "string \<Rightarrow> u8 list option" where
  "b64_decode s = b64_quanta (filter (\<lambda>c. c \<noteq> CHR 0x0A \<and> c \<noteq> CHR 0x0D) s)"

lemma b64_table: "\<forall>n \<in> set [0..<64]. b64_val (b64_char n) = Some n \<and> b64_char n \<noteq> CHR ''='' \<and>
    (let k = of_char (b64_char n) :: nat in 43 \<le> k \<and> k \<le> 122 \<and> k \<noteq> 92)"
  by code_simp

lemma b64_val_char [simp]: "n < 64 \<Longrightarrow> b64_val (b64_char n) = Some n"
  and b64_char_pad [simp]: "n < 64 \<Longrightarrow> b64_char n \<noteq> CHR ''=''"
  using b64_table by simp_all

lemma unat_u8 [simp]: "unat (a :: u8) < 256"
  using unsigned_less [of a, where 'a = nat] by simp

text \<open>The six-bit digits of bytes, and the bytes of the digits.\<close>

lemma six_bits:
  assumes "x < 256" "y < 256" "z < (256 :: nat)"
  shows "x div 4 < 64" "x mod 4 * 16 < 64" "x mod 4 * 16 + y div 16 < 64" "y mod 16 * 4 < 64" "y mod 16 * 4 + z div 64 < 64"
    "z mod 64 < 64" "x div 4 * 4 + x mod 4 * 16 div 16 = x" "x div 4 * 4 + (x mod 4 * 16 + y div 16) div 16 = x"
    "(x mod 4 * 16 + y div 16) mod 16 * 16 + y mod 16 * 4 div 4 = y"
    "(x mod 4 * 16 + y div 16) mod 16 * 16 + (y mod 16 * 4 + z div 64) div 4 = y"
    "(y mod 16 * 4 + z div 64) mod 4 * 64 + z mod 64 = z"
proof -
  have y: "y div 16 < 16" and z: "z div 64 < 4" and x: "x mod 4 < 4" "y mod 16 < 16" using assms by simp_all
  show "x div 4 < 64" "x mod 4 * 16 < 64" "x mod 4 * 16 + y div 16 < 64" "y mod 16 * 4 < 64" "y mod 16 * 4 + z div 64 < 64"
    "z mod 64 < 64" "x div 4 * 4 + x mod 4 * 16 div 16 = x" using assms(1) x y z by (simp_all, (linarith+)?)
  show "x div 4 * 4 + (x mod 4 * 16 + y div 16) div 16 = x" "(y mod 16 * 4 + z div 64) mod 4 * 64 + z mod 64 = z"
    "(x mod 4 * 16 + y div 16) mod 16 * 16 + y mod 16 * 4 div 4 = y"
    "(x mod 4 * 16 + y div 16) mod 16 * 16 + (y mod 16 * 4 + z div 64) div 4 = y"
    using y z by (simp_all add: mod_add_left_eq [symmetric])
qed

lemma b64_quanta_digits:
  assumes "p < 64" "q < 64" "r < 64" "t < 64"
  shows "b64_quanta (b64_char p # b64_char q # b64_char r # b64_char t # s) = map_option (\<lambda>u.
      of_nat (p * 4 + q div 16) # of_nat (q mod 16 * 16 + r div 4) # of_nat (r mod 4 * 64 + t) # u) (b64_quanta s)"
    "b64_quanta [b64_char p, b64_char q, b64_char r, CHR ''=''] =
      Some [of_nat (p * 4 + q div 16), of_nat (q mod 16 * 16 + r div 4)]"
    "b64_quanta [b64_char p, b64_char q, CHR ''='', CHR ''=''] = Some [of_nat (p * 4 + q div 16)]"
  using assms by simp_all

lemma b64_quanta_encode: "b64_quanta (b64_encode k) = Some k"
proof (induction k rule: b64_encode.induct)
  case (2 a)
  note d = six_bits [OF unat_u8 [of a] unat_u8 [of a] unat_u8 [of a]]
  show ?case unfolding b64_encode.simps Let_def b64_quanta_digits(3) [OF d(1,2,1,1)] d(7) by simp
next
  case (3 a b)
  note d = six_bits [OF unat_u8 [of a] unat_u8 [of b] unat_u8 [of b]]
  show ?case unfolding b64_encode.simps Let_def b64_quanta_digits(2) [OF d(1,3,4,1)] d(8,9) by simp
next
  case (4 a b c r)
  note d = six_bits [OF unat_u8 [of a] unat_u8 [of b] unat_u8 [of c]]
  show ?case unfolding b64_encode.simps Let_def b64_quanta_digits(1) [OF d(1,3,5,6)] d(8,10,11) using "4.IH" by simp
qed simp

text \<open>The characters of an encoding are printed in a JSON string as they are.\<close>

definition b64_plain :: "char \<Rightarrow> bool" where
  "b64_plain c = (let n = of_char c :: nat in 43 \<le> n \<and> n \<le> 122 \<and> n \<noteq> 92)"

lemma b64_encode_chars: "list_all b64_plain (b64_encode k)"
proof -
  have t: "b64_plain (b64_char n)" if "n < 64" for n
    using b64_table that by (simp add: b64_plain_def)
  have p: "b64_plain CHR ''=''" by code_simp
  show ?thesis
  proof (induction k rule: b64_encode.induct)
    case (2 a)
    from six_bits [of "unat a" 0 0] show ?case by (simp add: Let_def t p)
  next
    case (3 a b)
    from six_bits [of "unat a" "unat b" 0] show ?case by (simp add: Let_def t p)
  next
    case (4 a b c r)
    from six_bits [of "unat a" "unat b" "unat c"] "4.IH" show ?case by (simp add: Let_def t)
  qed simp
qed

lemma b64_decode_encode [simp]: "b64_decode (b64_encode k) = Some k"
proof -
  have "c \<noteq> CHR 0x0A \<and> c \<noteq> CHR 0x0D" if "c \<in> set (b64_encode k)" for c
    using b64_encode_chars [of k] that by (auto simp: list_all_iff b64_plain_def Let_def)
  then have "filter (\<lambda>c. c \<noteq> CHR 0x0A \<and> c \<noteq> CHR 0x0D) (b64_encode k) = b64_encode k"
    by (simp add: filter_id_conv)
  then show ?thesis by (simp add: b64_decode_def b64_quanta_encode)
qed

end
