(* ===== verification/Json.thy ===== *)
theory Json
  imports Base64 Go_Strings "HOL-Library.Char_ord" "HOL-Library.List_Lexorder"
begin

text \<open>
  What the program uses of \<open>encoding/json\<close>: the text of a string and how it is read, the tokens
  of a text, and the values they form. A text is a string of bytes. A string is written with the
  escapes of \<open>json.Marshal\<close>, and a byte that is not part of a UTF-8 sequence is read and written
  as the replacement character. The reader is the scanner's push-down automaton over tokens.
\<close>

section \<open>UTF-8\<close>

definition cont :: "char \<Rightarrow> bool" where
  "cont c = (let n = of_char c :: nat in 128 \<le> n \<and> n \<le> 191)"

text \<open>The size of the sequence at the front, if it is a valid one of more than one byte.\<close>

fun rune_size :: "string \<Rightarrow> nat option" where
  "rune_size (a # b # s) = (let x = of_char a :: nat; y = of_char b :: nat in
     if 194 \<le> x \<and> x \<le> 223 \<and> cont b then Some 2
     else if (x = 224 \<and> 160 \<le> y \<and> y \<le> 191 \<or> 225 \<le> x \<and> x \<le> 236 \<and> cont b \<or> x = 237 \<and> 128 \<le> y \<and> y \<le> 159 \<or>
         238 \<le> x \<and> x \<le> 239 \<and> cont b) then
       (case s of c # _ \<Rightarrow> if cont c then Some 3 else None | [] \<Rightarrow> None)
     else if (x = 240 \<and> 144 \<le> y \<and> y \<le> 191 \<or> 241 \<le> x \<and> x \<le> 243 \<and> cont b \<or> x = 244 \<and> 128 \<le> y \<and> y \<le> 143) then
       (case s of c # d # _ \<Rightarrow> if cont c \<and> cont d then Some 4 else None | _ \<Rightarrow> None)
     else None)"
| "rune_size _ = None"

definition replacement :: string where
  "replacement = [CHR 0xEF, CHR 0xBF, CHR 0xBD]"

definition utf8 :: "nat \<Rightarrow> string" where
  "utf8 r = (if r < 128 then [char_of r]
     else if r < 2048 then [char_of (192 + r div 64), char_of (128 + r mod 64)]
     else if 1114111 < r \<or> 55296 \<le> r \<and> r \<le> 57343 then replacement
     else if r < 65536 then [char_of (224 + r div 4096), char_of (128 + r div 64 mod 64), char_of (128 + r mod 64)]
     else [char_of (240 + r div 262144), char_of (128 + r div 4096 mod 64), char_of (128 + r div 64 mod 64),
       char_of (128 + r mod 64)])"

definition ascii :: "char \<Rightarrow> bool" where
  "ascii c = ((of_char c :: nat) < 128)"

lemma rune_size_bounds: "rune_size s = Some n \<Longrightarrow> 2 \<le> n \<and> n \<le> length s"
  by (cases s rule: rune_size.cases) (auto simp: Let_def split: if_splits list.splits)

text \<open>A string as it is read: every byte that is not part of a valid sequence is replaced.\<close>

function sane :: "string \<Rightarrow> string" where
  "sane [] = []"
| "sane (c # s) = (if ascii c then c # sane s else case rune_size (c # s) of
     Some n \<Rightarrow> take n (c # s) @ sane (drop n (c # s)) | None \<Rightarrow> replacement @ sane s)"
  by pat_completeness auto
termination
  by (relation "measure length") (auto dest!: rune_size_bounds)

declare sane.simps [simp del]

definition valid :: "string \<Rightarrow> bool" where
  "valid s \<longleftrightarrow> sane s = s"

section \<open>Strings\<close>

definition json_hex :: "nat \<Rightarrow> char" where
  "json_hex n = (if n < 10 then char_of (48 + n) else char_of (87 + n))"

definition hex_val :: "char \<Rightarrow> nat option" where
  "hex_val c = (let n = of_char c :: nat in
     if 48 \<le> n \<and> n \<le> 57 then Some (n - 48) else if 97 \<le> n \<and> n \<le> 102 then Some (n - 87)
     else if 65 \<le> n \<and> n \<le> 70 then Some (n - 55) else None)"

text \<open>The four digits after \<open>\u\<close>, and the rest.\<close>

fun hex4 :: "string \<Rightarrow> (nat \<times> string) option" where
  "hex4 (a # b # c # d # s) = (case (hex_val a, hex_val b, hex_val c, hex_val d) of
       (Some p, Some q, Some r, Some t) \<Rightarrow> Some (p * 4096 + q * 256 + r * 16 + t, s) | _ \<Rightarrow> None)"
| "hex4 _ = None"

text \<open>The bytes that are written as they are, and the text of the others.\<close>

definition html_safe :: "char \<Rightarrow> bool" where
  "html_safe c = (32 \<le> (of_char c :: nat) \<and> ascii c \<and> c \<notin> {CHR 0x22, CHR 0x5C, CHR ''<'', CHR ''>'', CHR ''&''})"

definition quote_ascii :: "char \<Rightarrow> string" where
  "quote_ascii c =
     (if html_safe c then [c] else if c = CHR 0x22 \<or> c = CHR 0x5C then [CHR 0x5C, c]
      else if c = CHR 0x0A then [CHR 0x5C, CHR ''n''] else if c = CHR 0x0D then [CHR 0x5C, CHR ''r'']
      else if c = CHR 0x09 then [CHR 0x5C, CHR ''t'']
      else [CHR 0x5C, CHR ''u'', CHR ''0'', CHR ''0'', json_hex (of_char c div 16), json_hex (of_char c mod 16)])"

text \<open>The line separators are escaped although they are valid.\<close>

definition line_sep :: "string \<Rightarrow> bool" where
  "line_sep s = (s = [CHR 0xE2, CHR 0x80, CHR 0xA8] \<or> s = [CHR 0xE2, CHR 0x80, CHR 0xA9])"

function quote :: "string \<Rightarrow> string" where
  "quote [] = []"
| "quote (c # s) = (if ascii c then quote_ascii c @ quote s else case rune_size (c # s) of
     None \<Rightarrow> (CHR 0x5C # ''ufffd'') @ quote s
   | Some n \<Rightarrow> let r = take n (c # s) in
       (if line_sep r then CHR 0x5C # ''u202'' @ [json_hex (of_char (last r) mod 16)] else r) @ quote (drop n (c # s)))"
  by pat_completeness auto
termination
  by (relation "measure length") (auto dest!: rune_size_bounds)

declare quote.simps [simp del]

definition simple_escape :: "char \<Rightarrow> char option" where
  "simple_escape c = (if c \<in> {CHR 0x22, CHR 0x5C, CHR ''/''} then Some c else if c = CHR ''b'' then Some CHR 0x08
     else if c = CHR ''f'' then Some CHR 0x0C else if c = CHR ''n'' then Some CHR 0x0A
     else if c = CHR ''r'' then Some CHR 0x0D else if c = CHR ''t'' then Some CHR 0x09 else None)"

text \<open>What follows the first of two surrogates: the code point of the pair, if the second comes next.\<close>

definition pair_of :: "nat \<Rightarrow> string \<Rightarrow> (nat \<times> string) option" where
  "pair_of r s = (if take 2 s = [CHR 0x5C, CHR ''u''] then (case hex4 (drop 2 s) of
       Some (r', s') \<Rightarrow> if 55296 \<le> r \<and> r < 56320 \<and> 56320 \<le> r' \<and> r' < 57344
         then Some ((r - 55296) * 1024 + (r' - 56320) + 65536, s') else None
     | None \<Rightarrow> None) else None)"

lemma hex4_length: "hex4 s = Some (r, t) \<Longrightarrow> length t < length s"
  by (cases s rule: hex4.cases) (auto split: option.splits prod.splits)

lemma pair_of_length: "pair_of r s = Some (r', t) \<Longrightarrow> length t < length s"
  using hex4_length [of "drop 2 s" _ t]
  by (auto simp: pair_of_def split: option.splits if_splits)

text \<open>Reading a string behind its opening quote: the string and the text behind the closing one.\<close>

definition put :: "string \<Rightarrow> (string \<times> string) option \<Rightarrow> (string \<times> string) option" where
  "put p r = map_option (\<lambda>(x, t). (p @ x, t)) r"

function lex_string :: "string \<Rightarrow> (string \<times> string) option" where
  "lex_string [] = None"
| "lex_string (c # s) =
     (if c = CHR 0x22 then Some ([], s)
      else if c = CHR 0x5C then
        (case s of [] \<Rightarrow> None
         | e # t \<Rightarrow>
           if e = CHR ''u'' then (case hex4 t of None \<Rightarrow> None
             | Some (r, t') \<Rightarrow>
               if 55296 \<le> r \<and> r \<le> 57343 then
                 (case pair_of r t' of Some (r', t'') \<Rightarrow> put (utf8 r') (lex_string t'')
                  | None \<Rightarrow> put replacement (lex_string t'))
               else put (utf8 r) (lex_string t'))
           else (case simple_escape e of None \<Rightarrow> None | Some d \<Rightarrow> put [d] (lex_string t)))
      else if (of_char c :: nat) < 32 then None
      else if ascii c then put [c] (lex_string s)
      else (case rune_size (c # s) of
          Some n \<Rightarrow> put (take n (c # s)) (lex_string (drop n (c # s)))
        | None \<Rightarrow> put replacement (lex_string s)))"
  by pat_completeness auto
termination
  by (relation "measure length") (auto dest!: rune_size_bounds hex4_length pair_of_length)

declare lex_string.simps [simp del]

section \<open>A string that is written is read back\<close>

lemma rune_size_take: "rune_size s = Some n \<Longrightarrow> rune_size (take n s @ t) = Some n"
  by (cases s rule: rune_size.cases) (auto simp: Let_def split: if_splits list.splits)

lemma rune_size_not_ascii: "rune_size (c # s) = Some n \<Longrightarrow> \<not> ascii c"
  by (cases s) (auto simp: Let_def ascii_def split: if_splits)

lemma hex_table: "\<forall>n \<in> set [0..<16]. hex_val (json_hex n) = Some n"
  by code_simp

lemma hex_val_hex [simp]: "n < 16 \<Longrightarrow> hex_val (json_hex n) = Some n"
  using hex_table by simp

lemma put_Some [simp]: "put p (Some (x, t)) = Some (p @ x, t)"
  by (simp add: put_def)

lemma lex_u:
  "hex4 t = Some (r, t') \<Longrightarrow> \<not> (55296 \<le> r \<and> r \<le> 57343) \<Longrightarrow>
   lex_string (CHR 0x5C # CHR ''u'' # t) = put (utf8 r) (lex_string t')"
  by (subst lex_string.simps) auto

lemma lex_quote_ascii:
  assumes "ascii c"
  shows "lex_string (quote_ascii c @ t) = put [c] (lex_string t)"
proof -
  have n: "(of_char c :: nat) < 128" using assms by (simp add: ascii_def)
  have hex: "lex_string ([CHR 0x5C, CHR ''u'', CHR ''0'', CHR ''0'', json_hex (of_char c div 16), json_hex (of_char c mod 16)] @ t) =
      put [c] (lex_string t)"
  proof -
    have "hex_val CHR ''0'' = Some 0" by code_simp
    moreover have "(of_char c :: nat) div 16 < 16" using n by simp
    moreover have "(of_char c :: nat) div 16 * 16 + of_char c mod 16 = of_char c" by simp
    ultimately have "hex4 ([CHR ''0'', CHR ''0'', json_hex (of_char c div 16), json_hex (of_char c mod 16)] @ t) = Some (of_char c, t)"
      by simp
    from lex_u [OF this] n show ?thesis by (simp add: utf8_def)
  qed
  have esc: "lex_string (CHR 0x5C # e # t) = put [d] (lex_string t)" if "simple_escape e = Some d" "e \<noteq> CHR ''u''" for d e
    using that by (subst lex_string.simps) simp
  have q: "simple_escape CHR 0x22 = Some CHR 0x22" "simple_escape CHR 0x5C = Some CHR 0x5C"
    "simple_escape CHR ''n'' = Some CHR 0x0A" "simple_escape CHR ''r'' = Some CHR 0x0D" "simple_escape CHR ''t'' = Some CHR 0x09"
    by (code_simp, code_simp, code_simp, code_simp, code_simp)
  have safe: "lex_string (c # t) = put [c] (lex_string t)" if "html_safe c"
    using that by (subst lex_string.simps) (auto simp: html_safe_def Let_def)
  show ?thesis
    using hex safe esc [OF q(1)] esc [OF q(2)] esc [OF q(3)] esc [OF q(4)] esc [OF q(5)]
    by (auto simp: quote_ascii_def)
qed

lemma lex_replacement: "lex_string ((CHR 0x5C # ''ufffd'') @ t) = put replacement (lex_string t)"
proof -
  have "hex4 (''fffd'' @ t) = Some (65533, t)"
    by (simp add: hex_val_def)
  moreover have "utf8 65533 = replacement" by code_simp
  ultimately show ?thesis using lex_u [of "''fffd'' @ t" 65533 t] by simp
qed

lemma lex_line_sep:
  assumes "line_sep r"
  shows "lex_string ((CHR 0x5C # ''u202'' @ [json_hex (of_char (last r) mod 16)]) @ t) = put r (lex_string t)"
proof -
  have "hex4 (''2028'' @ t) = Some (8232, t)" "hex4 (''2029'' @ t) = Some (8233, t)"
    by (simp_all add: hex_val_def)
  moreover have "utf8 8232 = [CHR 0xE2, CHR 0x80, CHR 0xA8]" "utf8 8233 = [CHR 0xE2, CHR 0x80, CHR 0xA9]"
    "json_hex (of_char CHR 0xA8 mod 16) = CHR ''8''" "json_hex (of_char CHR 0xA9 mod 16) = CHR ''9''"
    by (code_simp, code_simp, code_simp, code_simp)
  ultimately show ?thesis using assms lex_u [of "''2028'' @ t" 8232 t] lex_u [of "''2029'' @ t" 8233 t]
    by (auto simp: line_sep_def)
qed

lemma lex_sequence:
  assumes "rune_size s = Some n"
  shows "lex_string (take n s @ t) = put (take n s) (lex_string t)"
proof -
  obtain c s' where s: "s = c # s'" using assms by (cases s) auto
  have n: "2 \<le> n \<and> n \<le> length s" by (rule rune_size_bounds [OF assms])
  have c: "\<not> ascii c" using assms rune_size_not_ascii s by blast
  have c': "c \<noteq> CHR 0x22" "c \<noteq> CHR 0x5C" "\<not> (of_char c :: nat) < 32" using c by (auto simp: ascii_def)
  have r: "rune_size (take n s @ t) = Some n" by (rule rune_size_take [OF assms])
  have t: "take n s @ t = c # (take (n - 1) s' @ t)" using s n by (cases n) simp_all
  have "lex_string (take n s @ t) = put (take n (take n s @ t)) (lex_string (drop n (take n s @ t)))"
    using r c c' unfolding t by (subst lex_string.simps) simp
  with n show ?thesis by simp
qed

lemma lex_quote: "lex_string (quote s @ CHR 0x22 # t) = Some (sane s, t)"
proof (induction s rule: quote.induct)
  case 1
  show ?case by (simp add: quote.simps sane.simps lex_string.simps)
next
  case (2 c s)
  show ?case
  proof (cases "ascii c")
    case True
    with 2 lex_quote_ascii [OF True] show ?thesis by (simp add: quote.simps(2) sane.simps(2))
  next
    case False
    show ?thesis
    proof (cases "rune_size (c # s)")
      case None
      with False 2 lex_replacement [of "quote s @ CHR 0x22 # t"] show ?thesis by (simp add: quote.simps(2) sane.simps(2))
    next
      case (Some n)
      have ih: "lex_string (quote (drop n (c # s)) @ CHR 0x22 # t) = Some (sane (drop n (c # s)), t)"
        using 2(3) [OF False Some refl] by simp
      show ?thesis
      proof (cases "line_sep (take n (c # s))")
        case True
        with False Some ih lex_line_sep [OF True, of "quote (drop n (c # s)) @ CHR 0x22 # t"] show ?thesis
          by (simp add: quote.simps(2) sane.simps(2) Let_def)
      next
        case nl: False
        with False Some ih lex_sequence [OF Some, of "quote (drop n (c # s)) @ CHR 0x22 # t"] show ?thesis
          by (simp add: quote.simps(2) sane.simps(2) Let_def)
      qed
    qed
  qed
qed

section \<open>What is read is valid\<close>

definition piece :: "string \<Rightarrow> bool" where
  "piece p \<longleftrightarrow> (\<exists>c. p = [c] \<and> ascii c) \<or> rune_size p = Some (length p)"

lemma sane_piece: "piece p \<Longrightarrow> sane (p @ t) = p @ sane t"
proof -
  assume p: "piece p"
  show "sane (p @ t) = p @ sane t"
  proof (cases "\<exists>c. p = [c] \<and> ascii c")
    case True
    then show ?thesis by (auto simp: sane.simps(2))
  next
    case False
    with p have r: "rune_size p = Some (length p)" by (auto simp: piece_def)
    then obtain c p' where c: "p = c # p'" by (cases p) auto
    have "rune_size (p @ t) = Some (length p)" using rune_size_take [OF r, of t] by simp
    with c rune_size_not_ascii [OF r [unfolded c]] show ?thesis by (simp add: sane.simps(2))
  qed
qed

lemma piece_valid: "piece p \<Longrightarrow> valid x \<Longrightarrow> valid (p @ x)"
  by (simp add: valid_def sane_piece)

lemma piece_take: "rune_size s = Some n \<Longrightarrow> piece (take n s)"
  using rune_size_take [of s n "[]"] rune_size_bounds [of s n] by (simp add: piece_def)

lemma piece_replacement: "piece replacement"
proof -
  have "rune_size replacement = Some (length replacement)" by code_simp
  then show ?thesis by (simp add: piece_def)
qed

lemma piece_utf8: "piece (utf8 r)"
proof (cases "1114111 < r \<or> 55296 \<le> r \<and> r \<le> 57343")
  case True
  then show ?thesis using piece_replacement by (auto simp: utf8_def)
next
  case False
  consider "r < 128" | "128 \<le> r" "r < 2048" | "2048 \<le> r" "r < 65536" | "65536 \<le> r" by linarith
  then show ?thesis
  proof cases
    case 1
    then show ?thesis by (simp add: utf8_def piece_def ascii_def)
  next
    case 2
    then have "2 \<le> r div 64" "r div 64 < 32" by auto
    with 2 show ?thesis by (simp add: utf8_def piece_def Let_def cont_def)
  next
    case 3
    define x y z where "x = r div 4096" and "y = r div 64 mod 64" and "z = r mod 64"
    have "r = r div 64 * 64 + z" "r div 64 = r div 64 div 64 * 64 + y"
      unfolding z_def y_def by (simp_all only: div_mult_mod_eq)
    moreover have "r div 64 div 64 = x" by (simp add: x_def div_mult2_eq [symmetric])
    ultimately have r: "r = x * 4096 + y * 64 + z" by linarith
    have b: "x < 16" "y < 64" "z < 64" using 3 by (auto simp: x_def y_def z_def)
    have "utf8 r = [char_of (224 + x), char_of (128 + y), char_of (128 + z)]"
      using 3 False by (auto simp: utf8_def x_def y_def z_def)
    moreover have "x = 0 \<Longrightarrow> 32 \<le> y" "x = 13 \<Longrightarrow> y < 32" using r b 3 False by auto
    ultimately show ?thesis using b by (auto simp: piece_def Let_def cont_def)
  next
    case 4
    define x y z u where "x = r div 262144" and "y = r div 4096 mod 64" and "z = r div 64 mod 64" and "u = r mod 64"
    have "r = r div 64 * 64 + u" "r div 64 = r div 64 div 64 * 64 + z" "r div 4096 = r div 4096 div 64 * 64 + y"
      unfolding u_def y_def z_def by (simp_all only: div_mult_mod_eq)
    moreover have "r div 64 div 64 = r div 4096" "r div 4096 div 64 = x"
      by (simp_all add: x_def div_mult2_eq [symmetric])
    ultimately have r: "r = x * 262144 + y * 4096 + z * 64 + u" by linarith
    have b: "x < 5" "y < 64" "z < 64" "u < 64" using 4 False by (auto simp: x_def y_def z_def u_def)
    have "utf8 r = [char_of (240 + x), char_of (128 + y), char_of (128 + z), char_of (128 + u)]"
      using 4 False by (simp add: utf8_def x_def y_def z_def u_def)
    moreover have "x = 0 \<Longrightarrow> 16 \<le> y" "x = 4 \<Longrightarrow> y < 16" using r b 4 False by auto
    moreover have "x = 0 \<or> Suc 0 \<le> x" "x = 4 \<or> x \<le> 3" using b by linarith+
    ultimately show ?thesis using b by (auto simp: piece_def Let_def cont_def)
  qed
qed

lemma piece_escape: "simple_escape e = Some d \<Longrightarrow> piece [d]"
  by (auto simp: simple_escape_def piece_def ascii_def split: if_splits)

lemma put_eq_Some: "put p r = Some (x, t) \<longleftrightarrow> (\<exists>y. r = Some (y, t) \<and> x = p @ y)"
  by (auto simp: put_def)

lemma lex_string_valid: "lex_string s = Some (x, t) \<Longrightarrow> valid x \<and> length t < length s"
proof (induction s arbitrary: x t rule: lex_string.induct)
  case (2 c s)
  note [simp] = put_eq_Some
  note p = piece_valid [OF piece_utf8] piece_valid [OF piece_replacement] piece_valid [OF piece_escape, simplified]
  show ?case
  proof (cases "c = CHR 0x22")
    case True
    with "2.prems" show ?thesis by (simp add: lex_string.simps(2) valid_def sane.simps)
  next
    case q: False
    show ?thesis
    proof (cases "c = CHR 0x5C")
      case True
      then obtain e u where s: "s = e # u" using "2.prems" by (cases s) (simp_all add: lex_string.simps(2))
      show ?thesis
      proof (cases "e = CHR ''u''")
        case False
        with "2.prems" True s obtain d y where d: "simple_escape e = Some d" "lex_string u = Some (y, t)" "x = d # y"
          by (auto simp: lex_string.simps(2) split: option.splits)
        from "2.IH"(4) [OF q True s False d(1,2)] d p(3) s show ?thesis by auto
      next
        case u: True
        with "2.prems" True s obtain r u' where h: "hex4 u = Some (r, u')"
          by (auto simp: lex_string.simps(2) split: option.splits prod.splits)
        note l = hex4_length [OF h]
        show ?thesis
        proof (cases "55296 \<le> r \<and> r \<le> 57343")
          case False
          with "2.prems" True s u h obtain y where y: "lex_string u' = Some (y, t)" "x = utf8 r @ y"
            by (auto simp: lex_string.simps(2))
          from "2.IH"(3) [OF q True s u h refl False y(1)] y p(1) l s show ?thesis by auto
        next
          case sur: True
          show ?thesis
          proof (cases "pair_of r u'")
            case None
            with "2.prems" True s u h sur obtain y where y: "lex_string u' = Some (y, t)" "x = replacement @ y"
              by (auto simp: lex_string.simps(2))
            from "2.IH"(1) [OF q True s u h refl sur None y(1)] y p(2) l s show ?thesis by auto
          next
            case (Some a)
            obtain r' u'' where a: "a = (r', u'')" by (cases a)
            with "2.prems" True s u h sur Some obtain y where y: "lex_string u'' = Some (y, t)" "x = utf8 r' @ y"
              by (auto simp: lex_string.simps(2))
            from "2.IH"(2) [OF q True s u h refl sur Some a [symmetric] y(1)] y p(1) l s pair_of_length [OF Some [unfolded a]]
            show ?thesis by auto
          qed
        qed
      qed
    next
      case b: False
      have g: "\<not> (of_char c :: nat) < 32" using "2.prems" q b by (auto simp: lex_string.simps(2) split: if_splits)
      show ?thesis
      proof (cases "ascii c")
        case True
        with "2.prems" q b g obtain y where y: "lex_string s = Some (y, t)" "x = c # y"
          by (auto simp: lex_string.simps(2))
        have "piece [c]" using True by (simp add: piece_def)
        from "2.IH"(5) [OF q b g True y(1)] y piece_valid [OF this] show ?thesis by auto
      next
        case na: False
        show ?thesis
        proof (cases "rune_size (c # s)")
          case None
          with "2.prems" q b g na obtain y where y: "lex_string s = Some (y, t)" "x = replacement @ y"
            by (auto simp: lex_string.simps(2))
          from "2.IH"(6) [OF q b g na None y(1)] y p(2) show ?thesis by auto
        next
          case (Some n)
          with "2.prems" q b g na obtain y where y: "lex_string (drop n (c # s)) = Some (y, t)" "x = take n (c # s) @ y"
            by (auto simp: lex_string.simps(2))
          from "2.IH"(7) [OF q b g na Some y(1)] y piece_valid [OF piece_take [OF Some]] rune_size_bounds [OF Some]
          show ?thesis by auto
        qed
      qed
    qed
  qed
qed (simp add: lex_string.simps)

end
