(* ===== verification/Json_Value.thy ===== *)
theory Json_Value
  imports Json
begin

text \<open>
  Values of a JSON text: the tokens of a text, the automaton that puts them together, with its
  limit of nesting, and the indented text of \<open>json.MarshalIndent\<close>, which is read back as the
  value it was made of.
\<close>

section \<open>Tokens\<close>

datatype token = TObj | TObjEnd | TArr | TArrEnd | TColon | TComma | TStr string | TNum string | TTrue | TFalse | TNull

definition is_digit :: "char \<Rightarrow> bool" where
  "is_digit c = (digit_val c \<noteq> None)"

definition blank :: "char \<Rightarrow> bool" where
  "blank c = (c \<in> {CHR '' '', CHR 0x09, CHR 0x0A, CHR 0x0D})"

text \<open>The parts of a number, each with the text behind it: digits, fraction, exponent.\<close>

definition lex_digits :: "string \<Rightarrow> (string \<times> string) option" where
  "lex_digits s = (let d = takeWhile is_digit s in if d = [] then None else Some (d, drop (length d) s))"

definition lex_int :: "string \<Rightarrow> (string \<times> string) option" where
  "lex_int s = (case s of CHR ''0'' # t \<Rightarrow> Some (''0'', t) | _ \<Rightarrow> lex_digits s)"

definition lex_frac :: "string \<Rightarrow> (string \<times> string) option" where
  "lex_frac s = (if take 1 s = ''.'' then put ''.'' (lex_digits (drop 1 s)) else Some ([], s))"

definition lex_exp :: "string \<Rightarrow> (string \<times> string) option" where
  "lex_exp s = (if take 1 s = ''e'' \<or> take 1 s = ''E'' then
       (let t = drop 1 s; sg = (if take 1 t = ''+'' \<or> take 1 t = ''-'' then take 1 t else []) in
        put (take 1 s @ sg) (lex_digits (drop (length sg) t)))
     else Some ([], s))"

definition lex_number :: "string \<Rightarrow> (string \<times> string) option" where
  "lex_number s = (let sg = (if take 1 s = ''-'' then ''-'' else []) in
     case lex_int (drop (length sg) s) of None \<Rightarrow> None | Some (i, t) \<Rightarrow>
     (case lex_frac t of None \<Rightarrow> None | Some (f, u) \<Rightarrow> put (sg @ i @ f) (lex_exp u)))"

definition punct :: "char \<Rightarrow> token option" where
  "punct c = (if c = CHR ''{'' then Some TObj else if c = CHR ''}'' then Some TObjEnd else if c = CHR ''['' then Some TArr
     else if c = CHR '']'' then Some TArrEnd else if c = CHR '':'' then Some TColon else if c = CHR '','' then Some TComma
     else None)"

lemma lex_digits_length: "lex_digits s = Some (d, t) \<Longrightarrow> d \<noteq> [] \<and> length t < length s"
  by (cases s) (auto simp: lex_digits_def Let_def split: if_splits)

lemma lex_int_length: "lex_int s = Some (d, t) \<Longrightarrow> length t < length s"
  using lex_digits_length [of s d t] by (auto simp: lex_int_def split: list.splits char.splits bool.splits)

lemma lex_frac_length: "lex_frac s = Some (d, t) \<Longrightarrow> length t \<le> length s"
  by (auto simp: lex_frac_def put_eq_Some dest: lex_digits_length split: if_splits)

lemma lex_exp_length: "lex_exp s = Some (d, t) \<Longrightarrow> length t \<le> length s"
  by (auto simp: lex_exp_def put_eq_Some Let_def dest!: lex_digits_length split: if_splits)

lemma lex_number_length: "lex_number s = Some (d, t) \<Longrightarrow> length t < length s"
  by (fastforce simp: lex_number_def put_eq_Some Let_def split: option.splits
      dest: lex_int_length lex_frac_length lex_exp_length)

definition tok :: "token \<Rightarrow> token list option \<Rightarrow> token list option" where
  "tok x r = map_option (Cons x) r"

function tokens :: "string \<Rightarrow> token list option" where
  "tokens [] = Some []"
| "tokens (c # s) =
     (if blank c then tokens s
      else case punct c of Some p \<Rightarrow> tok p (tokens s)
      | None \<Rightarrow>
        if c = CHR 0x22 then (case lex_string s of None \<Rightarrow> None | Some (x, t) \<Rightarrow> tok (TStr x) (tokens t))
        else if is_digit c \<or> c = CHR ''-'' then
          (case lex_number (c # s) of None \<Rightarrow> None | Some (x, t) \<Rightarrow> tok (TNum x) (tokens t))
        else if take 4 (c # s) = ''true'' then tok TTrue (tokens (drop 3 s))
        else if take 5 (c # s) = ''false'' then tok TFalse (tokens (drop 4 s))
        else if take 4 (c # s) = ''null'' then tok TNull (tokens (drop 3 s))
        else None)"
  by pat_completeness auto
termination
  by (relation "measure length") (auto dest!: lex_string_valid lex_number_length)

declare tokens.simps [simp del]

section \<open>Values\<close>

datatype json = JNull | JBool bool | JNum string | JStr string | JArr "json list" | JObj "(string \<times> json) list"

datatype frame = InArr "json list" | InObj "(string \<times> json) list" | InKey string "(string \<times> json) list"

datatype mode = BeginValue | BeginValueOrEnd | BeginKey | BeginKeyOrEnd | AfterKey | AfterValue | Done json

type_synonym scan = "mode \<times> frame list"

text \<open>A value is complete: it goes into the array or object it is in. The lists are reversed.\<close>

fun complete :: "json \<Rightarrow> frame list \<Rightarrow> scan option" where
  "complete v [] = Some (Done v, [])"
| "complete v (InArr vs # fs) = Some (AfterValue, InArr (v # vs) # fs)"
| "complete v (InKey k ms # fs) = Some (AfterValue, InObj ((k, v) # ms) # fs)"
| "complete v (InObj ms # fs) = None"

definition max_nesting :: nat where "max_nesting = 10000"

fun begin_value :: "token \<Rightarrow> frame list \<Rightarrow> scan option" where
  "begin_value TObj fs = (if length fs < max_nesting then Some (BeginKeyOrEnd, InObj [] # fs) else None)"
| "begin_value TArr fs = (if length fs < max_nesting then Some (BeginValueOrEnd, InArr [] # fs) else None)"
| "begin_value (TStr s) fs = complete (JStr s) fs"
| "begin_value (TNum s) fs = complete (JNum s) fs"
| "begin_value TTrue fs = complete (JBool True) fs"
| "begin_value TFalse fs = complete (JBool False) fs"
| "begin_value TNull fs = complete JNull fs"
| "begin_value _ fs = None"

fun scan_step :: "token \<Rightarrow> scan \<Rightarrow> scan option" where
  "scan_step t (BeginValue, fs) = begin_value t fs"
| "scan_step t (BeginValueOrEnd, fs) = (if t = TArrEnd then complete (JArr []) (tl fs) else begin_value t fs)"
| "scan_step t (BeginKeyOrEnd, fs) = (case (t, fs) of
       (TObjEnd, _ # fs) \<Rightarrow> complete (JObj []) fs
     | (TStr k, InObj ms # fs) \<Rightarrow> Some (AfterKey, InKey k ms # fs) | _ \<Rightarrow> None)"
| "scan_step t (BeginKey, fs) = (case (t, fs) of (TStr k, InObj ms # fs) \<Rightarrow> Some (AfterKey, InKey k ms # fs) | _ \<Rightarrow> None)"
| "scan_step t (AfterKey, fs) = (if t = TColon then Some (BeginValue, fs) else None)"
| "scan_step t (AfterValue, fs) = (case (t, fs) of
       (TComma, InArr _ # _) \<Rightarrow> Some (BeginValue, fs)
     | (TArrEnd, InArr vs # fs) \<Rightarrow> complete (JArr (rev vs)) fs
     | (TComma, InObj _ # _) \<Rightarrow> Some (BeginKey, fs)
     | (TObjEnd, InObj ms # fs) \<Rightarrow> complete (JObj (rev ms)) fs
     | _ \<Rightarrow> None)"
| "scan_step t (Done v, fs) = None"

fun scan_run :: "token list \<Rightarrow> scan \<Rightarrow> scan option" where
  "scan_run [] st = Some st"
| "scan_run (t # ts) st = (case scan_step t st of None \<Rightarrow> None | Some st' \<Rightarrow> scan_run ts st')"

definition parse_json :: "string \<Rightarrow> json option" where
  "parse_json s = (case tokens s of None \<Rightarrow> None | Some ts \<Rightarrow>
     (case scan_run ts (BeginValue, []) of Some (Done v, _) \<Rightarrow> Some v | _ \<Rightarrow> None))"

section \<open>The text of a value\<close>

definition new_line :: "string \<Rightarrow> nat \<Rightarrow> string" where
  "new_line ind n = CHR 0x0A # concat (replicate n ind)"

definition quoted :: "string \<Rightarrow> string" where
  "quoted s = CHR 0x22 # quote s @ [CHR 0x22]"

fun pretty :: "string \<Rightarrow> nat \<Rightarrow> json \<Rightarrow> string" where
  "pretty ind n JNull = ''null''"
| "pretty ind n (JBool b) = (if b then ''true'' else ''false'')"
| "pretty ind n (JNum s) = s"
| "pretty ind n (JStr s) = quoted s"
| "pretty ind n (JArr vs) = (if vs = [] then ''[]'' else ''['' @ new_line ind (Suc n) @
     Join (map (pretty ind (Suc n)) vs) (CHR '','' # new_line ind (Suc n)) @ new_line ind n @ '']'')"
| "pretty ind n (JObj ms) = (if ms = [] then ''{}'' else ''{'' @ new_line ind (Suc n) @
     Join (map (\<lambda>(k, v). quoted k @ '': '' @ pretty ind (Suc n) v) ms) (CHR '','' # new_line ind (Suc n)) @ new_line ind n @ ''}'')"

section \<open>A value that is written is read back\<close>

fun commas :: "token list list \<Rightarrow> token list" where
  "commas [] = []"
| "commas [x] = x"
| "commas (x # y # xs) = x @ TComma # commas (y # xs)"

fun toks :: "json \<Rightarrow> token list" where
  "toks JNull = [TNull]"
| "toks (JBool b) = [if b then TTrue else TFalse]"
| "toks (JNum s) = [TNum s]"
| "toks (JStr s) = [TStr s]"
| "toks (JArr vs) = TArr # commas (map toks vs) @ [TArrEnd]"
| "toks (JObj ms) = TObj # commas (map (\<lambda>(k, v). TStr k # TColon # toks v) ms) @ [TObjEnd]"

fun json_depth :: "json \<Rightarrow> nat" where
  "json_depth (JArr vs) = Suc (foldr (\<lambda>v d. max (json_depth v) d) vs 0)"
| "json_depth (JObj ms) = Suc (foldr (\<lambda>(k, v) d. max (json_depth v) d) ms 0)"
| "json_depth _ = 0"

lemma foldr_max_le: "foldr (\<lambda>v d. max (f v) d) vs (0 :: nat) \<le> n \<longleftrightarrow> (\<forall>v \<in> set vs. f v \<le> n)"
  by (induction vs) auto

lemma depth_arr: "json_depth (JArr vs) \<le> Suc n \<longleftrightarrow> (\<forall>v \<in> set vs. json_depth v \<le> n)"
  by (simp add: foldr_max_le)

lemma depth_obj: "json_depth (JObj ms) \<le> Suc n \<longleftrightarrow> (\<forall>(k, v) \<in> set ms. json_depth v \<le> n)"
  using foldr_max_le [of "\<lambda>m. json_depth (snd m)" ms n] by (simp add: case_prod_beta')

definition then_run :: "scan option \<Rightarrow> token list \<Rightarrow> scan option" where
  "then_run st ts = (case st of None \<Rightarrow> None | Some st \<Rightarrow> scan_run ts st)"

lemma then_run_simps [simp]: "then_run None ts = None" "then_run (Some st) ts = scan_run ts st"
  by (simp_all add: then_run_def)

lemma scan_run_Cons: "scan_run (t # ts) st = then_run (scan_step t st) ts"
  by (simp add: then_run_def)

definition scans :: "json \<Rightarrow> bool" where
  "scans v \<longleftrightarrow> (\<forall>fs ts. length fs + json_depth v \<le> max_nesting \<longrightarrow>
     scan_run (toks v @ ts) (BeginValue, fs) = then_run (complete v fs) ts)"

lemma scansD: "scans v \<Longrightarrow> length fs + json_depth v \<le> max_nesting \<Longrightarrow>
    scan_run (toks v @ ts) (BeginValue, fs) = then_run (complete v fs) ts"
  by (simp add: scans_def)

lemma toks_Cons: "\<exists>t ts. toks v = t # ts \<and> t \<noteq> TArrEnd"
  by (cases v) auto

lemma scan_or_end: "scan_run (toks v @ ts) (BeginValueOrEnd, fs) = scan_run (toks v @ ts) (BeginValue, fs)"
  using toks_Cons [of v] by auto

lemma scan_array:
  assumes "vs \<noteq> []" "\<And>v. v \<in> set vs \<Longrightarrow> scans v \<and> length fs + Suc (json_depth v) \<le> max_nesting"
  shows "scan_run (commas (map toks vs) @ TArrEnd # ts) (BeginValue, InArr acc # fs) =
    then_run (complete (JArr (rev acc @ vs)) fs) ts"
  using assms
proof (induction vs arbitrary: acc rule: list_nonempty_induct)
  case (single v)
  from scansD [of v "InArr acc # fs" "TArrEnd # ts"] single show ?case by (simp add: then_run_def)
next
  case (cons v vs)
  have v: "scans v" "length fs + Suc (json_depth v) \<le> max_nesting" using cons.prems by auto
  have c: "commas (map toks (v # vs)) = toks v @ TComma # commas (map toks vs)"
    using cons.hyps by (cases vs) auto
  from scansD [OF v(1), of "InArr acc # fs" "TComma # commas (map toks vs) @ TArrEnd # ts"] v(2) cons.IH [of "v # acc"] cons.prems
  show ?case unfolding c by simp
qed

lemma scan_object:
  assumes "ms \<noteq> []" "\<And>k v. (k, v) \<in> set ms \<Longrightarrow> scans v \<and> length fs + Suc (json_depth v) \<le> max_nesting"
    "md = BeginKey \<or> md = BeginKeyOrEnd"
  shows "scan_run (commas (map (\<lambda>(k, v). TStr k # TColon # toks v) ms) @ TObjEnd # ts) (md, InObj acc # fs) =
    then_run (complete (JObj (rev acc @ ms)) fs) ts"
  using assms
proof (induction ms arbitrary: acc md rule: list_nonempty_induct)
  case (single m)
  obtain k v where m: "m = (k, v)" by (cases m)
  from scansD [of v "InKey k acc # fs" "TObjEnd # ts"] single show ?case by (auto simp: m then_run_def)
next
  case (cons m ms)
  obtain k v where m: "m = (k, v)" by (cases m)
  have v: "scans v" "length fs + Suc (json_depth v) \<le> max_nesting" using cons.prems(1) by (auto simp: m)
  have dv: "\<And>k v. (k, v) \<in> set ms \<Longrightarrow> scans v \<and> length fs + Suc (json_depth v) \<le> max_nesting"
    using cons.prems(1) by (meson list.set_intros(2))
  note ih = cons.IH [of BeginKey "(k, v) # acc", OF dv disjI1 [OF refl]]
  have c: "commas (map (\<lambda>(k, v). TStr k # TColon # toks v) (m # ms)) =
      (TStr k # TColon # toks v) @ TComma # commas (map (\<lambda>(k, v). TStr k # TColon # toks v) ms)"
    using cons.hyps by (cases ms) (auto simp: m)
  from scansD [OF v(1), of "InKey k acc # fs" "TComma # commas (map (\<lambda>(k, v). TStr k # TColon # toks v) ms) @ TObjEnd # ts"]
    v(2) ih cons.prems(2)
  show ?case unfolding c by (auto simp: m)
qed

lemma scan_toks: "scans v"
proof (induction v rule: toks.induct)
  case (5 vs)
  show ?case unfolding scans_def
  proof (intro allI impI)
    fix fs :: "frame list" and ts assume d: "length fs + json_depth (JArr vs) \<le> max_nesting"
    then have l: "length fs < max_nesting" "json_depth (JArr vs) \<le> Suc (max_nesting - Suc (length fs))" by auto
    then have dv: "\<And>v. v \<in> set vs \<Longrightarrow> scans v \<and> length fs + Suc (json_depth v) \<le> max_nesting"
      using 5 unfolding depth_arr by fastforce
    show "scan_run (toks (JArr vs) @ ts) (BeginValue, fs) = then_run (complete (JArr vs) fs) ts"
    proof (cases "vs = []")
      case True
      with l show ?thesis by (simp add: then_run_def)
    next
      case False
      then obtain v vs' where "vs = v # vs'" by (cases vs) auto
      then obtain us where "commas (map toks vs) = toks v @ us" by (cases vs') auto
      then have "scan_run (commas (map toks vs) @ TArrEnd # ts) (BeginValueOrEnd, InArr [] # fs) =
          scan_run (commas (map toks vs) @ TArrEnd # ts) (BeginValue, InArr [] # fs)"
        by (simp add: scan_or_end)
      with scan_array [OF False dv, where acc = "[]" and ts = ts] l show ?thesis by simp
    qed
  qed
next
  case (6 ms)
  show ?case unfolding scans_def
  proof (intro allI impI)
    fix fs :: "frame list" and ts assume d: "length fs + json_depth (JObj ms) \<le> max_nesting"
    then have l: "length fs < max_nesting" "json_depth (JObj ms) \<le> Suc (max_nesting - Suc (length fs))" by auto
    then have dv: "\<And>k v. (k, v) \<in> set ms \<Longrightarrow> scans v \<and> length fs + Suc (json_depth v) \<le> max_nesting"
      using 6 unfolding depth_obj by fastforce
    show "scan_run (toks (JObj ms) @ ts) (BeginValue, fs) = then_run (complete (JObj ms) fs) ts"
    proof (cases "ms = []")
      case True
      with l show ?thesis by (simp add: then_run_def)
    next
      case False
      with scan_object [OF False dv, where acc = "[]" and ts = ts and md = BeginKeyOrEnd] l show ?thesis by simp
    qed
  qed
qed (auto simp: scans_def then_run_def)

end
