(* ===== verification/Json_Text.thy ===== *)
theory Json_Text
  imports Json_Value
begin

text \<open>The text of a value, as \<open>json.MarshalIndent\<close> writes it, is read back as the value, with its strings as they
  are read.\<close>

fun sane_json :: "json \<Rightarrow> json" where
  "sane_json (JStr s) = JStr (sane s)"
| "sane_json (JArr vs) = JArr (map sane_json vs)"
| "sane_json (JObj ms) = JObj (map (\<lambda>(k, v). (sane k, sane_json v)) ms)"
| "sane_json v = v"

text \<open>Only numbers that the program writes.\<close>

fun plain_nums :: "json \<Rightarrow> bool" where
  "plain_nums (JNum s) = (\<exists>n. s = Itoa n)"
| "plain_nums (JArr vs) = (\<forall>v \<in> set vs. plain_nums v)"
| "plain_nums (JObj ms) = (\<forall>(k, v) \<in> set ms. plain_nums v)"
| "plain_nums _ = True"

text \<open>What may follow a number.\<close>

definition stops :: "string \<Rightarrow> bool" where
  "stops t \<longleftrightarrow> (case t of [] \<Rightarrow> True | c # _ \<Rightarrow> \<not> is_digit c \<and> c \<noteq> CHR ''.'' \<and> c \<noteq> CHR ''e'' \<and> c \<noteq> CHR ''E'')"

definition toks_then :: "token list \<Rightarrow> token list option \<Rightarrow> token list option" where
  "toks_then ts r = map_option ((@) ts) r"

lemma toks_then_simps [simp]:
  "toks_then [] r = r" "toks_then (a # ts) r = tok a (toks_then ts r)"
  "toks_then (ts @ us) r = toks_then ts (toks_then us r)"
  by (cases r; simp add: toks_then_def tok_def)+

lemma tokens_blank: "list_all blank w \<Longrightarrow> tokens (w @ t) = tokens t"
  by (induction w) (simp_all add: tokens.simps(2))

lemma blank_not_punct: "blank c \<Longrightarrow> punct c = None"
  by (auto simp: blank_def punct_def)

lemma punct_not_blank: "punct c = Some p \<Longrightarrow> \<not> blank c"
  using blank_not_punct by auto

lemma tokens_punct: "punct c = Some p \<Longrightarrow> tokens (c # t) = tok p (tokens t)"
  by (simp add: tokens.simps(2) punct_not_blank)

lemma tokens_quoted: "tokens (quoted s @ t) = tok (TStr (sane s)) (tokens t)"
proof -
  have "\<not> blank CHR 0x22" "punct CHR 0x22 = None" by (code_simp, code_simp)
  with lex_quote [of s t] show ?thesis by (simp add: quoted_def tokens.simps(2))
qed

lemma word_start:
  assumes "c \<in> {CHR ''t'', CHR ''f'', CHR ''n''}"
  shows "\<not> blank c \<and> punct c = None \<and> c \<noteq> CHR 0x22 \<and> \<not> is_digit c \<and> c \<noteq> CHR ''-''"
proof -
  have "\<forall>c \<in> set ''tfn''. \<not> blank c \<and> punct c = None \<and> c \<noteq> CHR 0x22 \<and> \<not> is_digit c \<and> c \<noteq> CHR ''-''" by code_simp
  with assms show ?thesis by auto
qed

lemma tokens_words:
  "tokens (''true'' @ t) = tok TTrue (tokens t)" "tokens (''false'' @ t) = tok TFalse (tokens t)"
  "tokens (''null'' @ t) = tok TNull (tokens t)"
  using word_start [of "CHR ''t''"] word_start [of "CHR ''f''"] word_start [of "CHR ''n''"]
  by (simp_all only: append_Cons append_Nil, (subst tokens.simps(2), simp)+)

lemma Itoa_shape:
  "n = 0 \<and> Itoa n = ''0'' \<or> n \<noteq> 0 \<and> (\<exists>c s. Itoa n = c # s \<and> c \<noteq> CHR ''0'')"
proof (induction n rule: Itoa.induct)
  case (1 n)
  show ?case
  proof (cases "n < 10")
    case True
    have "\<forall>d \<in> set [1..<10]. digit_char d \<noteq> CHR ''0''" "digit_char 0 = CHR ''0''" by (code_simp, code_simp)
    with True show ?thesis by (subst (1 2) Itoa.simps) auto
  next
    case False
    then have "n div 10 \<noteq> 0" by auto
    with "1.IH" [OF False] False show ?thesis by (subst (1 2) Itoa.simps) auto
  qed
qed

lemma lex_number_Itoa:
  assumes "stops t"
  shows "lex_number (Itoa n @ t) = Some (Itoa n, t)"
proof -
  have d: "list_all is_digit (Itoa n)" using Itoa_digits by (auto simp: list_all_iff is_digit_def)
  have tw: "takeWhile is_digit (Itoa n @ t) = Itoa n"
    using d assms by (cases t) (auto simp: stops_def takeWhile_append list_all_iff)
  have i: "lex_int (Itoa n @ t) = Some (Itoa n, t)"
  proof (cases "n = 0")
    case True
    with Itoa_shape [of n] show ?thesis by (auto simp: lex_int_def)
  next
    case False
    with Itoa_shape [of n] obtain c s where c: "Itoa n = c # s" "c \<noteq> CHR ''0''" by auto
    then have "lex_int (Itoa n @ t) = lex_digits (Itoa n @ t)"
      by (auto simp: lex_int_def split: char.splits bool.splits)
    then show ?thesis using tw by (simp add: lex_digits_def Let_def)
  qed
  have f: "lex_frac t = Some ([], t)" "lex_exp t = Some ([], t)"
    using assms by (cases t; simp add: lex_frac_def lex_exp_def stops_def)+
  have "take 1 (Itoa n @ t) \<noteq> ''-''"
  proof -
    obtain c s where c: "Itoa n = c # s" using Itoa_not_Nil [of n] by (cases "Itoa n") auto
    have "\<not> is_digit CHR ''-''" by code_simp
    with d c show ?thesis by auto
  qed
  with i f show ?thesis by (simp add: lex_number_def Let_def)
qed

lemma tokens_number:
  assumes "stops t"
  shows "tokens (Itoa n @ t) = tok (TNum (Itoa n)) (tokens t)"
proof -
  obtain c s where c: "Itoa n = c # s" using Itoa_not_Nil [of n] by (cases "Itoa n") auto
  have "is_digit c" using Itoa_digits [of c n] c by (simp add: is_digit_def)
  moreover have "\<forall>c \<in> set (map char_of [0 ..< 256 :: nat]). is_digit c \<longrightarrow> \<not> blank c \<and> punct c = None \<and> c \<noteq> CHR 0x22"
    by code_simp
  moreover have "c \<in> set (map char_of [0 ..< 256 :: nat])"
  proof -
    have "c = char_of (of_char c :: nat)" by simp
    moreover have "(of_char c :: nat) < 256" by simp
    ultimately show ?thesis by (metis (no_types) atLeastLessThan_upt image_eqI ivl_disj_un zero_le atLeastLessThan_iff list.set_map)
  qed
  ultimately have "\<not> blank c \<and> punct c = None \<and> c \<noteq> CHR 0x22 \<and> is_digit c" by blast
  with lex_number_Itoa [OF assms, of n] c show ?thesis by (simp add: tokens.simps(2))
qed

lemma blank_new_line: "list_all blank ind \<Longrightarrow> list_all blank (new_line ind n)"
  by (induction n) (simp_all add: new_line_def, simp_all add: blank_def)

lemma stops_simps [simp]:
  "stops (CHR '','' # t)" "stops (new_line ind n @ t)" "stops []"
  by (simp_all add: stops_def new_line_def is_digit_def digit_val_def)

lemma Join_Cons: "xs \<noteq> [] \<Longrightarrow> Join (x # xs) sep = x @ sep @ Join xs sep"
  by (cases xs) simp_all

lemma commas_Cons: "xs \<noteq> [] \<Longrightarrow> commas (x # xs) = x @ TComma # commas xs"
  by (cases xs) simp_all

lemma tokens_comma [simp]: "tokens (CHR '','' # t) = tok TComma (tokens t)"
  by (rule tokens_punct) (simp add: punct_def)

lemma tokens_join:
  assumes "xs \<noteq> []" "\<And>x t. x \<in> set xs \<Longrightarrow> stops t \<Longrightarrow> tokens (f x @ t) = toks_then (g x) (tokens t)"
    "list_all blank nl" "stops t"
  shows "tokens (Join (map f xs) (CHR '','' # nl) @ t) = toks_then (commas (map g xs)) (tokens t)"
  using assms
proof (induction xs rule: list_nonempty_induct)
  case (cons x xs)
  then show ?case by (simp add: Join_Cons commas_Cons tokens_blank)
qed simp

lemma tokens_pretty:
  "list_all blank ind \<Longrightarrow> plain_nums v \<Longrightarrow> stops t \<Longrightarrow>
   tokens (pretty ind n v @ t) = toks_then (toks (sane_json v)) (tokens t)"
proof (induction ind n v arbitrary: t rule: pretty.induct)
  case (5 ind n vs)
  note b = blank_new_line [OF "5.prems"(1)]
  have p: "punct CHR ''['' = Some TArr" "punct CHR '']'' = Some TArrEnd" by (simp_all add: punct_def)
  show ?case
  proof (cases "vs = []")
    case False
    let ?rest = "new_line ind n @ CHR '']'' # t"
    have "tokens (Join (map (pretty ind (Suc n)) vs) (CHR '','' # new_line ind (Suc n)) @ ?rest) =
        toks_then (commas (map (\<lambda>v. toks (sane_json v)) vs)) (tokens ?rest)"
      using 5 False by (intro tokens_join [OF False _ b]) auto
    with False p b show ?thesis by (simp add: tokens_punct tokens_blank comp_def)
  qed (simp add: tokens_punct p)
next
  case (6 ind n ms)
  note b = blank_new_line [OF "6.prems"(1)]
  have p: "punct CHR ''{'' = Some TObj" "punct CHR ''}'' = Some TObjEnd" "punct CHR '':'' = Some TColon"
    by (simp_all add: punct_def)
  have sp: "tokens (CHR '' '' # u) = tokens u" for u using tokens_blank [of "'' ''" u] by (simp add: blank_def)
  show ?case
  proof (cases "ms = []")
    case False
    let ?rest = "new_line ind n @ CHR ''}'' # t"
    have "tokens (Join (map (\<lambda>(k, v). quoted k @ '': '' @ pretty ind (Suc n) v) ms) (CHR '','' # new_line ind (Suc n)) @ ?rest) =
        toks_then (commas (map (\<lambda>(k, v). TStr (sane k) # TColon # toks (sane_json v)) ms)) (tokens ?rest)"
    proof (rule tokens_join [OF False _ b])
      fix m u assume m: "m \<in> set ms" and u: "stops u"
      obtain k v where kv: "m = (k, v)" by (cases m)
      have "tokens (pretty ind (Suc n) v @ u) = toks_then (toks (sane_json v)) (tokens u)"
        using "6.IH" [OF False m kv [symmetric]] "6.prems" m u by (auto simp: kv)
      then show "tokens ((case m of (k, v) \<Rightarrow> quoted k @ '': '' @ pretty ind (Suc n) v) @ u) =
          toks_then (case m of (k, v) \<Rightarrow> TStr (sane k) # TColon # toks (sane_json v)) (tokens u)"
        by (simp add: kv tokens_quoted tokens_punct p sp)
    qed simp
    moreover have "(\<lambda>(k, v). TStr k # TColon # toks v) \<circ> (\<lambda>(k, v). (sane k, sane_json v)) =
        (\<lambda>(k, v). TStr (sane k) # TColon # toks (sane_json v))"
      by (auto simp: fun_eq_iff)
    ultimately show ?thesis using False p b by (simp add: tokens_punct tokens_blank)
  qed (simp add: tokens_punct p)
qed (auto simp: tokens_words tokens_quoted tokens_number simp del: append_Cons)

lemma depth_sane [simp]: "json_depth (sane_json v) = json_depth v"
proof (induction v rule: sane_json.induct)
  case (2 vs)
  then show ?case by (induction vs) auto
next
  case (3 ms)
  have "foldr (\<lambda>(k, v) d. max (json_depth v) d) (map (\<lambda>(k, v). (sane k, sane_json v)) ms) 0 =
      foldr (\<lambda>(k, v) d. max (json_depth v) d) ms 0"
  proof -
    have "json_depth (sane_json v) = json_depth v" if "(k, v) \<in> set ms" for k v
      using 3 [OF that refl] by simp
    then show ?thesis unfolding foldr_map by (intro foldr_cong) auto
  qed
  then show ?case by simp
qed simp_all

text \<open>The round trip.\<close>

lemma parse_pretty:
  assumes "list_all blank ind" "plain_nums v" "json_depth v \<le> max_nesting"
  shows "parse_json (pretty ind n v) = Some (sane_json v)"
proof -
  have "tokens (pretty ind n v) = Some (toks (sane_json v))"
    using tokens_pretty [OF assms(1,2), of "[]" n] by (simp add: tokens.simps(1) toks_then_def)
  moreover have "scan_run (toks (sane_json v)) (BeginValue, []) = Some (Done (sane_json v), [])"
    using scansD [OF scan_toks, of "[]" "sane_json v" "[]"] assms(3) by simp
  ultimately show ?thesis by (simp add: parse_json_def)
qed

section \<open>What is read is valid\<close>

fun json_valid :: "json \<Rightarrow> bool" where
  "json_valid (JStr s) = valid s"
| "json_valid (JArr vs) = (\<forall>v \<in> set vs. json_valid v)"
| "json_valid (JObj ms) = (\<forall>(k, v) \<in> set ms. valid k \<and> json_valid v)"
| "json_valid _ = True"

fun frame_valid :: "frame \<Rightarrow> bool" where
  "frame_valid (InArr vs) = (\<forall>v \<in> set vs. json_valid v)"
| "frame_valid (InObj ms) = (\<forall>(k, v) \<in> set ms. valid k \<and> json_valid v)"
| "frame_valid (InKey k ms) = (valid k \<and> (\<forall>(k, v) \<in> set ms. valid k \<and> json_valid v))"

fun mode_valid :: "mode \<Rightarrow> bool" where
  "mode_valid (Done v) = json_valid v"
| "mode_valid _ = True"

fun tok_valid :: "token \<Rightarrow> bool" where
  "tok_valid (TStr s) = valid s"
| "tok_valid _ = True"

definition scan_valid :: "scan \<Rightarrow> bool" where
  "scan_valid st \<longleftrightarrow> mode_valid (fst st) \<and> (\<forall>f \<in> set (snd st). frame_valid f)"

lemma tok_eq_Some: "tok x r = Some ts \<longleftrightarrow> (\<exists>us. r = Some us \<and> ts = x # us)"
  by (auto simp: tok_def)

lemma punct_valid: "punct c = Some p \<Longrightarrow> tok_valid p"
  by (auto simp: punct_def split: if_splits)

lemma tokens_valid: "tokens s = Some ts \<Longrightarrow> \<forall>t \<in> set ts. tok_valid t"
proof (induction s arbitrary: ts rule: tokens.induct)
  case (2 c s)
  note ts = "2.prems" [unfolded tokens.simps(2)]
  show ?case
  proof (cases "blank c")
    case True
    with "2.IH"(1) ts show ?thesis by simp
  next
    case b: False
    show ?thesis
    proof (cases "punct c")
      case (Some p)
      with b ts obtain us where "tokens s = Some us" "ts = p # us" by (auto simp: tok_eq_Some)
      with "2.IH"(7) [OF b Some] punct_valid [OF Some] show ?thesis by simp
    next
      case p: None
      show ?thesis
      proof (cases "c = CHR 0x22")
        case True
        with b p ts obtain x u us where u: "lex_string s = Some (x, u)" "tokens u = Some us" "ts = TStr x # us"
          by (auto simp: tok_eq_Some split: option.splits)
        from "2.IH"(2) [OF b p True u(1) refl u(2)] lex_string_valid [OF u(1)] u(3) show ?thesis by simp
      next
        case q: False
        show ?thesis
        proof (cases "is_digit c \<or> c = CHR ''-''")
          case True
          with b p q ts have "(case lex_number (c # s) of None \<Rightarrow> None | Some (x, t) \<Rightarrow> tok (TNum x) (tokens t)) = Some ts"
            by simp
          then obtain x u us where u: "lex_number (c # s) = Some (x, u)" "tokens u = Some us" "ts = TNum x # us"
            by (auto simp: tok_eq_Some split: option.splits)
          from "2.IH"(3) [OF b p q True u(1) refl u(2)] u(3) show ?thesis by simp
        next
          case n: False
          have *: "if take 4 (c # s) = ''true'' then tok TTrue (tokens (drop 3 s)) = Some ts
              else if take 5 (c # s) = ''false'' then tok TFalse (tokens (drop 4 s)) = Some ts
              else take 4 (c # s) = ''null'' \<and> tok TNull (tokens (drop 3 s)) = Some ts"
            using b p q n ts by (simp split: if_splits)
          show ?thesis
          proof (cases "take 4 (c # s) = ''true''")
            case True
            then show ?thesis using * "2.IH"(4) [OF b p q n True] by (auto simp: tok_eq_Some)
          next
            case t: False
            show ?thesis
            proof (cases "take 5 (c # s) = ''false''")
              case True
              then show ?thesis using t * "2.IH"(5) [OF b p q n t True] by (auto simp: tok_eq_Some)
            next
              case f: False
              then show ?thesis using t * "2.IH"(6) [OF b p q n t f] by (auto simp: tok_eq_Some)
            qed
          qed
        qed
      qed
    qed
  qed
qed (simp add: tokens.simps(1))

lemma complete_valid: "complete v fs = Some st \<Longrightarrow> json_valid v \<Longrightarrow> \<forall>f \<in> set fs. frame_valid f \<Longrightarrow> scan_valid st"
  by (cases "(v, fs)" rule: complete.cases) (auto simp: scan_valid_def)

lemma begin_value_valid: "begin_value t fs = Some st \<Longrightarrow> tok_valid t \<Longrightarrow> \<forall>f \<in> set fs. frame_valid f \<Longrightarrow> scan_valid st"
  by (cases t) (auto dest: complete_valid simp: scan_valid_def split: if_splits)

lemma scan_step_valid: "scan_step t st = Some st' \<Longrightarrow> tok_valid t \<Longrightarrow> scan_valid st \<Longrightarrow> scan_valid st'"
proof (cases "(t, st)" rule: scan_step.cases)
  case (6 t' fs)
  assume "scan_step t st = Some st'" "tok_valid t" "scan_valid st"
  with 6 show ?thesis
    by (auto simp: scan_valid_def split: token.splits list.splits frame.splits dest!: complete_valid)
next
  case (2 t' fs)
  assume "scan_step t st = Some st'" "tok_valid t" "scan_valid st"
  moreover from this 2 have "\<forall>f \<in> set fs. frame_valid f" "\<forall>f \<in> set (tl fs). frame_valid f"
    by (cases fs; auto simp: scan_valid_def)+
  ultimately show ?thesis using 2 complete_valid [of "JArr []" "tl fs" st'] begin_value_valid [of t' fs st']
    by (auto split: if_splits)
qed (auto simp: scan_valid_def dest: begin_value_valid complete_valid split: token.splits list.splits frame.splits if_splits)

lemma scan_run_valid: "scan_run ts st = Some st' \<Longrightarrow> \<forall>t \<in> set ts. tok_valid t \<Longrightarrow> scan_valid st \<Longrightarrow> scan_valid st'"
  by (induction ts arbitrary: st) (auto split: option.splits dest: scan_step_valid)

lemma parse_json_valid: "parse_json s = Some v \<Longrightarrow> json_valid v"
  using scan_run_valid [of _ "(BeginValue, [])"] tokens_valid [of s]
  by (fastforce simp: parse_json_def scan_valid_def split: option.splits mode.splits)

lemma sane_ascii: "list_all ascii s \<Longrightarrow> sane s = s"
  by (induction s) (simp_all add: sane.simps)

lemma sane_b64 [simp]: "sane (b64_encode b) = b64_encode b"
proof (rule sane_ascii)
  show "list_all ascii (b64_encode b)"
    using b64_encode_chars [of b] by (auto simp: list_all_iff ascii_def b64_plain_def Let_def)
qed

end
