(* ===== verification/Json_Codec.thy ===== *)
theory Json_Codec
  imports Json_Text World
begin

text \<open>
  The two JSON texts of the program, as \<open>encoding/json\<close> writes and reads them for their Go types: the
  map of the state file (\<open>map[StateKey][]byte\<close>) and the specification of a node. A Go map is the
  list of its entries sorted by key, without one for a nil map; a slice of bytes is \<open>None\<close> when it
  is nil. The text of an error is shortened.
\<close>

definition ErrJsonSyntax :: err where "ErrJsonSyntax = ErrNew ''invalid character''"
definition ErrJsonType :: err where "ErrJsonType = ErrNew ''json: cannot unmarshal''"
definition ErrBase64 :: err where "ErrBase64 = ErrNew ''illegal base64 data''"

section \<open>Maps\<close>

type_synonym bytes = "u8 list"
type_synonym states = "(string \<times> bytes option) list"

fun put_state :: "string \<Rightarrow> bytes option \<Rightarrow> states \<Rightarrow> states" where
  "put_state k v [] = [(k, v)]"
| "put_state k v ((k', v') # m) =
     (if k = k' then (k, v) # m else if k < k' then (k, v) # (k', v') # m else (k', v') # put_state k v m)"

definition states_ok :: "states \<Rightarrow> bool" where
  "states_ok m \<longleftrightarrow> sorted_wrt (<) (map fst m) \<and> (\<forall>k \<in> fst ` set m. valid k)"

lemma map_of_put_state [simp]: "map_of (put_state k v m) = (map_of m)(k \<mapsto> v)"
  by (induction k v m rule: put_state.induct) auto

lemma keys_put_state [simp]: "fst ` set (put_state k v m) = insert k (fst ` set m)"
  by (induction k v m rule: put_state.induct) auto

lemma put_state_ok: "states_ok m \<Longrightarrow> valid k \<Longrightarrow> states_ok (put_state k v m)"
proof -
  have "sorted_wrt (<) (map fst m) \<Longrightarrow> sorted_wrt (<) (map fst (put_state k v m))"
  proof (induction k v m rule: put_state.induct)
    case (2 k v k' v' m)
    have st: "set (map fst (put_state k v m)) = insert k (set (map fst m))" by simp
    from 2(2) have m: "sorted_wrt (<) (map fst m)" "\<forall>x \<in> set (map fst m). k' < x" by simp_all
    consider "k = k'" | "k < k'" | "k' < k" "k \<noteq> k'" "\<not> k < k'" by force
    then show ?case
    proof cases
      case 1
      with m show ?thesis by simp
    next
      case 2
      with m show ?thesis by (auto dest: less_trans)
    next
      case 3
      have "sorted_wrt (<) (map fst (put_state k v m))" by (rule "2.IH" [OF 3(2,3) m(1)])
      with 3 m(2) st show ?thesis by simp
    qed
  qed simp
  then show "states_ok m \<Longrightarrow> valid k \<Longrightarrow> states_ok (put_state k v m)" by (auto simp: states_ok_def)
qed

lemma put_state_last: "\<forall>k' \<in> fst ` set m. k' < k \<Longrightarrow> put_state k v m = m @ [(k, v)]"
  by (induction k v m rule: put_state.induct) auto

section \<open>The state file\<close>

definition bytes_json :: "bytes option \<Rightarrow> json" where
  "bytes_json b = (case b of None \<Rightarrow> JNull | Some b \<Rightarrow> JStr (b64_encode b))"

definition states_json :: "states option \<Rightarrow> json" where
  "states_json m = (case m of None \<Rightarrow> JNull | Some m \<Rightarrow> JObj (map (\<lambda>(k, b). (k, bytes_json b)) m))"

text \<open>\<open>json.MarshalIndent(m, "", "  ")\<close>.\<close>

definition marshal_states :: "states option \<Rightarrow> string" where
  "marshal_states m = pretty ''  '' 0 (states_json m)"

fun json_u8 :: "json \<Rightarrow> err + u8" where
  "json_u8 (JNum s) = (case ParseUint s 64 of Inr n \<Rightarrow> if n < 256 then Inr (of_nat n) else Inl ErrJsonType
     | Inl _ \<Rightarrow> Inl ErrJsonType)"
| "json_u8 JNull = Inr 0"
| "json_u8 _ = Inl ErrJsonType"

fun json_u8s :: "json list \<Rightarrow> err + bytes" where
  "json_u8s [] = Inr []"
| "json_u8s (v # vs) = (case json_u8 v of Inl e \<Rightarrow> Inl e | Inr b \<Rightarrow>
     (case json_u8s vs of Inl e \<Rightarrow> Inl e | Inr bs \<Rightarrow> Inr (b # bs)))"

text \<open>A slice of bytes is a text in base64, or an array of numbers.\<close>

fun json_bytes :: "json \<Rightarrow> err + bytes option" where
  "json_bytes JNull = Inr None"
| "json_bytes (JStr s) = (case b64_decode s of None \<Rightarrow> Inl ErrBase64 | Some b \<Rightarrow> Inr (Some b))"
| "json_bytes (JArr vs) = (case json_u8s vs of Inl e \<Rightarrow> Inl e | Inr b \<Rightarrow> Inr (Some b))"
| "json_bytes _ = Inl ErrJsonType"

text \<open>The first error is the one reported; the reader of the map drops it after an error.\<close>

fun json_members :: "(string \<times> json) list \<Rightarrow> states \<Rightarrow> err + states" where
  "json_members [] m = Inr m"
| "json_members ((k, v) # ms) m = (case json_bytes v of Inl e \<Rightarrow> Inl e | Inr b \<Rightarrow> json_members ms (put_state k b m))"

text \<open>\<open>json.Unmarshal\<close> into an empty map: \<open>null\<close> makes it nil.\<close>

definition unmarshal_states :: "string \<Rightarrow> err + states option" where
  "unmarshal_states s = (case parse_json s of
       None \<Rightarrow> Inl ErrJsonSyntax
     | Some JNull \<Rightarrow> Inr None
     | Some (JObj ms) \<Rightarrow> (case json_members ms [] of Inl e \<Rightarrow> Inl e | Inr m \<Rightarrow> Inr (Some m))
     | Some _ \<Rightarrow> Inl ErrJsonType)"

lemma json_members_ok: "json_members ms m = Inr m' \<Longrightarrow> states_ok m \<Longrightarrow> \<forall>(k, v) \<in> set ms. valid k \<Longrightarrow> states_ok m'"
  by (induction ms m rule: json_members.induct) (auto split: sum.splits intro: put_state_ok)

lemma unmarshal_states_ok: "unmarshal_states s = Inr (Some m) \<Longrightarrow> states_ok m"
proof -
  assume u: "unmarshal_states s = Inr (Some m)"
  then obtain ms where p: "parse_json s = Some (JObj ms)" "json_members ms [] = Inr m"
    by (auto simp: unmarshal_states_def split: option.splits json.splits sum.splits)
  from parse_json_valid [OF p(1)] have "\<forall>(k, v) \<in> set ms. valid k" by auto
  with json_members_ok [OF p(2)] show "states_ok m" by (simp add: states_ok_def)
qed

lemma json_members_states:
  "sorted_wrt (<) (map fst (acc @ m)) \<Longrightarrow> json_members (map (\<lambda>(k, b). (k, bytes_json b)) m) acc = Inr (acc @ m)"
proof (induction m arbitrary: acc)
  case (Cons x m)
  obtain k b where x: "x = (k, b)" by (cases x)
  have "json_bytes (bytes_json b) = Inr b" by (cases b) (simp_all add: bytes_json_def)
  moreover have "put_state k b acc = acc @ [(k, b)]"
    using Cons.prems by (intro put_state_last) (auto simp: x sorted_wrt_append)
  ultimately show ?case using Cons.IH [of "acc @ [x]"] Cons.prems by (simp add: x)
qed simp

lemma json_depth_states: "json_depth (states_json m) \<le> 1"
proof -
  have "foldr (\<lambda>(k, v) d. max (json_depth v) d) (map (\<lambda>(k, b). (k, bytes_json b)) xs) 0 = 0" for xs
    by (induction xs) (auto simp: bytes_json_def split: option.splits)
  then show ?thesis by (cases m) (simp_all add: states_json_def)
qed

lemma unmarshal_marshal_states:
  assumes "\<And>m'. m = Some m' \<Longrightarrow> states_ok m'"
  shows "unmarshal_states (marshal_states m) = Inr m"
proof -
  have "list_all blank ''  ''" by (simp add: blank_def)
  moreover have "plain_nums (states_json m)"
    by (cases m) (auto simp: states_json_def bytes_json_def split: option.splits)
  ultimately have p: "parse_json (marshal_states m) = Some (sane_json (states_json m))"
    unfolding marshal_states_def using json_depth_states [of m] by (intro parse_pretty) (simp_all add: max_nesting_def)
  show ?thesis
  proof (cases m)
    case None
    then show ?thesis using p by (simp add: unmarshal_states_def states_json_def)
  next
    case (Some m')
    then have ok: "states_ok m'" using assms by simp
    have "sane_json (bytes_json b) = bytes_json b" for b
      by (cases b) (simp_all add: bytes_json_def)
    then have "sane_json (states_json m) = states_json m"
      using ok by (auto simp: Some states_json_def states_ok_def valid_def)
    with p have "parse_json (marshal_states m) = Some (states_json m)" by simp
    with json_members_states [of "[]" m'] ok show ?thesis
      by (simp add: unmarshal_states_def states_json_def Some states_ok_def)
  qed
qed

section \<open>The specification\<close>

definition spec_json :: "SpecFields \<Rightarrow> json" where
  "spec_json s = JObj [
     (''wg_private_key'', JStr (sp_WgPrivateKey s)),
     (''server_host'', JStr (sp_ServerHost s)),
     (''server_port'', JNum (Itoa (unat (sp_ServerPort s)))),
     (''signal_host'', JStr (sp_SignalHost s)),
     (''signal_port'', JNum (Itoa (unat (sp_SignalPort s)))),
     (''tun'', JStr (sp_TunName s)),
     (''preshared_key'', JStr (sp_PreSharedKey s)),
     (''blacklist'', case sp_BlackList s of None \<Rightarrow> JNull | Some l \<Rightarrow> JArr (map JStr l))]"

text \<open>\<open>json.MarshalIndent(*s, "", "\t")\<close>.\<close>

definition marshal_spec :: "SpecFields \<Rightarrow> string" where
  "marshal_spec s = pretty [CHR 0x09] 0 (spec_json s)"

definition lower :: "char \<Rightarrow> char" where
  "lower c = (let n = of_char c :: nat in if 65 \<le> n \<and> n \<le> 90 then char_of (n + 32) else c)"

text \<open>Names are compared without regard to case; the long s and the Kelvin sign are an s and a k.\<close>

fun fold_key :: "string \<Rightarrow> string" where
  "fold_key [] = []"
| "fold_key (c # s) =
     (if take 2 (c # s) = [CHR 0xC5, CHR 0xBF] then CHR ''s'' # fold_key (drop 1 s)
      else if take 3 (c # s) = [CHR 0xE2, CHR 0x84, CHR 0xAA] then CHR ''k'' # fold_key (drop 2 s)
      else lower c # fold_key s)"

fun set_string :: "json \<Rightarrow> string \<Rightarrow> err option \<times> string" where
  "set_string (JStr s) old = (None, s)"
| "set_string JNull old = (None, old)"
| "set_string _ old = (Some ErrJsonType, old)"

fun set_uint :: "json \<Rightarrow> 64 word \<Rightarrow> err option \<times> 64 word" where
  "set_uint (JNum s) old = (case ParseUint s 64 of Inr n \<Rightarrow> (None, of_nat n) | Inl _ \<Rightarrow> (Some ErrJsonType, old))"
| "set_uint JNull old = (None, old)"
| "set_uint _ old = (Some ErrJsonType, old)"

definition first_err :: "err option \<Rightarrow> err option \<Rightarrow> err option" where
  "first_err e e' = (case e of None \<Rightarrow> e' | Some x \<Rightarrow> Some x)"

text \<open>An element of an array goes over the one that is there.\<close>

fun set_list :: "json list \<Rightarrow> string list \<Rightarrow> err option \<times> string list" where
  "set_list [] old = (None, [])"
| "set_list (v # vs) old = (case set_string v (case old of [] \<Rightarrow> [] | x # _ \<Rightarrow> x) of (e, x) \<Rightarrow>
     (case set_list vs (tl old) of (e', xs) \<Rightarrow> (first_err e e', x # xs)))"

fun set_strings :: "json \<Rightarrow> string list option \<Rightarrow> err option \<times> string list option" where
  "set_strings JNull old = (None, None)"
| "set_strings (JArr vs) old = map_prod id Some (set_list vs (case old of None \<Rightarrow> [] | Some l \<Rightarrow> l))"
| "set_strings _ old = (Some ErrJsonType, old)"

definition spec_member :: "string \<Rightarrow> json \<Rightarrow> SpecFields \<Rightarrow> err option \<times> SpecFields" where
  "spec_member k v s = (let n = fold_key k in
     if n = ''wg_private_key'' then map_prod id (\<lambda>x. s\<lparr>sp_WgPrivateKey := x\<rparr>) (set_string v (sp_WgPrivateKey s))
     else if n = ''server_host'' then map_prod id (\<lambda>x. s\<lparr>sp_ServerHost := x\<rparr>) (set_string v (sp_ServerHost s))
     else if n = ''server_port'' then map_prod id (\<lambda>x. s\<lparr>sp_ServerPort := x\<rparr>) (set_uint v (sp_ServerPort s))
     else if n = ''signal_host'' then map_prod id (\<lambda>x. s\<lparr>sp_SignalHost := x\<rparr>) (set_string v (sp_SignalHost s))
     else if n = ''signal_port'' then map_prod id (\<lambda>x. s\<lparr>sp_SignalPort := x\<rparr>) (set_uint v (sp_SignalPort s))
     else if n = ''tun'' then map_prod id (\<lambda>x. s\<lparr>sp_TunName := x\<rparr>) (set_string v (sp_TunName s))
     else if n = ''preshared_key'' then map_prod id (\<lambda>x. s\<lparr>sp_PreSharedKey := x\<rparr>) (set_string v (sp_PreSharedKey s))
     else if n = ''blacklist'' then map_prod id (\<lambda>x. s\<lparr>sp_BlackList := x\<rparr>) (set_strings v (sp_BlackList s))
     else (None, s))"

fun spec_members :: "(string \<times> json) list \<Rightarrow> SpecFields \<Rightarrow> err option \<times> SpecFields" where
  "spec_members [] s = (None, s)"
| "spec_members ((k, v) # ms) s = (case spec_member k v s of (e, s') \<Rightarrow>
     map_prod (first_err e) id (spec_members ms s'))"

text \<open>\<open>json.Unmarshal\<close> into a fresh \<open>Spec\<close>: the first error, and the fields that were set.\<close>

definition unmarshal_spec :: "string \<Rightarrow> err option \<times> SpecFields" where
  "unmarshal_spec s = (case parse_json s of
       None \<Rightarrow> (Some ErrJsonSyntax, zero_SpecFields)
     | Some JNull \<Rightarrow> (None, zero_SpecFields)
     | Some (JObj ms) \<Rightarrow> spec_members ms zero_SpecFields
     | Some _ \<Rightarrow> (Some ErrJsonType, zero_SpecFields))"

definition spec_valid :: "SpecFields \<Rightarrow> bool" where
  "spec_valid s \<longleftrightarrow> valid (sp_WgPrivateKey s) \<and> valid (sp_ServerHost s) \<and> valid (sp_SignalHost s) \<and> valid (sp_TunName s) \<and>
     valid (sp_PreSharedKey s) \<and> (\<forall>l. sp_BlackList s = Some l \<longrightarrow> (\<forall>x \<in> set l. valid x))"

lemma set_list_JStr: "set_list (map JStr l) old = (None, l)"
  by (induction l arbitrary: old) (simp_all add: first_err_def)

lemma spec_names:
  "fold_key ''wg_private_key'' = ''wg_private_key''" "fold_key ''server_host'' = ''server_host''"
  "fold_key ''server_port'' = ''server_port''" "fold_key ''signal_host'' = ''signal_host''"
  "fold_key ''signal_port'' = ''signal_port''" "fold_key ''tun'' = ''tun''" "fold_key ''preshared_key'' = ''preshared_key''"
  "fold_key ''blacklist'' = ''blacklist''"
  by (code_simp, code_simp, code_simp, code_simp, code_simp, code_simp, code_simp, code_simp)

declare fold_key.simps [simp del]

lemma sane_names:
  "sane ''wg_private_key'' = ''wg_private_key''" "sane ''server_host'' = ''server_host''"
  "sane ''server_port'' = ''server_port''" "sane ''signal_host'' = ''signal_host''"
  "sane ''signal_port'' = ''signal_port''" "sane ''tun'' = ''tun''" "sane ''preshared_key'' = ''preshared_key''"
  "sane ''blacklist'' = ''blacklist''"
  by (rule sane_ascii, code_simp)+

lemma Parse_port: "ParseUint (Itoa (unat (p :: 64 word))) 64 = Inr (unat p)"
  using unsigned_less [of p, where 'a = nat] by (intro ParseUint_Itoa) simp

lemma unmarshal_marshal_spec:
  assumes "spec_valid s"
  shows "unmarshal_spec (marshal_spec s) = (None, s)"
proof -
  have l: "sane_json (case sp_BlackList s of None \<Rightarrow> JNull | Some l \<Rightarrow> JArr (map JStr l)) =
      (case sp_BlackList s of None \<Rightarrow> JNull | Some l \<Rightarrow> JArr (map JStr l))"
    using assms by (auto simp: spec_valid_def valid_def split: option.splits)
  have "sane_json (spec_json s) = spec_json s"
    using assms l unfolding spec_json_def by (simp add: spec_valid_def valid_def sane_names)
  moreover have "parse_json (marshal_spec s) = Some (sane_json (spec_json s))"
    unfolding marshal_spec_def
  proof (rule parse_pretty)
    show "list_all blank [CHR 0x09]" by (simp add: blank_def)
    show "plain_nums (spec_json s)" by (auto simp: spec_json_def split: option.splits)
    have "foldr (\<lambda>v d. max (json_depth v) d) (map JStr xs) 0 = 0" for xs by (induction xs) auto
    then show "json_depth (spec_json s) \<le> max_nesting" by (simp add: spec_json_def max_nesting_def split: option.split)
  qed
  ultimately have "unmarshal_spec (marshal_spec s) = (case spec_json s of JObj ms \<Rightarrow> spec_members ms zero_SpecFields)"
    by (simp add: unmarshal_spec_def spec_json_def)
  also have "\<dots> = (None, s)"
    by (cases s; cases "sp_BlackList s")
      (simp_all add: spec_json_def spec_member_def spec_names Parse_port first_err_def set_list_JStr)
  finally show ?thesis .
qed

end
