(* ===== verification/File_Store.thy ===== *)
theory File_Store
  imports Fs Json_Codec
begin

text \<open>
  \<open>store/file.go\<close>: a map of named states, cached in memory and written to one file as a
  whole, as JSON. The object \<open>FileStore\<close> is passed and returned; an operation returns its
  error beside it, because the cache changes also when the write fails. The cache is \<open>None\<close> when
  the map is nil, which it is after the text \<open>null\<close> has been read.
\<close>

type_synonym StateKey = string

record FileStore =
  fs_path :: string
  cache :: "states option"

definition entries :: "FileStore \<Rightarrow> states" where
  "entries s = (case cache s of None \<Rightarrow> [] | Some m \<Rightarrow> m)"

definition ErrStateNotFound :: err where "ErrStateNotFound = ErrNew ''state not found''"

definition ClientPrivateKeyStateKey :: StateKey where
  "ClientPrivateKeyStateKey = ''client-private-key''"

definition store_mu :: mutex where "store_mu = (''FileStore.mu'', 0)"

section \<open>The operations\<close>

definition NewFileStore :: "'e env_scheme \<Rightarrow> string \<Rightarrow> ('z world_scheme, FileStore) go" where
  "NewFileStore env path =
     bind (attempt (MkStateDir env (Dir path))) (\<lambda>r. case r of
       Inl e \<Rightarrow> throw (ErrWrap ''does not creating state directory: '' e)
     | Inr _ \<Rightarrow>
         bind (attempt (ReadFile env path)) (\<lambda>r. case r of
           Inl e \<Rightarrow>
             if e = ErrNotExist then
               bind (AtomicWriteFile env path ''{}'' 420) (\<lambda>_. ret \<lparr>fs_path = path, cache = Some []\<rparr>)
             else throw e
         | Inr b \<Rightarrow> (case unmarshal_states b of
               Inl e \<Rightarrow> throw e | Inr m \<Rightarrow> ret \<lparr>fs_path = path, cache = m\<rparr>)))"

text \<open>A missing entry is a nil slice, and a nil slice and an empty one are the same to the code.\<close>

definition slice :: "bytes option \<Rightarrow> bytes" where
  "slice b = (case b of None \<Rightarrow> [] | Some b \<Rightarrow> b)"

definition cached :: "FileStore \<Rightarrow> StateKey \<Rightarrow> bytes" where
  "cached s k = (case map_of (entries s) k of None \<Rightarrow> [] | Some b \<Rightarrow> slice b)"

text \<open>\<open>append([]byte(nil), bs...)\<close> of nothing is nil.\<close>

definition copied :: "bytes \<Rightarrow> bytes option" where
  "copied bs = (if bs = [] then None else Some bs)"

text \<open>Storing into a nil map panics; the deferred unlock runs all the same.\<close>

definition WriteState :: "'e env_scheme \<Rightarrow> FileStore \<Rightarrow> StateKey \<Rightarrow> bytes
    \<Rightarrow> ('z world_scheme, err option \<times> FileStore) go" where
  "WriteState env s k bs = with_lock store_mu
     (if cached s k = bs then ret (None, s)
      else case cache s of None \<Rightarrow> panic ''assignment to entry in nil map''
      | Some m \<Rightarrow> let s' = s\<lparr>cache := Some (put_state k (copied bs) m)\<rparr> in
        bind (attempt (AtomicWriteFile env (fs_path s') (marshal_states (cache s')) 420)) (\<lambda>r.
        ret (case r of Inl e \<Rightarrow> Some e | Inr _ \<Rightarrow> None, s')))"

definition ReadState :: "FileStore \<Rightarrow> StateKey \<Rightarrow> ('z world_scheme, bytes) go" where
  "ReadState s k = with_lock store_mu
     (case map_of (entries s) k of None \<Rightarrow> throw ErrStateNotFound | Some bs \<Rightarrow> ret (slice bs))"

section \<open>The interface\<close>

text \<open>\<open>FileStoreManager\<close> as a record of methods on a state \<open>'s\<close>.\<close>

record ('s, 'w) FileStoreManager =
  fm_WriteState :: "'s \<Rightarrow> StateKey \<Rightarrow> bytes \<Rightarrow> ('w, err option \<times> 's) go"
  fm_ReadState :: "'s \<Rightarrow> StateKey \<Rightarrow> ('w, bytes) go"

definition FileStore_manager :: "'e env_scheme \<Rightarrow> (FileStore, 'z world_scheme) FileStoreManager" where
  "FileStore_manager env = \<lparr>fm_WriteState = WriteState env, fm_ReadState = ReadState\<rparr>"

text \<open>
  What a client may rely on where \<open>I\<close> holds: a store in order (\<open>S\<close>) can be written to, a write
  that returns keeps \<open>I\<close>, a read changes nothing, a non-empty value that was written is read
  back, and writing one key does not change the others.
\<close>

locale file_store_manager =
  fixes fm :: "('s, 'w) FileStoreManager" and I :: "'w \<Rightarrow> bool" and S :: "'s \<Rightarrow> bool"
  assumes write_returns: "I w \<Longrightarrow> S s \<Longrightarrow> \<exists>e s' w'. fm_WriteState fm s k b w = (Ok (e, s'), w') \<and> S s'"
    and write_keeps: "I w \<Longrightarrow> fm_WriteState fm s k b w = (Ok (e, s'), w') \<Longrightarrow> I w'"
    and read_pure: "I w \<Longrightarrow> \<exists>r. fm_ReadState fm s k w = (r, w) \<and> (r = Err ErrStateNotFound \<or> (\<exists>b. r = Ok b))"
    and read_write: "I w \<Longrightarrow> I v \<Longrightarrow> b \<noteq> [] \<Longrightarrow> fm_WriteState fm s k b w = (Ok (e, s'), w') \<Longrightarrow>
      fm_ReadState fm s' k v = (Ok b, v)"
    and read_other: "I w \<Longrightarrow> I v \<Longrightarrow> k' \<noteq> k \<Longrightarrow> fm_WriteState fm s k b w = (Ok (e, s'), w') \<Longrightarrow>
      fm_ReadState fm s' k' v = fm_ReadState fm s k' v"
begin

text \<open>Two writes of different keys are both read back.\<close>

lemma read_two_writes:
  assumes "I w" "k \<noteq> k'" "b \<noteq> []" "b' \<noteq> []"
    "fm_WriteState fm s k b w = (Ok (e, s1), w1)" "fm_WriteState fm s1 k' b' w1 = (Ok (e', s2), w2)"
  shows "fm_ReadState fm s2 k w2 = (Ok b, w2) \<and> fm_ReadState fm s2 k' w2 = (Ok b', w2)"
proof -
  note i1 = write_keeps [OF assms(1,5)]
  note i2 = write_keeps [OF i1 assms(6)]
  have "fm_ReadState fm s2 k w2 = fm_ReadState fm s1 k w2"
    by (rule read_other [OF i1 i2 assms(2,6)])
  with read_write [OF assms(1) i2 assms(3,5)] read_write [OF i1 i2 assms(4,6)] show ?thesis by simp
qed

end

section \<open>Lemmas\<close>

definition store_free :: "'z world_scheme \<Rightarrow> bool" where
  "store_free w \<longleftrightarrow> store_mu \<notin> held w"

lemma store_free_hist [simp]: "store_free (w\<lparr>hist := h\<rparr>) = store_free w"
  by (simp add: store_free_def)

lemma AtomicWriteFile_held:
  assumes "AtomicWriteFile env fn data perm w = (r, w')" shows "held w' = held w"
proof -
  have "keeps (\<lambda>v. held v = held w) (AtomicWriteFile env fn data perm)"
    by (rule keeps_AtomicWriteFile) simp_all
  from keeps_run [OF this assms] show ?thesis by simp
qed

lemma slice_copied [simp]: "slice (copied b) = b"
  by (simp add: slice_def copied_def)

text \<open>What a write does when the mutex is free, in terms of the file it writes.\<close>

lemma WriteState_run:
  fixes w :: "'z world_scheme"
  assumes "store_free w"
  shows "cached s k = bs \<and> WriteState env s k bs w = (Ok (None, s), w) \<or>
    cached s k \<noteq> bs \<and> cache s = None \<and> (\<exists>w'. WriteState env s k bs w = (Panic ''assignment to entry in nil map'', w')) \<or>
    cached s k \<noteq> bs \<and> (\<exists>m r w1 w'. cache s = Some m \<and>
      AtomicWriteFile env (fs_path s) (marshal_states (Some (put_state k (copied bs) m))) 420
        (w\<lparr>held := insert store_mu (held w)\<rparr>) = (r, w1) \<and> (r = Ok () \<or> (\<exists>e. r = Err e)) \<and>
      WriteState env s k bs w = (Ok (case r of Err e \<Rightarrow> Some e | _ \<Rightarrow> None, s\<lparr>cache := Some (put_state k (copied bs) m)\<rparr>), w') \<and>
      w' = w1\<lparr>held := held w\<rparr> \<and> store_free w')"
proof (cases "cached s k = bs")
  case True
  with assms show ?thesis by (simp add: WriteState_def with_lock_def store_free_def ret_def)
next
  case False
  show ?thesis
  proof (cases "cache s")
    case None
    with assms False show ?thesis by (simp add: WriteState_def with_lock_def store_free_def panic_def)
  next
    case (Some m)
    let ?t = "marshal_states (Some (put_state k (copied bs) m))"
    let ?A = "AtomicWriteFile env (fs_path s) ?t 420 :: ('z world_scheme, unit) go"
    let ?w = "w\<lparr>held := insert store_mu (held w)\<rparr>"
    obtain r w1 where a: "?A ?w = (r, w1)" by (metis surj_pair)
    have h: "held w1 = insert store_mu (held w)" using AtomicWriteFile_held [OF a] by simp
    have r: "r = Ok () \<or> (\<exists>e. r = Err e)"
      by (rule returnsE [OF returns_AtomicWriteFile, of env "fs_path s" ?t 420 ?w]) (use a in auto)
    have free: "insert store_mu (held w) - {store_mu} = held w" using assms by (auto simp: store_free_def)
    have "WriteState env s k bs w =
        (Ok (case r of Err e \<Rightarrow> Some e | _ \<Rightarrow> None, s\<lparr>cache := Some (put_state k (copied bs) m)\<rparr>), w1\<lparr>held := held w\<rparr>)"
      using r a h assms False free Some
      by (auto simp: WriteState_def with_lock_def store_free_def bind_def attempt_def ret_def Let_def)
    moreover have "store_free (w1\<lparr>held := held w\<rparr>)" using assms by (simp add: store_free_def)
    ultimately show ?thesis using False a r Some by blast
  qed
qed

lemma ReadState_run:
  "store_free w \<Longrightarrow> ReadState s k w =
    (case map_of (entries s) k of None \<Rightarrow> Err ErrStateNotFound | Some b \<Rightarrow> Ok (slice b), w)"
  by (auto simp: ReadState_def with_lock_def store_free_def throw_def ret_def split: option.splits)

text \<open>In both cases of a write the entry of the key is the value, if that is not empty.\<close>

lemma WriteState_entry:
  assumes "store_free w" "WriteState env s k b w = (Ok (e, s'), w')"
  shows "(b \<noteq> [] \<longrightarrow> map_of (entries s') k = Some (Some b)) \<and>
    (\<forall>k'. k' \<noteq> k \<longrightarrow> map_of (entries s') k' = map_of (entries s) k') \<and> fs_path s' = fs_path s"
  using WriteState_run [OF assms(1), of s k b env] assms(2)
  by (auto simp: cached_def entries_def copied_def slice_def split: option.splits)

definition store_ready :: "FileStore \<Rightarrow> bool" where
  "store_ready s \<longleftrightarrow> cache s \<noteq> None"

interpretation fs_mgr: file_store_manager "FileStore_manager env" store_free store_ready for env
proof
  fix w :: "'b world_scheme" and s k b assume w: "store_free w"
  show "store_ready s \<Longrightarrow> \<exists>e s' w'. fm_WriteState (FileStore_manager env) s k b w = (Ok (e, s'), w') \<and> store_ready s'"
    using WriteState_run [OF w, of s k b env] unfolding FileStore_manager_def store_ready_def by auto
  show "\<exists>r. fm_ReadState (FileStore_manager env) s k w = (r, w) \<and> (r = Err ErrStateNotFound \<or> (\<exists>b. r = Ok b))"
    using w by (simp add: FileStore_manager_def ReadState_run split: option.splits)
next
  fix w w' :: "'b world_scheme" and s k b e s'
  assume "store_free w" "fm_WriteState (FileStore_manager env) s k b w = (Ok (e, s'), w')"
  then show "store_free w'" using WriteState_run [of w s k b env] by (auto simp: FileStore_manager_def)
next
  fix w v w' :: "'b world_scheme" and s k b k' e s'
  assume w: "store_free w" "store_free v" and run: "fm_WriteState (FileStore_manager env) s k b w = (Ok (e, s'), w')"
  then have e: "WriteState env s k b w = (Ok (e, s'), w')" by (simp add: FileStore_manager_def)
  note entry = WriteState_entry [OF w(1) e]
  show "b \<noteq> [] \<Longrightarrow> fm_ReadState (FileStore_manager env) s' k v = (Ok b, v)"
    using entry w by (simp add: FileStore_manager_def ReadState_run slice_def)
  show "k' \<noteq> k \<Longrightarrow> fm_ReadState (FileStore_manager env) s' k' v = fm_ReadState (FileStore_manager env) s k' v"
    using entry w by (simp add: FileStore_manager_def ReadState_run)
qed

text \<open>Reading a file that is there does not say that it is not there.\<close>

definition honest_reads :: "'e env_scheme \<Rightarrow> string \<Rightarrow> bool" where
  "honest_reads env p \<longleftrightarrow> (\<forall>h. err_of env (h @ [OsCall (OsReadFile p)]) \<noteq> Some ErrNotExist)"

lemma NewFileStore_opens:
  fixes w :: "'z world_scheme"
  assumes "NewFileStore env p w = (Ok s, w')" "honest_reads env p"
  shows "fs_path s = p \<and> held w' = held w \<and>
    (files w p = None \<and> cache s = Some [] \<or>
     (\<exists>b. files w p = Some b \<and> files w' p = Some b \<and> unmarshal_states b = Inr (cache s)))"
proof -
  let ?I = "\<lambda>v :: 'z world_scheme. files v = files w \<and> held v = held w"
  have "keeps ?I (perform env x)" for x by (rule keeps_perform) simp
  then have mk: "keeps ?I (MkStateDir env (Dir p))" by (rule keeps_MkStateDir)
  obtain r w1 where m: "MkStateDir env (Dir p) w = (r, w1)" by (metis surj_pair)
  have i: "files w1 = files w" "held w1 = held w" using keeps_run [OF mk m] by auto
  have r: "r = Ok ()" using assms(1) m
    by (cases r) (auto simp: NewFileStore_def bind_def attempt_def throw_def)
  let ?w2 = "w1\<lparr>hist := hist w1 @ [OsCall (OsReadFile p)]\<rparr>"
  have run: "NewFileStore env p w = (case ReadFile env p w1 of
      (Ok b, w2) \<Rightarrow> (case unmarshal_states b of Inl e \<Rightarrow> (Err e, w2) | Inr m \<Rightarrow> (Ok \<lparr>fs_path = p, cache = m\<rparr>, w2))
    | (Err e, w2) \<Rightarrow> (if e = ErrNotExist then bind (AtomicWriteFile env p ''{}'' 420) (\<lambda>_. ret \<lparr>fs_path = p, cache = Some []\<rparr>) w2 else (Err e, w2))
    | (Panic s, w2) \<Rightarrow> (Panic s, w2) | (Stuck, w2) \<Rightarrow> (Stuck, w2))"
    using m r by (auto simp: NewFileStore_def bind_def attempt_def throw_def ret_def split: prod.splits res.splits sum.splits)
  have no: "err_of env (hist w1 @ [OsCall (OsReadFile p)]) \<noteq> Some ErrNotExist"
    using assms(2) by (simp add: honest_reads_def)
  show ?thesis
  proof (cases "err_of env (hist w1 @ [OsCall (OsReadFile p)])")
    case (Some e)
    with no run assms(1) show ?thesis by (simp add: ReadFile_def)
  next
    case None
    show ?thesis
    proof (cases "files w p")
      case None
      with \<open>err_of env _ = None\<close> run assms(1) i have
        "bind (AtomicWriteFile env p ''{}'' 420) (\<lambda>_. ret \<lparr>fs_path = p, cache = Some []\<rparr>) ?w2 = (Ok s, w')"
        by (simp add: ReadFile_def)
      then obtain u w3 where "AtomicWriteFile env p ''{}'' 420 ?w2 = (Ok u, w3)" "s = \<lparr>fs_path = p, cache = Some []\<rparr>" "w' = w3"
        by (auto elim!: bind_OkE simp: ret_def)
      with AtomicWriteFile_held [of env p "''{}''" 420 ?w2] i None show ?thesis by auto
    next
      case (Some b)
      with \<open>err_of env _ = None\<close> run assms(1) i show ?thesis
        by (auto simp: ReadFile_def split: sum.splits)
    qed
  qed
qed

lemma NewFileStore_calm:
  fixes w :: "'z world_scheme"
  assumes "\<forall>h. err_of env h = None" "\<forall>h. bool_of env h"
    "files w p = None \<or> (\<exists>b m. files w p = Some b \<and> unmarshal_states b = Inr m)"
  shows "\<exists>s w'. NewFileStore env p w = (Ok s, w')"
proof -
  let ?I = "\<lambda>v :: 'z world_scheme. files v = files w"
  have "keeps ?I (perform env x)" for x by (rule keeps_perform) simp
  then have mk: "keeps ?I (MkStateDir env (Dir p))" by (rule keeps_MkStateDir)
  obtain w1 where m: "MkStateDir env (Dir p) w = (Ok (), w1)"
    using MkStateDir_calm [OF assms(1,2)] by blast
  have i: "files w1 = files w" using keeps_run [OF mk m] by auto
  obtain w3 where a: "AtomicWriteFile env p ''{}'' 420 (w1\<lparr>hist := hist w1 @ [OsCall (OsReadFile p)]\<rparr>) = (Ok (), w3)"
    using AtomicWriteFile_calm [OF assms(1)] by blast
  from assms(3) i m a assms(1) show ?thesis
    by (auto simp: NewFileStore_def bind_def attempt_def ReadFile_def perform_def Let_def ret_def)
qed

text \<open>What the store holds is what is in its file.\<close>

definition synced :: "FileStore \<Rightarrow> 'z world_scheme \<Rightarrow> bool" where
  "synced s w \<longleftrightarrow> (\<exists>m t. cache s = Some m \<and> states_ok m \<and> files w (fs_path s) = Some t \<and> unmarshal_states t = Inr (Some m))"

text \<open>Writes one after the other, with their errors.\<close>

fun write_all :: "'e env_scheme \<Rightarrow> FileStore \<Rightarrow> (StateKey \<times> bytes) list \<Rightarrow> ('z world_scheme, err option list \<times> FileStore) go" where
  "write_all env s [] = ret ([], s)"
| "write_all env s ((k, b) # kbs) = bind (WriteState env s k b) (\<lambda>(e, s').
     bind (write_all env s' kbs) (\<lambda>(es, s''). ret (e # es, s'')))"

definition put_all :: "(StateKey \<times> bytes) list \<Rightarrow> (StateKey \<Rightarrow> bytes) \<Rightarrow> StateKey \<Rightarrow> bytes" where
  "put_all kbs f = fold (\<lambda>(k, b) f. f(k := b)) kbs f"

lemma WriteState_cached:
  assumes "store_free w" "WriteState env s k b w = (Ok (e, s'), w')"
  shows "cached s' = (cached s)(k := b)"
  using WriteState_run [OF assms(1), of s k b env] assms(2)
  by (auto simp: cached_def entries_def fun_eq_iff split: option.splits)

lemma WriteState_step:
  fixes w :: "'z world_scheme"
  assumes "store_free w" "store_ready s" "states_ok (entries s)" "valid k" "fresh_temps env (fs_path s)"
  shows "\<exists>e s' w'. WriteState env s k b w = (Ok (e, s'), w') \<and> store_free w' \<and> store_ready s' \<and> states_ok (entries s') \<and>
    fs_path s' = fs_path s \<and> cached s' = (cached s)(k := b) \<and> (e = None \<longrightarrow> synced s w \<longrightarrow> synced s' w') \<and>
    ((\<forall>h. err_of env h = None) \<longrightarrow> e = None)"
proof -
  obtain e s' w' where run: "WriteState env s k b w = (Ok (e, s'), w')" and ready: "store_ready s'"
    using fs_mgr.write_returns [OF assms(1,2), of env k b] by (auto simp: FileStore_manager_def)
  have free: "store_free w'" using fs_mgr.write_keeps [OF assms(1), of env s k b] run by (simp add: FileStore_manager_def)
  note entry = WriteState_entry [OF assms(1) run] and c = WriteState_cached [OF assms(1) run]
  from WriteState_run [OF assms(1), of s k b env] run
  consider "e = None" "s' = s" "w' = w"
    | m r w1 where "cache s = Some m" "s' = s\<lparr>cache := Some (put_state k (copied b) m)\<rparr>" "w' = w1\<lparr>held := held w\<rparr>"
      "AtomicWriteFile env (fs_path s) (marshal_states (Some (put_state k (copied b) m))) 420
         (w\<lparr>held := insert store_mu (held w)\<rparr>) = (r, w1)" "e = (case r of Err e \<Rightarrow> Some e | _ \<Rightarrow> None)" "r = Ok () \<or> (\<exists>e. r = Err e)" by auto
  then show ?thesis
  proof cases
    case 1
    with run ready free entry c assms(3) show ?thesis by blast
  next
    case 2
    have ok: "states_ok (put_state k (copied b) m)"
      using assms(3,4) 2(1) by (auto simp: entries_def intro: put_state_ok)
    then have u: "unmarshal_states (marshal_states (Some (put_state k (copied b) m))) = Inr (Some (put_state k (copied b) m))"
      by (intro unmarshal_marshal_states) simp
    have "synced s' w'" if "e = None"
      using AtomicWriteFile_atomic_run [OF refl _ 2(4)] assms(5) 2 that ok
      by (auto simp: fresh_temps_def synced_def u)
    moreover have "e = None" if "\<forall>h. err_of env h = None"
      using AtomicWriteFile_calm [OF that, of "fs_path s" "marshal_states (Some (put_state k (copied b) m))" 420
          "w\<lparr>held := insert store_mu (held w)\<rparr>"] 2(4,5) by auto
    ultimately show ?thesis using 2(1,2) run ready free entry c ok by (auto simp: entries_def)
  qed
qed

lemma write_all_run:
  fixes w :: "'z world_scheme"
  shows "store_free w \<Longrightarrow> store_ready s \<Longrightarrow> states_ok (entries s) \<Longrightarrow> \<forall>(k, b) \<in> set kbs. valid k \<Longrightarrow>
    fresh_temps env (fs_path s) \<Longrightarrow>
    \<exists>es s' w'. write_all env s kbs w = (Ok (es, s'), w') \<and> fs_path s' = fs_path s \<and> cached s' = put_all kbs (cached s) \<and>
      (set es \<subseteq> {None} \<longrightarrow> synced s w \<longrightarrow> synced s' w') \<and> ((\<forall>h. err_of env h = None) \<longrightarrow> set es \<subseteq> {None})"
proof (induction kbs arbitrary: s w)
  case Nil
  then show ?case by (simp add: ret_def put_all_def)
next
  case (Cons kb kbs)
  obtain k b where kb: "kb = (k, b)" by (cases kb)
  have "valid k" using Cons.prems(4) by (simp add: kb)
  from WriteState_step [OF Cons.prems(1-3) this Cons.prems(5), of b] obtain e s1 w1 where
    1: "WriteState env s k b w = (Ok (e, s1), w1)" "store_free w1" "store_ready s1" "states_ok (entries s1)"
      "fs_path s1 = fs_path s" "cached s1 = (cached s)(k := b)" "e = None \<longrightarrow> synced s w \<longrightarrow> synced s1 w1"
      "(\<forall>h. err_of env h = None) \<longrightarrow> e = None" by blast
  from Cons.IH [OF 1(2-4)] Cons.prems(4,5) 1(5) obtain es s' w' where
    "write_all env s1 kbs w1 = (Ok (es, s'), w')" "fs_path s' = fs_path s" "cached s' = put_all kbs (cached s1)"
      "set es \<subseteq> {None} \<longrightarrow> synced s1 w1 \<longrightarrow> synced s' w'" "(\<forall>h. err_of env h = None) \<longrightarrow> set es \<subseteq> {None}" by auto
  with 1 show ?case by (auto simp: kb ret_def put_all_def)
qed

lemma synced_opens:
  assumes "synced s w" "NewFileStore env (fs_path s) w = (Ok s', w')" "honest_reads env (fs_path s)"
  shows "s' = s"
  using NewFileStore_opens [OF assms(2,3)] assms(1) by (auto simp: synced_def intro: FileStore.equality)

section \<open>Properties\<close>

text \<open>
  A non-empty value that has been written is read back, also when the write to the disk
  failed, and a write of one key leaves the values of the others.
\<close>
theorem WriteState_ReadState:
  assumes "store_free w" "k \<noteq> k'" "b \<noteq> []" "b' \<noteq> []"
    "WriteState env s k b w = (Ok (e, s1), w1)" "WriteState env s1 k' b' w1 = (Ok (e', s2), w2)"
  shows "ReadState s2 k w2 = (Ok b, w2) \<and> ReadState s2 k' w2 = (Ok b', w2)"
  using fs_mgr.read_two_writes [OF assms(1-4), of env s] assms(5,6)
  by (simp add: FileStore_manager_def)

text \<open>
  A write that failed is not repeated: the cache already holds the value, so the next write
  of the same value reports success and makes no call, and the value is never on the disk.
\<close>
theorem WriteState_forgets_failure:
  assumes "store_free w" "WriteState env s k bs w = (Ok (Some e, s'), w')"
  shows "WriteState env s' k bs w' = (Ok (None, s'), w')"
proof -
  from WriteState_run [OF assms(1), of s k bs env] assms(2) have "store_free w'" "cached s' k = bs"
    by (auto simp: cached_def entries_def)
  then show ?thesis by (auto dest: WriteState_run [where env = env])
qed

text \<open>
  C12. The store is a map that survives a restart: after any sequence of writes it answers for
  every key the value written last, or what it answered before, also when some of the writes
  failed; and when none did, a store that is opened on the file afterwards is the same store.
\<close>
theorem store_refines_map:
  assumes "store_free w" "synced s w" "\<forall>(k, b) \<in> set kbs. valid k"
    "fresh_temps env (fs_path s)" "honest_reads env (fs_path s)"
  shows "\<exists>es s' w'. write_all env s kbs w = (Ok (es, s'), w') \<and> cached s' = put_all kbs (cached s) \<and>
    (set es \<subseteq> {None} \<longrightarrow> (\<forall>s2 w2. NewFileStore env (fs_path s) w' = (Ok s2, w2) \<longrightarrow> s2 = s'))"
proof -
  from assms(2) have "store_ready s" "states_ok (entries s)" by (auto simp: synced_def store_ready_def entries_def)
  from write_all_run [OF assms(1) this assms(3,4)] obtain es s' w' where
    run: "write_all env s kbs w = (Ok (es, s'), w')" "fs_path s' = fs_path s" "cached s' = put_all kbs (cached s)"
      "set es \<subseteq> {None} \<longrightarrow> synced s w \<longrightarrow> synced s' w'" by blast
  have "s2 = s'" if "set es \<subseteq> {None}" "NewFileStore env (fs_path s) w' = (Ok s2, w2)" for s2 w2
    using synced_opens [of s' w' env s2 w2] that run assms(2,5) by simp
  with run show ?thesis by blast
qed

text \<open>
  A state file that holds \<open>null\<close> opens without an error, but its map is nil: the first value
  that is stored panics.
\<close>
theorem null_store_panics:
  assumes "store_free w" "unmarshal_states t = Inr m" "parse_json t = Some JNull" "s = \<lparr>fs_path = p, cache = m\<rparr>" "b \<noteq> []"
  shows "\<exists>w'. WriteState env s k b w = (Panic ''assignment to entry in nil map'', w')"
proof -
  have "cache s = None" using assms(2-4) by (simp add: unmarshal_states_def)
  moreover from this have "cached s k = []" by (simp add: cached_def entries_def)
  ultimately show ?thesis using WriteState_run [OF assms(1), of s k b env] assms(5) by auto
qed

text \<open>An outside in which all goes well, and a store at its start.\<close>

definition store_env1 :: env where
  "store_env1 = env1\<lparr>str_of := \<lambda>h. ''/s/x.tmp1'', bool_of := \<lambda>h. True\<rparr>"

definition store0 :: FileStore where
  "store0 = \<lparr>fs_path = ''/s/x'', cache = Some []\<rparr>"

lemma store_env1_simps [simp]:
  "err_of store_env1 h = None" "str_of store_env1 h = ''/s/x.tmp1''"
  by (simp_all add: store_env1_def env1_def env0_def)

lemma store0_simps [simp]: "entries store0 = []" "cached store0 k = []" "cache store0 = Some []"
  by (simp_all add: store0_def entries_def cached_def)

lemma store_free_world0 [simp]: "store_free world0"
  by (simp add: store_free_def world0_def)

lemma Base_x: "Base ''/s'' = ''s''" "Dir ''/s/x'' = ''/s''"
  by (code_simp, code_simp)

theorem WriteState_ReadState_witness:
  "\<exists>s (w :: world). ReadState s ''k'' w = (Ok [1], w) \<and> ReadState s ''l'' w = (Ok [2], w)"
proof -
  have r: "store_ready store0" by (simp add: store_ready_def)
  obtain e s1 w1 where 1: "WriteState store_env1 store0 ''k'' [1] world0 = (Ok (e, s1), w1)" and r1: "store_ready s1"
    using fs_mgr.write_returns [OF store_free_world0 r, of store_env1 "''k''" "[1]"] by (auto simp: FileStore_manager_def)
  have f: "store_free w1"
    using fs_mgr.write_keeps [OF store_free_world0, of store_env1 store0 "''k''" "[1]"] 1 by (simp add: FileStore_manager_def)
  obtain e' s2 w2 where 2: "WriteState store_env1 s1 ''l'' [2] w1 = (Ok (e', s2), w2)"
    using fs_mgr.write_returns [OF f r1, of store_env1 "''l''" "[2]"] by (auto simp: FileStore_manager_def)
  from WriteState_ReadState [OF _ _ _ _ 1 2] show ?thesis by auto
qed

theorem WriteState_forgets_failure_witness:
  "\<exists>s' w'. WriteState (store_env1\<lparr>err_of := \<lambda>h. Some (ErrExt 28)\<rparr>) store0 ''k'' [1] world0 = (Ok (Some (ErrExt 28), s'), w') \<and>
     WriteState (store_env1\<lparr>err_of := \<lambda>h. Some (ErrExt 28)\<rparr>) s' ''k'' [1] w' = (Ok (None, s'), w') \<and> files w' = files world0"
proof -
  let ?env = "store_env1\<lparr>err_of := \<lambda>h. Some (ErrExt 28)\<rparr>"
  define s' where "s' = store0\<lparr>cache := Some [(''k'', Some [1 :: u8])]\<rparr>"
  have "\<exists>w'. WriteState ?env store0 ''k'' [1] world0 = (Ok (Some (ErrExt 28), s'), w') \<and> files w' = files world0"
    by (simp add: WriteState_def with_lock_def world0_def copied_def s'_def AtomicWriteFile_def
        TempFile_def go_simps perform_def Let_def)
  then obtain w' where w': "WriteState ?env store0 ''k'' [1] world0 = (Ok (Some (ErrExt 28), s'), w')"
    "files w' = files world0" by blast
  with WriteState_forgets_failure [OF _ w'(1)] show ?thesis by auto
qed

theorem store_refines_map_witness:
  "\<exists>es s' w' w3. write_all store_env1 store0 [(''k'', [1]), (''l'', [3]), (''k'', [1, 2])] (world0\<lparr>files := [''/s/x'' \<mapsto> ''{}'']\<rparr>) =
       (Ok (es, s'), w') \<and> set es \<subseteq> {None} \<and> cached s' ''k'' = [1, 2] \<and> cached s' ''l'' = [3] \<and>
     NewFileStore store_env1 ''/s/x'' w' = (Ok s', w3)"
proof -
  let ?kbs = "[(''k'', [1]), (''l'', [3]), (''k'', [1, 2 :: u8])]"
  let ?w = "world0\<lparr>files := [''/s/x'' \<mapsto> ''{}'']\<rparr>"
  have "parse_json ''{}'' = Some (JObj [])" by code_simp
  then have u: "synced store0 ?w" "store_ready store0" "states_ok (entries store0)"
    by (simp_all add: synced_def store0_def unmarshal_states_def states_ok_def store_ready_def entries_def)
  have free: "store_free ?w" by (simp add: store_free_def world0_def)
  have v: "\<forall>(k, b) \<in> set ?kbs. valid k" by (simp add: valid_def sane.simps ascii_def)
  have e: "fresh_temps store_env1 (fs_path store0)" "honest_reads store_env1 (fs_path store0)"
    by (simp_all add: fresh_temps_def honest_reads_def store0_def)
  from store_refines_map [OF free u(1) v e] obtain es s' w' where
    1: "write_all store_env1 store0 ?kbs ?w = (Ok (es, s'), w')" "cached s' = put_all ?kbs (cached store0)"
      "set es \<subseteq> {None} \<longrightarrow> (\<forall>s2 w2. NewFileStore store_env1 (fs_path store0) w' = (Ok s2, w2) \<longrightarrow> s2 = s')" by blast
  from write_all_run [OF free u(2,3) v e(1)] 1(1) u(1) have
    2: "set es \<subseteq> {None}" "synced s' w'" "fs_path s' = ''/s/x''" by (auto simp: store0_def)
  have b: "\<forall>h. err_of store_env1 h = None" "\<forall>h. bool_of store_env1 h" by (simp_all add: store_env1_def env1_def env0_def)
  have "\<exists>b m. files w' ''/s/x'' = Some b \<and> unmarshal_states b = Inr m" using 2 by (auto simp: synced_def)
  with NewFileStore_calm [OF b, of w' "''/s/x''"] obtain s2 w3 where "NewFileStore store_env1 ''/s/x'' w' = (Ok s2, w3)" by blast
  moreover from this have "s2 = s'" using 1(3) 2(1) by (simp add: store0_def)
  ultimately show ?thesis using 1 2 by (auto simp: put_all_def)
qed

theorem null_store_panics_witness:
  "\<exists>s w'. s = \<lparr>fs_path = ''/s/x'', cache = None\<rparr> \<and> unmarshal_states '' null'' = Inr (cache s) \<and>
     WriteState store_env1 s ''k'' [1] world0 = (Panic ''assignment to entry in nil map'', w')"
proof -
  have p: "parse_json '' null'' = Some JNull" by code_simp
  have u: "unmarshal_states '' null'' = Inr None" by (simp add: unmarshal_states_def p)
  from null_store_panics [OF store_free_world0 u p refl, where p = "''/s/x''" and b = "[1]" and env = store_env1 and k = "''k''"] u show ?thesis by simp
qed

end
