(* ===== verification/Client_Store.thy ===== *)
theory Client_Store
  imports File_Store
begin

text \<open>
  \<open>store/client.go\<close>: the private key of the node, kept in a store. The store is any
  \<open>FileStoreManager\<close>; what is proved of the client rests on the laws of that interface only
  and is then read for the file store. \<open>types/key/client.go\<close> and \<open>wireguard.go\<close> generate
  keys; the random key is an answer of the environment.
\<close>

record 's ClientStore =
  storeManager :: 's
  cs_privateKey :: RunetaleClientPrivateState

definition NewClientStore :: "'s \<Rightarrow> 's ClientStore" where
  "NewClientStore f = \<lparr>storeManager = f, cs_privateKey = zero_private_state\<rparr>"

section \<open>Keys\<close>

definition NewClientPrivateKey :: "'e env_scheme \<Rightarrow> ('z world_scheme, RunetaleClientPrivateState) go" where
  "NewClientPrivateKey env =
     bind (query env (key_of env) (OsCall OsGenerateKey)) (\<lambda>k. ret \<lparr>privateKey = k\<rparr>)"

definition NewGenerateKey :: "'e env_scheme \<Rightarrow> ('z world_scheme, string) go" where
  "NewGenerateKey env =
     bind (attempt (query env (key_of env) (OsCall OsGenerateKey))) (\<lambda>r. case r of
       Inl e \<Rightarrow> panic ''generate key'' | Inr k \<Rightarrow> ret (key_string env k))"

definition PublicKey_String :: "'e env_scheme \<Rightarrow> RunetaleClientPrivateState \<Rightarrow> string" where
  "PublicKey_String env s = key_string env (public_key env (privateKey s))"

definition PrivateKey_String :: "'e env_scheme \<Rightarrow> RunetaleClientPrivateState \<Rightarrow> string" where
  "PrivateKey_String env s = key_string env (privateKey s)"

section \<open>The operations\<close>

definition WritePrivateKey :: "'e env_scheme \<Rightarrow> ('s, 'z world_scheme) FileStoreManager \<Rightarrow> 's ClientStore
    \<Rightarrow> ('z world_scheme, err option \<times> 's ClientStore) go" where
  "WritePrivateKey env fm c =
     bind (attempt (fm_ReadState fm (storeManager c) ClientPrivateKeyStateKey)) (\<lambda>r. case r of
       Inr stateKey \<Rightarrow> (case UnmarshalText (cs_privateKey c) stateKey of
           (Some e, k) \<Rightarrow> ret (Some (ErrNew ''unable to unmarshal''), c\<lparr>cs_privateKey := k\<rparr>)
         | (None, k) \<Rightarrow> ret (None, c\<lparr>cs_privateKey := k\<rparr>))
     | Inl _ \<Rightarrow>
         bind (attempt (NewClientPrivateKey env)) (\<lambda>r. case r of
           Inl e \<Rightarrow> ret (Some e, c)
         | Inr k \<Rightarrow>
             bind (fm_WriteState fm (storeManager c) ClientPrivateKeyStateKey (MarshalText k)) (\<lambda>(e, sm).
             ret (case e of
                Some e \<Rightarrow> (Some e, c\<lparr>storeManager := sm\<rparr>)
              | None \<Rightarrow> (None, c\<lparr>storeManager := sm, cs_privateKey := k\<rparr>)))))"

text \<open>Both getters read the key again; when it cannot be read the text is empty.\<close>

definition get_key :: "(RunetaleClientPrivateState \<Rightarrow> string) \<Rightarrow> ('s, 'w) FileStoreManager \<Rightarrow> 's ClientStore
    \<Rightarrow> ('w, string \<times> 's ClientStore) go" where
  "get_key f fm c =
     bind (attempt (fm_ReadState fm (storeManager c) ClientPrivateKeyStateKey)) (\<lambda>r. case r of
       Inr stateKey \<Rightarrow> (case UnmarshalText (cs_privateKey c) stateKey of
           (Some e, k) \<Rightarrow> ret ([], c\<lparr>cs_privateKey := k\<rparr>)
         | (None, k) \<Rightarrow> ret (f k, c\<lparr>cs_privateKey := k\<rparr>))
     | Inl _ \<Rightarrow> ret (f (cs_privateKey c), c))"

definition GetPublicKey :: "'e env_scheme \<Rightarrow> ('s, 'w) FileStoreManager \<Rightarrow> 's ClientStore
    \<Rightarrow> ('w, string \<times> 's ClientStore) go" where
  "GetPublicKey env = get_key (PublicKey_String env)"

definition GetPrivateKey :: "'e env_scheme \<Rightarrow> ('s, 'w) FileStoreManager \<Rightarrow> 's ClientStore
    \<Rightarrow> ('w, string \<times> 's ClientStore) go" where
  "GetPrivateKey env = get_key (PrivateKey_String env)"

section \<open>The client on top of any store\<close>

lemma MarshalText_not_Nil [simp]: "MarshalText s \<noteq> []"
  by (simp add: MarshalText_def toHex_def clientPrivateKeyPrefix_def bytes_of_def)

lemma Unmarshal_Marshal:
  assumes "length (privateKey s) = 32" "length (privateKey t) = 32"
  shows "UnmarshalText s (MarshalText t) = (None, t)"
  using assms parse_hex_loop_complete [of "hex_encode (privateKey t)" "privateKey t" "privateKey s"]
  by (simp add: UnmarshalText_def MarshalText_def toHex_def parseHex_def Let_def)

context file_store_manager
begin

text \<open>A store that holds the text of a key: what the client reads from it.\<close>

lemma read_key:
  assumes "I w" "fm_ReadState fm (storeManager c) ClientPrivateKeyStateKey w = (Ok (MarshalText t), w)"
    "length (privateKey (cs_privateKey c)) = 32" "length (privateKey t) = 32"
  shows "get_key f fm c w = (Ok (f t, c\<lparr>cs_privateKey := t\<rparr>), w)"
  using assms by (simp add: get_key_def attempt_def bind_def ret_def Unmarshal_Marshal)

end

lemma WritePrivateKey_found:
  assumes "fm_ReadState fm (storeManager c) ClientPrivateKeyStateKey w = (Ok (MarshalText t), w)"
    "length (privateKey (cs_privateKey c)) = 32" "length (privateKey t) = 32"
  shows "WritePrivateKey env fm c w = (Ok (None, c\<lparr>cs_privateKey := t\<rparr>), w)"
  using assms by (simp add: WritePrivateKey_def attempt_def bind_def ret_def Unmarshal_Marshal)

lemma WritePrivateKey_new:
  assumes "fm_ReadState fm (storeManager c) ClientPrivateKeyStateKey w = (Err e0, w)"
    "h = hist w @ [OsCall OsGenerateKey]" "err_of env h = None"
    "fm_WriteState fm (storeManager c) ClientPrivateKeyStateKey (MarshalText \<lparr>privateKey = key_of env h\<rparr>) (w\<lparr>hist := h\<rparr>)
      = (Ok (e, sm), w')"
  shows "WritePrivateKey env fm c w = (Ok (case e of
      Some e \<Rightarrow> (Some e, c\<lparr>storeManager := sm\<rparr>)
    | None \<Rightarrow> (None, c\<lparr>storeManager := sm, cs_privateKey := \<lparr>privateKey = key_of env h\<rparr>\<rparr>)), w')"
  using assms
  by (simp add: WritePrivateKey_def NewClientPrivateKey_def query_def attempt_def bind_def ret_def
      perform_def Let_def gets_def split: option.splits)

section \<open>Properties\<close>

text \<open>
  C16. The identity of a node is stable: when a node without a key has written a new one, both
  getters answer that key from then on, whatever else is stored in between under other
  names, and writing a key again generates none and keeps it.
\<close>
theorem WritePrivateKey_stable:
  fixes w v :: "'z world_scheme"
  assumes "store_free w" "store_free v" "store_ready (storeManager c)"
    "map_of (entries (storeManager c)) ClientPrivateKeyStateKey = None"
    "length (privateKey (cs_privateKey c)) = 32" "\<forall>h. length (key_of env h) = 32"
    "h = hist w @ [OsCall OsGenerateKey]" "err_of env h = None" "k = \<lparr>privateKey = key_of env h\<rparr>"
    "WritePrivateKey env (FileStore_manager env) c w = (Ok (None, c'), w')"
  shows "GetPrivateKey env (FileStore_manager env) c' v = (Ok (key_string env (key_of env h), c'), v) \<and>
    GetPublicKey env (FileStore_manager env) c' v = (Ok (key_string env (public_key env (key_of env h)), c'), v) \<and>
    WritePrivateKey env (FileStore_manager env) c' v = (Ok (None, c'), v)"
proof -
  let ?fm = "FileStore_manager env :: (FileStore, 'z world_scheme) FileStoreManager"
  have nf: "fm_ReadState ?fm (storeManager c) ClientPrivateKeyStateKey w = (Err ErrStateNotFound, w)"
    using assms(1,4) by (simp add: FileStore_manager_def ReadState_run)
  have free: "store_free (w\<lparr>hist := h\<rparr>)" using assms(1) by simp
  obtain e sm w1 where wr: "fm_WriteState ?fm (storeManager c) ClientPrivateKeyStateKey (MarshalText k) (w\<lparr>hist := h\<rparr>)
      = (Ok (e, sm), w1)"
    using fs_mgr.write_returns [OF free assms(3)] by blast
  from WritePrivateKey_new [OF nf assms(7,8) wr [unfolded assms(9)]] assms(9,10) have
    c': "c' = c\<lparr>storeManager := sm, cs_privateKey := k\<rparr>" by (auto split: option.splits)
  have rd: "fm_ReadState ?fm (storeManager c') ClientPrivateKeyStateKey v = (Ok (MarshalText k), v)"
    using fs_mgr.read_write [OF free assms(2) MarshalText_not_Nil wr] by (simp add: c')
  have len: "length (privateKey (cs_privateKey c')) = 32" "length (privateKey k) = 32"
    using assms(6,9) by (simp_all add: c')
  have same: "c'\<lparr>cs_privateKey := k\<rparr> = c'" by (simp add: c')
  show ?thesis
    using fs_mgr.read_key [OF assms(2) rd len, where f = "PrivateKey_String env"]
      fs_mgr.read_key [OF assms(2) rd len, where f = "PublicKey_String env"]
      WritePrivateKey_found [OF rd len, of env] same assms(9)
    by (simp add: GetPrivateKey_def GetPublicKey_def PrivateKey_String_def PublicKey_String_def)
qed

text \<open>
  When the new key cannot be written to the disk \<open>WritePrivateKey\<close> fails, but the key is in
  the cache: the getters answer it all the same, and a second attempt succeeds without
  having written it, so the node runs with an identity it loses at its next start.
\<close>
theorem WritePrivateKey_unwritten_identity:
  fixes w v :: "'z world_scheme"
  assumes "store_free w" "store_free v" "store_ready (storeManager c)"
    "map_of (entries (storeManager c)) ClientPrivateKeyStateKey = None"
    "length (privateKey (cs_privateKey c)) = 32" "\<forall>h. length (key_of env h) = 32"
    "h = hist w @ [OsCall OsGenerateKey]" "err_of env h = None" "k = \<lparr>privateKey = key_of env h\<rparr>"
    "WritePrivateKey env (FileStore_manager env) c w = (Ok (Some e, c'), w')"
  shows "WritePrivateKey env (FileStore_manager env) c' v = (Ok (None, c'\<lparr>cs_privateKey := k\<rparr>), v) \<and>
    fst (GetPublicKey env (FileStore_manager env) c' v) =
      Ok (key_string env (public_key env (key_of env h)), c'\<lparr>cs_privateKey := k\<rparr>)"
proof -
  let ?fm = "FileStore_manager env :: (FileStore, 'z world_scheme) FileStoreManager"
  have nf: "fm_ReadState ?fm (storeManager c) ClientPrivateKeyStateKey w = (Err ErrStateNotFound, w)"
    using assms(1,4) by (simp add: FileStore_manager_def ReadState_run)
  have free: "store_free (w\<lparr>hist := h\<rparr>)" using assms(1) by simp
  obtain e' sm w1 where wr: "fm_WriteState ?fm (storeManager c) ClientPrivateKeyStateKey (MarshalText k) (w\<lparr>hist := h\<rparr>)
      = (Ok (e', sm), w1)"
    using fs_mgr.write_returns [OF free assms(3)] by blast
  from WritePrivateKey_new [OF nf assms(7,8) wr [unfolded assms(9)]] assms(10) have
    c': "c' = c\<lparr>storeManager := sm\<rparr>" by (auto split: option.splits)
  have rd: "fm_ReadState ?fm (storeManager c') ClientPrivateKeyStateKey v = (Ok (MarshalText k), v)"
    using fs_mgr.read_write [OF free assms(2) MarshalText_not_Nil wr] by (simp add: c')
  have len: "length (privateKey (cs_privateKey c')) = 32" "length (privateKey k) = 32"
    using assms(5,6,9) by (simp_all add: c')
  show ?thesis
    using fs_mgr.read_key [OF assms(2) rd len, where f = "PublicKey_String env"]
      WritePrivateKey_found [OF rd len, of env] assms(9)
    by (simp add: GetPublicKey_def PublicKey_String_def)
qed

text \<open>Outsides with a key to generate: one where all goes well, and one with a full disk.\<close>


definition key_env2 :: env where
  "key_env2 = store_env1\<lparr>err_of := \<lambda>h. if last h = OsCall OsGenerateKey then None else Some (ErrExt 28)\<rparr>"

lemma key_env_simps [simp]:
  "key_of store_env1 h = replicate 32 5" "key_of key_env2 h = replicate 32 5"
  "err_of key_env2 h = (if last h = OsCall OsGenerateKey then None else Some (ErrExt 28))"
  by (simp_all add: key_env2_def store_env1_def env1_def env0_def)

theorem WritePrivateKey_stable_witness:
  "\<exists>c' w'. WritePrivateKey store_env1 (FileStore_manager store_env1) (NewClientStore store0) world0 = (Ok (None, c'), w') \<and>
     fst (GetPrivateKey store_env1 (FileStore_manager store_env1) c' world0) =
       Ok (key_string store_env1 (replicate 32 5), c')"
proof -
  let ?fm = "FileStore_manager store_env1 :: (FileStore, unit world_scheme) FileStoreManager"
  define b where "b = MarshalText \<lparr>privateKey = replicate 32 5\<rparr>"
  define h where "h = [OsCall OsGenerateKey]"
  have b: "b \<noteq> []" by (simp add: b_def)
  have "\<exists>sm w'. WriteState store_env1 store0 ClientPrivateKeyStateKey b (world0\<lparr>hist := h\<rparr>) = (Ok (None, sm), w')"
    using b by (simp add: WriteState_def with_lock_def world0_def AtomicWriteFile_def
        TempFile_def write_fd_run Rename_run on_error_def go_simps perform_def Let_def Base_x)
  then obtain sm w' where wr: "WriteState store_env1 store0 ClientPrivateKeyStateKey b (world0\<lparr>hist := h\<rparr>) = (Ok (None, sm), w')"
    by blast
  have "WritePrivateKey store_env1 ?fm (NewClientStore store0) world0 =
      (Ok (None, (NewClientStore store0)\<lparr>storeManager := sm, cs_privateKey := \<lparr>privateKey = replicate 32 5\<rparr>\<rparr>), w')"
  proof -
    have rd: "fm_ReadState ?fm (storeManager (NewClientStore store0)) ClientPrivateKeyStateKey world0 = (Err ErrStateNotFound, world0)"
      by (simp add: FileStore_manager_def ReadState_run NewClientStore_def)
    show ?thesis using WritePrivateKey_new [OF rd, of h store_env1 None sm w'] wr
      by (simp add: FileStore_manager_def h_def b_def world0_def, simp add: NewClientStore_def)
  qed
  then obtain c' where c': "WritePrivateKey store_env1 ?fm (NewClientStore store0) world0 = (Ok (None, c'), w')" by blast
  have hw: "h = hist world0 @ [OsCall OsGenerateKey]" by (simp add: h_def world0_def)
  have l: "length (privateKey (cs_privateKey (NewClientStore store0))) = 32"
    by (simp add: NewClientStore_def zero_private_state_def)
  have m: "store_ready (storeManager (NewClientStore store0))"
    "map_of (entries (storeManager (NewClientStore store0))) ClientPrivateKeyStateKey = None"
    by (simp_all add: NewClientStore_def store_ready_def)
  from WritePrivateKey_stable [OF store_free_world0 store_free_world0 m l _ hw _ refl c'] c' show ?thesis
    by auto
qed

theorem WritePrivateKey_unwritten_identity_witness:
  "\<exists>c' w'. WritePrivateKey key_env2 (FileStore_manager key_env2) (NewClientStore store0) world0 =
       (Ok (Some (ErrExt 28), c'), w') \<and> files w' = files world0 \<and>
     (\<exists>c2. WritePrivateKey key_env2 (FileStore_manager key_env2) c' world0 = (Ok (None, c2), world0))"
proof -
  let ?fm = "FileStore_manager key_env2 :: (FileStore, unit world_scheme) FileStoreManager"
  define b where "b = MarshalText \<lparr>privateKey = replicate 32 5\<rparr>"
  define h where "h = [OsCall OsGenerateKey]"
  have b: "b \<noteq> []" by (simp add: b_def)
  have "\<exists>sm w'. WriteState key_env2 store0 ClientPrivateKeyStateKey b (world0\<lparr>hist := h\<rparr>) =
      (Ok (Some (ErrExt 28), sm), w') \<and> files w' = files world0"
    using b by (simp add: WriteState_def with_lock_def world0_def AtomicWriteFile_def
        TempFile_def go_simps perform_def Let_def)
  then obtain sm w' where wr: "WriteState key_env2 store0 ClientPrivateKeyStateKey b (world0\<lparr>hist := h\<rparr>) =
      (Ok (Some (ErrExt 28), sm), w')" "files w' = files world0"
    by blast
  have "WritePrivateKey key_env2 ?fm (NewClientStore store0) world0 =
      (Ok (Some (ErrExt 28), (NewClientStore store0)\<lparr>storeManager := sm\<rparr>), w')"
  proof -
    have rd: "fm_ReadState ?fm (storeManager (NewClientStore store0)) ClientPrivateKeyStateKey world0 = (Err ErrStateNotFound, world0)"
      by (simp add: FileStore_manager_def ReadState_run NewClientStore_def)
    show ?thesis using WritePrivateKey_new [OF rd, of h key_env2 "Some (ErrExt 28)" sm w'] wr(1)
      by (simp add: FileStore_manager_def h_def b_def world0_def, simp add: NewClientStore_def)
  qed
  then obtain c' where c': "WritePrivateKey key_env2 ?fm (NewClientStore store0) world0 = (Ok (Some (ErrExt 28), c'), w')"
    by blast
  have hw: "h = hist world0 @ [OsCall OsGenerateKey]" by (simp add: h_def world0_def)
  have l: "length (privateKey (cs_privateKey (NewClientStore store0))) = 32"
    by (simp add: NewClientStore_def zero_private_state_def)
  have m: "store_ready (storeManager (NewClientStore store0))"
    "map_of (entries (storeManager (NewClientStore store0))) ClientPrivateKeyStateKey = None"
    by (simp_all add: NewClientStore_def store_ready_def)
  have e: "err_of key_env2 h = None" by (simp add: h_def)
  from WritePrivateKey_unwritten_identity [OF store_free_world0 store_free_world0 m l _ hw e refl c'] c' wr(2)
  show ?thesis by auto
qed

end
