(* ===== verification/Spec_Conf.thy ===== *)
theory Spec_Conf
  imports Client_Store
begin

text \<open>
  \<open>conf/spec.go\<close>: the specification file of a node, and \<open>tun/tun.go\<close>. A \<open>Spec\<close> is the fields
  the JSON text has, its path and the debug flag. The pointer the Go functions pass on is the
  value they return here.
\<close>

record Spec = SpecFields +
  spec_path :: string
  isDebug :: bool

definition TunName :: "'e env_scheme \<Rightarrow> string" where
  "TunName env =
     (if goos env = ''openbsd'' then ''tun'' else if goos env = ''linux'' then ''rt0''
      else if goos env = ''darwin'' then ''utun100'' else if goos env = ''windows'' then ''runetale''
      else ''rt0'')"

definition NewSpec :: "string \<Rightarrow> string \<Rightarrow> 64 word \<Rightarrow> string \<Rightarrow> 64 word \<Rightarrow> bool \<Rightarrow> Spec" where
  "NewSpec path serverHost serverPort signalHost signalPort debug =
     SpecFields.extend (zero_SpecFields\<lparr>sp_ServerHost := serverHost, sp_ServerPort := serverPort,
         sp_SignalHost := signalHost, sp_SignalPort := signalPort\<rparr>)
       \<lparr>spec_path = path, isDebug = debug\<rparr>"

text \<open>The parameter \<open>presharedKey\<close> is not used. 0755 is 493.\<close>

definition writeSpec :: "'e env_scheme \<Rightarrow> Spec \<Rightarrow> string \<Rightarrow> string \<Rightarrow> string \<Rightarrow> 64 word \<Rightarrow> string \<Rightarrow> 64 word
    \<Rightarrow> string list option \<Rightarrow> string \<Rightarrow> ('z world_scheme, Spec) go" where
  "writeSpec env s wgPrivateKey tunName serverHost serverPort signalHost signalPort blackList presharedKey =
     bind (ignore (perform env (OsCall (OsMkdirAll (Dir (spec_path s)) 493)))) (\<lambda>_.
     let s' = s\<lparr>sp_ServerHost := serverHost, sp_ServerPort := serverPort, sp_SignalHost := signalHost,
           sp_SignalPort := signalPort, sp_WgPrivateKey := wgPrivateKey, sp_TunName := tunName,
           sp_BlackList := blackList\<rparr> in
     bind (attempt (AtomicWriteFile env (spec_path s') (marshal_spec (SpecFields.truncate s')) 493)) (\<lambda>r.
     case r of Inl e \<Rightarrow> panic ''write spec'' | Inr _ \<Rightarrow> ret s'))"

definition CreateSpec :: "'e env_scheme \<Rightarrow> Spec \<Rightarrow> ('z world_scheme, Spec) go" where
  "CreateSpec env s =
     bind (attempt (ReadFile env (spec_path s))) (\<lambda>r. case r of
       Inl e \<Rightarrow>
         if e = ErrNotExist then
           bind (NewGenerateKey env) (\<lambda>privKey.
           writeSpec env s privKey (TunName env) (sp_ServerHost s) (sp_ServerPort s)
             (sp_SignalHost s) (sp_SignalPort s) (Some [TunName env]) [])
         else panic ''read spec''
     | Inr b \<Rightarrow>
         let spec = snd (unmarshal_spec b);
             serverhost = (if sp_ServerHost s = [] then sp_ServerHost spec else sp_ServerHost s);
             signalhost = (if sp_SignalHost s = [] then sp_SignalHost spec else sp_SignalHost s)
         in writeSpec env s (sp_WgPrivateKey spec) (sp_TunName spec) serverhost (sp_ServerPort s)
              signalhost (sp_SignalPort s) (sp_BlackList spec) [])"

text \<open>The specification that is read has neither a path nor the debug flag.\<close>

definition GetClientConf :: "'e env_scheme \<Rightarrow> Spec \<Rightarrow> ('z world_scheme, Spec) go" where
  "GetClientConf env s =
     bind (ReadFile env (spec_path s)) (\<lambda>b. case unmarshal_spec b of
       (Some e, _) \<Rightarrow> throw e
     | (None, f) \<Rightarrow> ret (SpecFields.extend f \<lparr>spec_path = [], isDebug = False\<rparr>))"

text \<open>\<open>strconv.Itoa(int(port))\<close>: a port above \<open>2^63\<close> becomes a negative number.\<close>

definition Itoa_int :: "int \<Rightarrow> string" where
  "Itoa_int i = (if i < 0 then CHR ''-'' # Itoa (nat (- i)) else Itoa (nat i))"

definition buildHost :: "Spec \<Rightarrow> string \<Rightarrow> 64 word \<Rightarrow> string" where
  "buildHost s host port =
     (let h = (if \<not> isDebug s then ReplaceAll host ''https://'' [] else ReplaceAll host ''http://'' []);
          p = Itoa_int (sint port)
      in h @ '':'' @ p)"

definition GetServerHost :: "Spec \<Rightarrow> string" where
  "GetServerHost s = buildHost s (sp_ServerHost s) (sp_ServerPort s)"

definition GetSignalHost :: "Spec \<Rightarrow> string" where
  "GetSignalHost s = buildHost s (sp_SignalHost s) (sp_SignalPort s)"

section \<open>Lemmas\<close>

lemma writeSpec_Ok:
  assumes "writeSpec env s k t sh sp gh gp bl psk w = (Ok s', w')" "fresh_temps env (spec_path s)"
  shows "s' = s\<lparr>sp_ServerHost := sh, sp_ServerPort := sp, sp_SignalHost := gh, sp_SignalPort := gp,
      sp_WgPrivateKey := k, sp_TunName := t, sp_BlackList := bl\<rparr> \<and>
    files w' (spec_path s) = Some (marshal_spec (SpecFields.truncate s'))"
proof -
  let ?s = "s\<lparr>sp_ServerHost := sh, sp_ServerPort := sp, sp_SignalHost := gh, sp_SignalPort := gp,
      sp_WgPrivateKey := k, sp_TunName := t, sp_BlackList := bl\<rparr>"
  obtain w1 where m: "ignore (perform env (OsCall (OsMkdirAll (Dir (spec_path s)) 493))) w = (Ok (), w1)"
    by (simp add: ignore_perform)
  obtain r w2 where a: "AtomicWriteFile env (spec_path s) (marshal_spec (SpecFields.truncate ?s)) 493 w1 = (r, w2)"
    by (metis surj_pair)
  have tmp: "str_of env (hist w1 @ [OsCall (OsTempFile (Dir (spec_path s)) (Base (spec_path s) @ ''.tmp''))]) \<noteq> spec_path s"
    using assms(2) by (simp add: fresh_temps_def)
  have "r = Ok () \<and> s' = ?s \<and> w' = w2"
    using assms(1) m a AtomicWriteFile_atomic_run [OF refl tmp a]
    by (auto simp: writeSpec_def bind_def attempt_def Let_def panic_def ret_def)
  with AtomicWriteFile_atomic_run [OF refl tmp a] show ?thesis by auto
qed

text \<open>What the two branches of \<open>CreateSpec\<close> write.\<close>

lemma CreateSpec_new:
  assumes "files w (spec_path s) = None" "CreateSpec env s w = (Ok s', w')"
    "fresh_temps env (spec_path s)"
  obtains k where "s' = s\<lparr>sp_WgPrivateKey := key_string env k, sp_TunName := TunName env,
      sp_BlackList := Some [TunName env]\<rparr>"
    "files w' (spec_path s) = Some (marshal_spec (SpecFields.truncate s'))"
proof -
  let ?h = "hist w @ [OsCall (OsReadFile (spec_path s))]"
  let ?w = "w\<lparr>hist := ?h\<rparr>"
  have e: "err_of env ?h = None \<or> err_of env ?h = Some ErrNotExist"
    using assms(1,2) by (cases "err_of env ?h")
      (auto simp: CreateSpec_def ReadFile_def attempt_def bind_def panic_def split: if_splits)
  have "CreateSpec env s w = bind (NewGenerateKey env) (\<lambda>privKey.
      writeSpec env s privKey (TunName env) (sp_ServerHost s) (sp_ServerPort s)
        (sp_SignalHost s) (sp_SignalPort s) (Some [TunName env]) []) ?w"
    using e assms(1) by (auto simp: CreateSpec_def ReadFile_def attempt_def bind_def)
  with assms(2) obtain x w1 where g: "NewGenerateKey env ?w = (Ok x, w1)" and
    wr: "writeSpec env s x (TunName env) (sp_ServerHost s) (sp_ServerPort s)
        (sp_SignalHost s) (sp_SignalPort s) (Some [TunName env]) [] w1 = (Ok s', w')"
    by (auto elim: bind_OkE)
  from g obtain k where "x = key_string env k"
    by (auto simp: NewGenerateKey_def query_def bind_def attempt_def perform_def Let_def gets_def
        panic_def ret_def split: option.splits)
  with writeSpec_Ok [OF wr assms(3)] that [of k] show thesis by simp
qed

lemma CreateSpec_found:
  assumes "files w (spec_path s) = Some b" "err_of env (hist w @ [OsCall (OsReadFile (spec_path s))]) = None"
    "CreateSpec env s w = (Ok s', w')" "fresh_temps env (spec_path s)"
  shows "s' = s\<lparr>sp_ServerHost := if sp_ServerHost s = [] then sp_ServerHost (snd (unmarshal_spec b)) else sp_ServerHost s,
      sp_SignalHost := if sp_SignalHost s = [] then sp_SignalHost (snd (unmarshal_spec b)) else sp_SignalHost s,
      sp_WgPrivateKey := sp_WgPrivateKey (snd (unmarshal_spec b)),
      sp_TunName := sp_TunName (snd (unmarshal_spec b)),
      sp_BlackList := sp_BlackList (snd (unmarshal_spec b))\<rparr> \<and>
    files w' (spec_path s) = Some (marshal_spec (SpecFields.truncate s'))"
proof -
  let ?spec = "snd (unmarshal_spec b)"
  let ?w = "w\<lparr>hist := hist w @ [OsCall (OsReadFile (spec_path s))]\<rparr>"
  have "writeSpec env s (sp_WgPrivateKey ?spec) (sp_TunName ?spec)
      (if sp_ServerHost s = [] then sp_ServerHost ?spec else sp_ServerHost s) (sp_ServerPort s)
      (if sp_SignalHost s = [] then sp_SignalHost ?spec else sp_SignalHost s) (sp_SignalPort s)
      (sp_BlackList ?spec) [] ?w = (Ok s', w')"
    using assms(1-3) by (simp add: CreateSpec_def ReadFile_def attempt_def bind_def Let_def)
  from writeSpec_Ok [OF this assms(4)] show ?thesis by simp
qed

lemma NewSpec_simps [simp]:
  "spec_path (NewSpec p sh sp gh gp d) = p" "sp_PreSharedKey (NewSpec p sh sp gh gp d) = []"
  "isDebug (NewSpec p sh sp gh gp d) = d" "sp_ServerHost (NewSpec p sh sp gh gp d) = sh"
  "sp_ServerPort (NewSpec p sh sp gh gp d) = sp" "sp_SignalHost (NewSpec p sh sp gh gp d) = gh"
  "sp_SignalPort (NewSpec p sh sp gh gp d) = gp"
  by (simp_all add: NewSpec_def zero_SpecFields_def SpecFields.defs)

section \<open>Properties\<close>

text \<open>
  C17. A node keeps its WireGuard key, the name of its interface and its blacklist from one start
  to the next: whatever hosts and ports the second start is given, it reads them back from
  the file the first wrote. The hosts it is not given come from the file, the ports are
  always those it is given.
\<close>
theorem CreateSpec_keeps_identity:
  assumes "fresh_temps env path"
    "CreateSpec env (NewSpec path sh sp gh gp d) w = (Ok s1, w1)"
    "spec_valid (SpecFields.truncate s1)"
    "files w path = None \<or> err_of env (hist w @ [OsCall (OsReadFile path)]) = None"
    "err_of env (hist w1 @ [OsCall (OsReadFile path)]) = None"
    "CreateSpec env (NewSpec path sh' sp' gh' gp' d') w1 = (Ok s2, w2)"
  shows "s2 = s1\<lparr>sp_ServerHost := if sh' = [] then sp_ServerHost s1 else sh', sp_ServerPort := sp',
      sp_SignalHost := if gh' = [] then sp_SignalHost s1 else gh', sp_SignalPort := gp', isDebug := d'\<rparr>"
proof -
  have written: "files w1 path = Some (marshal_spec (SpecFields.truncate s1)) \<and> spec_path s1 = path \<and> sp_PreSharedKey s1 = []"
  proof (cases "files w path")
    case None
    with assms(1,2) show ?thesis
      by (elim CreateSpec_new [where s = "NewSpec path sh sp gh gp d", simplified]) auto
  next
    case (Some b)
    with assms(4) have rd: "err_of env (hist w @ [OsCall (OsReadFile path)]) = None" by simp
    from CreateSpec_found [where s = "NewSpec path sh sp gh gp d", simplified, OF Some rd assms(2,1)]
    show ?thesis by auto
  qed
  then have spec: "snd (unmarshal_spec (marshal_spec (SpecFields.truncate s1))) = SpecFields.truncate s1"
    using unmarshal_marshal_spec [OF assms(3)] by simp
  from CreateSpec_found [where s = "NewSpec path sh' sp' gh' gp' d'", simplified, OF conjunct1 [OF written] assms(5,6,1)] written
  show ?thesis
    by (simp add: spec) (cases s1; simp add: NewSpec_def zero_SpecFields_def SpecFields.defs)
qed

text \<open>
  Starting a node erases the pre-shared key of its specification, because the field is never
  set before the file is written again. A file that cannot be parsed is no obstacle: it is
  overwritten with what was read of it, so its key is gone too.
\<close>
theorem CreateSpec_erases:
  assumes "fresh_temps env path" "files w path = Some b" "err_of env (hist w @ [OsCall (OsReadFile path)]) = None"
    "unmarshal_spec b = (e, f)" "CreateSpec env (NewSpec path sh sp gh gp d) w = (Ok s, w')"
  shows "sp_PreSharedKey s = [] \<and> sp_WgPrivateKey s = sp_WgPrivateKey f \<and>
    files w' path = Some (marshal_spec (SpecFields.truncate s))"
  using CreateSpec_found [where s = "NewSpec path sh sp gh gp d", simplified, OF assms(2,3,5,1)] assms(4) by auto

text \<open>
  The address that is dialled is the host and the port with the scheme cut off; in debug mode
  only \<open>http://\<close> is cut off, so a host written with \<open>https://\<close>, as the default ones are,
  keeps its scheme and cannot be dialled.
\<close>
theorem GetServerHost_address:
  assumes "sp_ServerHost s = ''https://'' @ h" "\<not> Contains h ''https://''"
    "\<not> Contains (''https://'' @ h) ''http://''" "sp_ServerPort s < 2 ^ 63"
  shows "GetServerHost s = (if isDebug s then ''https://'' else []) @ h @ '':'' @ Itoa (unat (sp_ServerPort s))"
proof -
  define hs :: string where "hs = ''https://''"
  define p where "p = sp_ServerPort s"
  have port: "Itoa_int (sint p) = Itoa (unat p)"
  proof -
    have "uint p < 2 ^ 63" using assms(4) by (simp add: p_def word_less_def)
    moreover have "- (2 ^ 63) \<le> uint p" by (rule order_trans [OF _ uint_ge_0]) simp
    ultimately have "sint p = uint p" by (simp add: sint_uint signed_take_bit_int_eq_self_iff)
    then show ?thesis by (simp add: Itoa_int_def)
  qed
  have hs: "hs \<noteq> []" by (simp add: hs_def)
  have "\<not> Contains h hs" "\<not> Contains (hs @ h) ''http://''" "sp_ServerHost s = hs @ h"
    unfolding hs_def by (fact assms)+
  then show ?thesis
    using ReplaceAll_prefix [OF hs, of h "[]"] port hs_def [symmetric]
    by (simp add: GetServerHost_def buildHost_def Let_def ReplaceAll_id p_def [symmetric] del: hs_def)
qed

section \<open>Witnesses\<close>

text \<open>When no call fails \<open>CreateSpec\<close> succeeds.\<close>

lemma writeSpec_calm:
  assumes "\<forall>h. err_of env h = None"
  shows "\<exists>s' w'. writeSpec env s k t sh sp gh gp bl psk w = (Ok s', w')"
proof -
  define s' where "s' = s\<lparr>sp_ServerHost := sh, sp_ServerPort := sp, sp_SignalHost := gh, sp_SignalPort := gp,
      sp_WgPrivateKey := k, sp_TunName := t, sp_BlackList := bl\<rparr>"
  obtain w1 where m: "ignore (perform env (OsCall (OsMkdirAll (Dir (spec_path s)) 493))) w = (Ok (), w1)"
    by (simp add: ignore_perform)
  obtain w2 where a: "AtomicWriteFile env (spec_path s') (marshal_spec (SpecFields.truncate s')) 493 w1 = (Ok (), w2)"
    using AtomicWriteFile_calm [OF assms] by blast
  from m a show ?thesis
    unfolding writeSpec_def Let_def s'_def [symmetric] by (simp add: attempt_def ret_def bind_def)
qed

lemma CreateSpec_calm:
  assumes "\<forall>h. err_of env h = None"
  shows "\<exists>s' w'. CreateSpec env s w = (Ok s', w')"
  using assms
  by (cases "files w (spec_path s)")
     (simp_all add: writeSpec_calm [OF assms] CreateSpec_def ReadFile_def NewGenerateKey_def query_def go_simps perform_def Let_def)

definition spec_env1 :: env where
  "spec_env1 = env1\<lparr>str_of := \<lambda>h. ''/e/c.tmp1''\<rparr>"

lemma spec_env1_simps [simp]:
  "err_of spec_env1 h = None"
  "fresh_temps spec_env1 ''/e/c''" "key_string spec_env1 = key_string env1" "TunName spec_env1 = ''rt0''"
  "key_of spec_env1 h = replicate 32 5"
  by (simp_all add: spec_env1_def env1_def env0_def fresh_temps_def TunName_def)

text \<open>What the first start creates from these arguments.\<close>

lemma CreateSpec_first:
  "\<exists>w1. CreateSpec spec_env1 (NewSpec ''/e/c'' ''https://a'' 443 ''https://b'' 443 False) world0 =
     (Ok ((NewSpec ''/e/c'' ''https://a'' 443 ''https://b'' 443 False)\<lparr>sp_WgPrivateKey := key_string env1 (replicate 32 5),
        sp_TunName := ''rt0'', sp_BlackList := Some [''rt0'']\<rparr>), w1)"
proof -
  let ?s = "NewSpec ''/e/c'' ''https://a'' 443 ''https://b'' 443 False"
  let ?w = "world0\<lparr>hist := [OsCall (OsReadFile ''/e/c''), OsCall OsGenerateKey]\<rparr>"
  have "CreateSpec spec_env1 ?s world0 = writeSpec spec_env1 ?s (key_string env1 (replicate 32 5)) ''rt0''
      ''https://a'' 443 ''https://b'' 443 (Some [''rt0'']) [] ?w"
    by (simp add: CreateSpec_def ReadFile_def NewGenerateKey_def query_def go_simps perform_def Let_def world0_def)
  moreover obtain s' w' where "writeSpec spec_env1 ?s (key_string env1 (replicate 32 5)) ''rt0''
      ''https://a'' 443 ''https://b'' 443 (Some [''rt0'']) [] ?w = (Ok s', w')"
    using writeSpec_calm [of spec_env1] by fastforce
  ultimately show ?thesis
    by (auto dest!: writeSpec_Ok simp: NewSpec_def zero_SpecFields_def SpecFields.defs)
qed

theorem CreateSpec_keeps_identity_witness:
  "\<exists>(env :: env) s1 (w1 :: world) s2 w2.
     CreateSpec env (NewSpec ''/e/c'' ''https://a'' 443 ''https://b'' 443 False) world0 = (Ok s1, w1) \<and>
     CreateSpec env (NewSpec ''/e/c'' [] 80 [] 81 True) w1 = (Ok s2, w2) \<and>
     sp_WgPrivateKey s2 = sp_WgPrivateKey s1 \<and> sp_ServerHost s2 = ''https://a'' \<and> sp_ServerPort s2 = 80"
proof -
  define s1 where "s1 = (NewSpec ''/e/c'' ''https://a'' 443 ''https://b'' 443 False)\<lparr>sp_WgPrivateKey := key_string env1 (replicate 32 5),
        sp_TunName := ''rt0'', sp_BlackList := Some [''rt0'']\<rparr>"
  define env where "env = spec_env1"
  obtain w1 :: world where 1: "CreateSpec env (NewSpec ''/e/c'' ''https://a'' 443 ''https://b'' 443 False) world0 = (Ok s1, w1)"
    using CreateSpec_first by (auto simp: env_def s1_def)
  obtain s2 w2 where 2: "CreateSpec env (NewSpec ''/e/c'' [] 80 [] 81 True) w1 = (Ok s2, w2)"
    using CreateSpec_calm [of env "NewSpec ''/e/c'' [] 80 [] 81 True" w1] by (auto simp: env_def)
  have "valid (key_string env1 (replicate 32 5))" "valid ''https://a''" "valid ''https://b''" "valid ''rt0''" "valid []"
    unfolding valid_def by (rule sane_ascii, code_simp)+
  then have ok: "spec_valid (SpecFields.truncate s1)"
    by (simp add: spec_valid_def s1_def SpecFields.defs NewSpec_def zero_SpecFields_def)
  from CreateSpec_keeps_identity [OF _ 1 ok _ _ 2] have
    "s2 = s1\<lparr>sp_ServerHost := sp_ServerHost s1, sp_ServerPort := 80, sp_SignalHost := sp_SignalHost s1,
       sp_SignalPort := 81, isDebug := True\<rparr>"
    by (simp add: env_def world0_def)
  with 1 2 show ?thesis by (intro exI [of _ env] exI [of _ s1] exI [of _ w1] exI [of _ s2] exI [of _ w2]) (simp add: s1_def)
qed

text \<open>A file that was cut off behind its first field: the key is gone after the next start.\<close>

definition cut_off :: string where
  "cut_off = ''{'' @ quoted ''wg_private_key'' @ '':'' @ quoted ''key'' @ '',''"

lemma unmarshal_cut_off: "unmarshal_spec cut_off = (Some ErrJsonSyntax, zero_SpecFields)"
proof -
  have "parse_json cut_off = None" by code_simp
  then show ?thesis by (simp add: unmarshal_spec_def)
qed

theorem CreateSpec_erases_witness:
  "\<exists>s w'. CreateSpec spec_env1 (NewSpec ''/e/c'' [] 80 [] 81 True) (world0\<lparr>files := [''/e/c'' \<mapsto> cut_off]\<rparr>) = (Ok s, w') \<and>
     sp_WgPrivateKey s = []"
proof -
  let ?w = "world0\<lparr>files := [''/e/c'' \<mapsto> cut_off]\<rparr>"
  obtain s w' where 1: "CreateSpec spec_env1 (NewSpec ''/e/c'' [] 80 [] 81 True) ?w = (Ok s, w')"
    using CreateSpec_calm [of spec_env1 "NewSpec ''/e/c'' [] 80 [] 81 True" ?w] by auto
  from CreateSpec_erases [OF _ _ _ unmarshal_cut_off 1] 1 show ?thesis by (simp add: zero_SpecFields_def)
qed

theorem GetServerHost_address_witness:
  "GetServerHost (NewSpec ''/e/c'' ''https://api'' 443 [] 81 True) = ''https://api:443''"
proof -
  have "\<not> Contains ''api'' ''https://''" "\<not> Contains ''https://api'' ''http://''" "Itoa 443 = ''443''"
    by (code_simp, code_simp, code_simp)
  then show ?thesis
    using GetServerHost_address [of "NewSpec ''/e/c'' ''https://api'' 443 [] 81 True" "''api''"] by simp
qed

end
