(* ===== verification/System_Info.thy ===== *)
theory System_Info
  imports Utils
begin

text \<open>
  \<open>system\<close>: the description of the host that is sent with a login (\<open>system_linux.go\<close>,
  \<open>system_darwin.go\<close>); \<open>process\<close>: whether the daemon runs; \<open>runelog\<close>: the logger and its
  configuration. A loop that waits for a command to stop failing takes the number of its turns; it is
  \<open>Stuck\<close> when they run out.
\<close>

section \<open>Running a command for its output\<close>

text \<open>\<open>cmd.Run()\<close> with a buffer for the output, which is read also when the command failed.\<close>

definition run_output :: "'e env_scheme \<Rightarrow> string list \<Rightarrow> string \<Rightarrow> ('z world_scheme, string) go" where
  "run_output env args name =
     bind (attempt (perform env (ExecCall (ExecOutput args)))) (\<lambda>r.
     bind (gets (\<lambda>w. str_of env (hist w))) (\<lambda>out.
     bind (if isl r then emit (Println name) else ret ()) (\<lambda>_.
     ret out)))"

definition getInfo_linux :: "'e env_scheme \<Rightarrow> ('z world_scheme, string) go" where
  "getInfo_linux env = run_output env [''uname'', ''-srio''] ''getInfo:''"

definition getReleaseInfo :: "'e env_scheme \<Rightarrow> ('z world_scheme, string) go" where
  "getReleaseInfo env = run_output env [''cat'', ''/etc/os-release''] ''getReleaseInfo:''"

definition getInfo_darwin :: "'e env_scheme \<Rightarrow> ('z world_scheme, string) go" where
  "getInfo_darwin env = run_output env [''uname'', ''-srm''] ''getInfo:''"

text \<open>\<open>for strings.Contains(cond, "broken pipe") { out = m(); time.Sleep(...) }\<close>, where \<open>again\<close>
  is the condition after a turn that gave \<open>out\<close>.\<close>

fun broken_loop :: "nat \<Rightarrow> 'e env_scheme \<Rightarrow> ('z world_scheme, string) go \<Rightarrow> (string \<Rightarrow> string) \<Rightarrow> string \<Rightarrow> string
    \<Rightarrow> ('z world_scheme, string) go" where
  "broken_loop fuel env m again cond out =
     (if \<not> Contains cond ''broken pipe'' then ret out
      else case fuel of
          0 \<Rightarrow> stuck
        | Suc fuel \<Rightarrow>
            bind m (\<lambda>out'. bind (emit (SysCall (Sleep 500000000))) (\<lambda>_.
            broken_loop fuel env m again (again out') out')))"

declare broken_loop.simps [simp del]

definition index :: "'a list \<Rightarrow> nat \<Rightarrow> ('w, 'a) go" where
  "index xs n = (if n < length xs then ret (xs ! n) else panic ''index out of range'')"

definition get_hostname :: "'e env_scheme \<Rightarrow> ('z world_scheme, string) go" where
  "get_hostname env = bind (attempt (query env (str_of env) (SysCall GetHostname))) (\<lambda>r.
     ret (case r of Inl _ \<Rightarrow> [] | Inr s \<Rightarrow> s))"

section \<open>Linux\<close>

text \<open>One line of \<open>/etc/os-release\<close>, on the name and the version found so far.\<close>

definition release_line :: "string \<times> string \<Rightarrow> string \<Rightarrow> string \<times> string" where
  "release_line nv s =
     (if HasPrefix s ''NAME='' then (ReplaceAll (Split s CHR ''='' ! 1) [CHR 0x22] [], snd nv)
      else if HasPrefix s ''VERSION_ID='' then (fst nv, ReplaceAll (Split s CHR ''='' ! 1) [CHR 0x22] [])
      else nv)"

definition os_words :: "string \<Rightarrow> string list" where
  "os_words info = Split (ReplaceAll (ReplaceAll info [CHR 0x0A] []) [CHR 0x0D, CHR 0x0A] []) CHR '' ''"

text \<open>The second loop has the output of the first command as its condition.\<close>

definition GetInfo_linux :: "nat \<Rightarrow> 'e env_scheme \<Rightarrow> ('z world_scheme, SysInfo) go" where
  "GetInfo_linux fuel env =
     bind (getInfo_linux env) (\<lambda>info.
     bind (broken_loop fuel env (getInfo_linux env) (\<lambda>out. out) info info) (\<lambda>info.
     bind (getReleaseInfo env) (\<lambda>releaseInfo.
     bind (broken_loop fuel env (getReleaseInfo env) (\<lambda>_. info) info releaseInfo) (\<lambda>releaseInfo.
     let (osName, osVer) = foldl release_line ([], []) (Split releaseInfo CHR 0x0A);
         osInfo = os_words info
     in bind (if osName = [] then index osInfo 3 else ret osName) (\<lambda>osName.
        bind (index osInfo 0) (\<lambda>kernel.
        bind (index osInfo 1) (\<lambda>core.
        bind (index osInfo 2) (\<lambda>platform.
        bind (ask (int_of env) (SysCall NumCPU)) (\<lambda>cpus.
        bind (get_hostname env) (\<lambda>hostname.
        ret \<lparr>GoOS = goos env, Kernel = kernel, Core = core, Platform = platform, OS = osName,
             OSVersion = osVer, Hostname = hostname, CPUs = cpus, Version = []\<rparr>))))))))))"

section \<open>Darwin\<close>

definition GetInfo_darwin :: "nat \<Rightarrow> 'e env_scheme \<Rightarrow> ('z world_scheme, SysInfo) go" where
  "GetInfo_darwin fuel env =
     bind (getInfo_darwin env) (\<lambda>out.
     bind (broken_loop fuel env (getInfo_darwin env) (\<lambda>out. out) out out) (\<lambda>out.
     let osInfo = os_words out
     in bind (index osInfo 0) (\<lambda>kernel.
        bind (index osInfo 1) (\<lambda>version.
        bind (index osInfo 1) (\<lambda>core.
        bind (index osInfo 2) (\<lambda>platform.
        bind (index osInfo 0) (\<lambda>os.
        bind (ask (int_of env) (SysCall NumCPU)) (\<lambda>cpus.
        bind (get_hostname env) (\<lambda>hostname.
        ret \<lparr>GoOS = goos env, Kernel = kernel, Core = core, Platform = platform, OS = os,
             OSVersion = version, Hostname = hostname, CPUs = cpus, Version = []\<rparr>)))))))))"

definition NewSysInfo :: "nat \<Rightarrow> 'e env_scheme \<Rightarrow> ('z world_scheme, SysInfo) go" where
  "NewSysInfo fuel env = (if goos env = ''darwin'' then GetInfo_darwin fuel env else GetInfo_linux fuel env)"

section \<open>The daemon's process and the logger\<close>

definition GetRunetaledProcess :: "'e env_scheme \<Rightarrow> ('z world_scheme, bool) go" where
  "GetRunetaledProcess env =
     bind (attempt (perform env (ExecCall (ExecCombined [''pgrep'', ''runetaled''])))) (\<lambda>r. ret (\<not> isl r))"

definition GetRunetaledProcess_darwin :: "'e env_scheme \<Rightarrow> ('z world_scheme, bool) go" where
  "GetRunetaledProcess_darwin env =
     bind (attempt (perform env (ExecCall (ExecCombined [''pgrep'', ''runetaled''])))) (\<lambda>r. ret (\<not> isl r))"

text \<open>\<open>NewProcess(...).GetRunetaledProcess()\<close>, of the file that is built for the system.\<close>

definition process_GetRunetaledProcess :: "'e env_scheme \<Rightarrow> ('z world_scheme, bool) go" where
  "process_GetRunetaledProcess env =
     (if goos env = ''darwin'' then GetRunetaledProcess_darwin env else GetRunetaledProcess env)"

lemmas process_defs = process_GetRunetaledProcess_def GetRunetaledProcess_def GetRunetaledProcess_darwin_def

definition log_level_of :: "string \<Rightarrow> log_level option" where
  "log_level_of s = (if s = ''debug'' then Some DebugLevel else if s = ''info'' then Some InfoLevel
     else if s = ''warning'' then Some WarnLevel else if s = ''error'' then Some ErrorLevel else None)"

definition encoderConfig :: log_encoder where
  "encoderConfig = \<lparr>TimeKey = ''ts'', LevelKey = ''level'', NameKey = ''logger'', CallerKey = ''caller'', MessageKey = ''msg'',
     StacktraceKey = ''stacktrace'', LineEnding = ''DefaultLineEnding'', EncodeLevel = ''LowercaseLevelEncoder'',
     EncodeTime = ''ISO8601TimeEncoder'', EncodeDuration = ''SecondsDurationEncoder''\<rparr>"

definition lumberjackLogger :: "string \<Rightarrow> log_files" where
  "lumberjackLogger logFile = \<lparr>Filename = logFile, MaxSize = 1024, MaxBackups = 30, MaxAge = 90, Compress = True\<rparr>"

definition loggerConfig :: "log_level \<Rightarrow> string \<Rightarrow> bool \<Rightarrow> log_config" where
  "loggerConfig level logFile dev = \<lparr>log_Level = level, Development = dev, Encoding = ''console'',
     EncoderConfig = encoderConfig, OutputPaths = [''lumberjack:'' @ logFile, ''stderr'']\<rparr>"

text \<open>The error of \<open>zap.RegisterSink\<close>, which a second logger of a process gets, is not looked at.\<close>

definition initRunelog :: "'e env_scheme \<Rightarrow> string \<Rightarrow> string \<Rightarrow> bool \<Rightarrow> ('z world_scheme, unit) go" where
  "initRunelog env logLevel logFile dev = (case log_level_of logLevel of
       None \<Rightarrow> throw (ErrNew (''unknown log level '' @ logLevel))
     | Some level \<Rightarrow>
         bind (ignore (perform env (SysCall (RegisterSink ''lumberjack'' (lumberjackLogger logFile))))) (\<lambda>_.
         bind (attempt (perform env (SysCall (BuildLogger (loggerConfig level logFile dev))))) (\<lambda>r. case r of
           Inl _ \<Rightarrow> panic ''build zap logger from config error'' | Inr _ \<Rightarrow> emit (SysCall ReplaceGlobals))))"

definition NewRunelog :: "'e env_scheme \<Rightarrow> string \<Rightarrow> string \<Rightarrow> string \<Rightarrow> bool \<Rightarrow> ('z world_scheme, unit) go" where
  "NewRunelog env name logLevel logFile dev = initRunelog env logLevel logFile dev"

section \<open>Properties\<close>

lemma broken_loop_done:
  assumes "broken_loop fuel env m (\<lambda>out. out) out out w = (Ok out', w')"
  shows "\<not> Contains out' ''broken pipe''"
  using assms
proof (induction fuel arbitrary: out w)
  case 0
  then show ?case by (subst (asm) broken_loop.simps) (simp add: go_simps split: if_splits)
next
  case (Suc fuel)
  then show ?case
    by (subst (asm) (2) broken_loop.simps)
       (auto simp: go_simps split: if_splits prod.splits res.splits)
qed

lemma broken_loop_skip [simp]: "\<not> Contains cond ''broken pipe'' \<Longrightarrow> broken_loop fuel env m again cond out = ret out"
  by (simp add: broken_loop.simps)

text \<open>The description of the host, without the second loop.\<close>

definition describe :: "'e env_scheme \<Rightarrow> string \<Rightarrow> string \<Rightarrow> ('z world_scheme, SysInfo) go" where
  "describe env info releaseInfo =
     (let (osName, osVer) = foldl release_line ([], []) (Split releaseInfo CHR 0x0A);
          osInfo = os_words info
      in bind (if osName = [] then index osInfo 3 else ret osName) (\<lambda>osName.
         bind (index osInfo 0) (\<lambda>kernel.
         bind (index osInfo 1) (\<lambda>core.
         bind (index osInfo 2) (\<lambda>platform.
         bind (ask (int_of env) (SysCall NumCPU)) (\<lambda>cpus.
         bind (get_hostname env) (\<lambda>hostname.
         ret \<lparr>GoOS = goos env, Kernel = kernel, Core = core, Platform = platform, OS = osName,
              OSVersion = osVer, Hostname = hostname, CPUs = cpus, Version = []\<rparr>)))))))"

lemma bind_cong_run:
  "(\<And>x w'. m w = (Ok x, w') \<Longrightarrow> f x w' = g x w') \<Longrightarrow> bind m f w = bind m g w"
  by (auto simp: bind_def split: prod.splits res.splits)

text \<open>
  On Linux the release file is read exactly once, whatever the reading answers: the loop
  that should repeat a reading cut off by a broken pipe looks at the output of the other
  command, so it is never entered and the text \<open>broken pipe\<close> is used as the release file.
\<close>
theorem GetInfo_linux_reads_release_once:
  "GetInfo_linux fuel env w =
     bind (getInfo_linux env) (\<lambda>info.
     bind (broken_loop fuel env (getInfo_linux env) (\<lambda>out. out) info info) (\<lambda>info.
     bind (getReleaseInfo env) (\<lambda>releaseInfo. describe env info releaseInfo))) w"
  unfolding GetInfo_linux_def describe_def [symmetric]
  by (intro bind_cong_run) (auto dest!: broken_loop_done intro!: bind_cong_run)

text \<open>
  A \<open>uname\<close> that prints nothing, as one that cannot be run does, makes the program panic, on
  Linux and on macOS: the words of its output are indexed without a check.
\<close>
theorem GetInfo_without_uname_panics:
  assumes "str_of env (hist w @ [ExecCall (ExecOutput [''uname'', opts])]) = []"
    "opts = (if goos env = ''darwin'' then ''-srm'' else ''-srio'')"
  shows "\<exists>w'. NewSysInfo fuel env w = (Panic ''index out of range'', w')"
proof -
  have words: "os_words [] = [[]]" by (simp add: os_words_def ReplaceAll.simps)
  have run: "\<exists>w1. run_output env [''uname'', opts] name w = (Ok [], w1)" for name
    using assms(1) by (cases "err_of env (hist w @ [ExecCall (ExecOutput [''uname'', opts])])")
      (simp_all add: run_output_def go_simps perform_def Let_def)
  have rel: "\<exists>r w2. getReleaseInfo env w1 = (Ok r, w2)" for w1 :: "'b world_scheme"
    by (cases "err_of env (hist w1 @ [ExecCall (ExecOutput [''cat'', ''/etc/os-release''])])")
      (simp_all add: getReleaseInfo_def run_output_def go_simps perform_def Let_def)
  show ?thesis
  proof (cases "goos env = ''darwin''")
    case True
    with assms(2) run [of "''getInfo:''"] obtain w1 where "getInfo_darwin env w = (Ok [], w1)"
      by (auto simp: getInfo_darwin_def)
    with True show ?thesis
      by (simp add: NewSysInfo_def GetInfo_darwin_def words index_def Let_def, simp add: go_simps)
  next
    case False
    with assms(2) run [of "''getInfo:''"] obtain w1 where 1: "getInfo_linux env w = (Ok [], w1)"
      by (auto simp: getInfo_linux_def)
    obtain r w2 where 2: "getReleaseInfo env w1 = (Ok r, w2)" using rel by blast
    from False 1 2 show ?thesis
      by (simp add: NewSysInfo_def GetInfo_linux_def words index_def split: prod.splits, simp add: go_simps)
  qed
qed

theorem GetInfo_without_uname_panics_witness:
  "\<exists>w'. NewSysInfo 0 env0 world0 = (Panic ''index out of range'', w')"
  by (rule GetInfo_without_uname_panics [of env0 world0 "''-srio''"]) (simp_all add: env0_def)

end
