(* ===== verification/Conf.thy ===== *)
theory Conf
  imports Spec_Conf System_Info Signal_Client
begin

text \<open>
  \<open>conf/conf.go\<close>: the configuration of a node, made of the file store with its private key, the
  specification and the two clients. \<open>client/grpc/option.go\<close>: the option a connection is
  dialled with. The last section shows that a node keeps its identity over a restart.
\<close>

record 'w Conf =
  conf_SignalClient :: "'w SignalClientImpl"
  conf_ServerClient :: "'w ServerClientImpl"
  conf_Spec :: Spec
  NodePubKey :: string

text \<open>The option is whether TLS is used.\<close>

definition NewGrpcDialOption :: "bool \<Rightarrow> bool" where
  "NewGrpcDialOption isdebug = (if isdebug then False else True)"

definition setupGrpcServerClient :: "'e server_env_scheme \<Rightarrow> SysInfo \<Rightarrow> string \<Rightarrow> bool
    \<Rightarrow> ('z world_scheme, 'z world_scheme ServerClientImpl) go" where
  "setupGrpcServerClient env sysInfo url option =
     bind (attempt (perform env (SysCall (GrpcDial url option)))) (\<lambda>r.
     let serverClient = NewServerClient env sysInfo in
     case r of Inl e \<Rightarrow> throw e | Inr _ \<Rightarrow> ret serverClient)"

definition setupGrpcSignalClient :: "'e signal_env_scheme \<Rightarrow> SysInfo \<Rightarrow> string \<Rightarrow> bool
    \<Rightarrow> ('z signal_world_scheme, 'z signal_world_scheme SignalClientImpl) go" where
  "setupGrpcSignalClient env sysInfo url option =
     bind (perform env (SysCall (GrpcDial url option))) (\<lambda>_.
     bind (modify NewConnectedState) (\<lambda>_.
     ret (NewSignalClient env sysInfo)))"

definition NewConf :: "nat \<Rightarrow> 'e signal_env_scheme \<Rightarrow> string \<Rightarrow> bool \<Rightarrow> string \<Rightarrow> 64 word \<Rightarrow> string \<Rightarrow> 64 word
    \<Rightarrow> ('z signal_world_scheme, 'z signal_world_scheme Conf) go" where
  "NewConf fuel env path isDev serverHost serverPort signalHost signalPort =
     bind (NewFileStore env (DefaultRunetaleClientStateFile env)) (\<lambda>cfs.
     bind (WritePrivateKey env (FileStore_manager env) (NewClientStore cfs)) (\<lambda>(err, cs). case err of
       Some e \<Rightarrow> throw e
     | None \<Rightarrow>
     bind (CreateSpec env (NewSpec path serverHost serverPort signalHost signalPort isDev)) (\<lambda>spec.
     let option = NewGrpcDialOption isDev in
     bind (NewSysInfo fuel env) (\<lambda>sys.
     bind (setupGrpcServerClient env sys (GetServerHost spec) option) (\<lambda>serverClient.
     bind (setupGrpcSignalClient env sys (GetSignalHost spec) option) (\<lambda>signalClient.
     bind (GetPublicKey env (FileStore_manager env) cs) (\<lambda>(pk, cs).
     ret \<lparr>conf_SignalClient = signalClient, conf_ServerClient = serverClient, conf_Spec = spec,
          NodePubKey = pk\<rparr>)))))))"

section \<open>What leaves a file alone\<close>

definition file_is :: "string \<Rightarrow> string option \<Rightarrow> 'z world_scheme \<Rightarrow> bool" where
  "file_is p c w \<longleftrightarrow> files w p = c"

lemma file_is_hist [simp]: "file_is p c (w\<lparr>hist := h\<rparr>) = file_is p c w"
  by (simp add: file_is_def)

lemma keeps_file_perform [keeps_intros]: "keeps (file_is p c) (perform env x)"
  by (rule keeps_perform) simp

lemma keeps_file_emit [keeps_intros]: "keeps (file_is p c) (emit x)"
  by (rule keeps_emit) simp

lemma keeps_file_Atomic:
  assumes "fresh_temps env p" "fresh_temps env fn" "fn \<noteq> p"
  shows "keeps (file_is p c) (AtomicWriteFile env fn data perm)"
proof (rule keepsI)
  fix w :: "'z world_scheme" assume w: "file_is p c w"
  obtain r w' where a: "AtomicWriteFile env fn data perm w = (r, w')" by (metis surj_pair)
  let ?tmp = "str_of env (hist w @ [OsCall (OsTempFile (Dir fn) (Base fn @ ''.tmp''))])"
  have "?tmp \<noteq> fn" "?tmp \<noteq> p" using assms by (auto simp: fresh_temps_def)
  from AtomicWriteFile_atomic_run [OF refl this(1) a] this w assms(3) a
  show "file_is p c (snd (AtomicWriteFile env fn data perm w))"
    by (auto simp: file_is_def)
qed

lemma keeps_file_CreateSpec:
  assumes "fresh_temps env p" "fresh_temps env (spec_path s)" "spec_path s \<noteq> p"
  shows "keeps (file_is p c) (CreateSpec env s)"
proof -
  have atomic: "keeps (file_is p c) (AtomicWriteFile env (spec_path s) data perm)" for data perm
    by (rule keeps_file_Atomic [OF assms])
  have wr: "keeps (file_is p c) (writeSpec env s k t sh sp gh gp bl psk)" for k t sh sp gh gp bl psk
    unfolding writeSpec_def Let_def using atomic by (intro keeps_intros) simp_all
  have rd: "keeps (file_is p c) (ReadFile env f)" for f
    unfolding ReadFile_def by (intro keeps_intros) (simp add: keeps_def)
  show ?thesis
    unfolding CreateSpec_def NewGenerateKey_def Let_def by (intro keeps_intros wr rd)
qed

lemma keeps_run_output: "(\<And>x. keeps I (perform env x)) \<Longrightarrow> (\<And>x. keeps I (emit x)) \<Longrightarrow> keeps I (run_output env a n)"
  unfolding run_output_def by (intro keeps_intros)

lemma keeps_broken_loop:
  "keeps I m \<Longrightarrow> (\<And>x. keeps I (emit x)) \<Longrightarrow> keeps I (broken_loop fuel env m again cond out)"
  by (induction fuel arbitrary: cond out) (subst broken_loop.simps; simp add: keeps_intros)+

lemma keeps_index [keeps_intros]: "keeps I (index xs n)"
  by (simp add: index_def keeps_intros)

lemma keeps_NewSysInfo:
  assumes "\<And>x. keeps I (perform env x)" "\<And>x. keeps I (emit x)"
  shows "keeps I (NewSysInfo fuel env)"
  unfolding NewSysInfo_def GetInfo_linux_def GetInfo_darwin_def getInfo_linux_def getInfo_darwin_def
    getReleaseInfo_def get_hostname_def ask_def Let_def
  by (intro keeps_intros keeps_broken_loop keeps_run_output assms)

section \<open>The key in the state file\<close>

definition reads_key :: "bytes \<Rightarrow> RunetaleClientPrivateState \<Rightarrow> bool" where
  "reads_key bs k \<longleftrightarrow> UnmarshalText zero_private_state bs = (None, k)"

definition holds_key :: "'e env_scheme \<Rightarrow> string \<Rightarrow> RunetaleClientPrivateState \<Rightarrow> 'z world_scheme \<Rightarrow> bool" where
  "holds_key env p k w \<longleftrightarrow> (\<exists>b m bs. files w p = Some b \<and> unmarshal_states b = Inr (Some m) \<and>
     map_of m ClientPrivateKeyStateKey = Some bs \<and> reads_key (slice bs) k)"

text \<open>What a text is read as does not depend on the key that was there.\<close>

lemma reads_key_any:
  assumes "reads_key bs k" "length (privateKey s) = 32"
  shows "UnmarshalText s bs = (None, k)"
proof -
  let ?n = "length clientPrivateKeyPrefix"
  obtain out where out: "parse_hex_loop (replicate 32 0) (drop ?n bs) = (None, out)" "k = \<lparr>privateKey = out\<rparr>"
    "take ?n bs = clientPrivateKeyPrefix" "length (drop ?n bs) = 64"
    using assms(1) by (auto simp: reads_key_def UnmarshalText_def parseHex_def zero_private_state_def Let_def
        split: if_splits prod.splits)
  have h: "map lower_hex (drop ?n bs) = hex_encode out"
    using parse_hex_loop_sound [OF out(1)] out(4) by simp
  have "length out = 32" using length_parse_hex_loop [of "replicate 32 0" "drop ?n bs"] out(1) by simp
  then have "parse_hex_loop (privateKey s) (drop ?n bs) = (None, out)"
    using parse_hex_loop_complete [OF h, of "privateKey s"] assms(2) by simp
  with out assms(2) show ?thesis by (simp add: UnmarshalText_def parseHex_def Let_def)
qed

lemma reads_key_length: "reads_key bs k \<Longrightarrow> length (privateKey k) = 32"
  using length_parse_hex_loop [of "replicate 32 0"]
  by (auto simp: reads_key_def UnmarshalText_def parseHex_def zero_private_state_def Let_def split: if_splits prod.splits)
    (metis length_replicate snd_conv)

lemma reads_key_Marshal: "length (privateKey k) = 32 \<Longrightarrow> reads_key (MarshalText k) k"
  by (simp add: reads_key_def Unmarshal_Marshal zero_private_state_def)

lemma valid_state_key: "valid ClientPrivateKeyStateKey"
  unfolding valid_def ClientPrivateKeyStateKey_def by (rule sane_ascii) code_simp

lemma WritePrivateKey_holds:
  fixes w :: "'z world_scheme"
  assumes "WritePrivateKey env (FileStore_manager env) (NewClientStore s) w = (Ok (None, cs), w')"
    "store_free w" "fs_path s = p" "fresh_temps env p"
    "\<forall>h. length (key_of env h) = 32"
    "cache s = Some [] \<or> (\<exists>b. files w p = Some b \<and> unmarshal_states b = Inr (cache s))"
  shows "\<exists>bs. map_of (entries (storeManager cs)) ClientPrivateKeyStateKey = Some bs \<and>
    reads_key (slice bs) (cs_privateKey cs) \<and> holds_key env p (cs_privateKey cs) w' \<and> store_free w' \<and>
    (\<forall>k. cache s \<noteq> Some [] \<longrightarrow> holds_key env p k w \<longrightarrow> cs_privateKey cs = k)"
proof (cases "map_of (entries s) ClientPrivateKeyStateKey")
  case (Some bs)
  then have rd: "ReadState s ClientPrivateKeyStateKey w = (Ok (slice bs), w)" using assms(2) by (simp add: ReadState_run)
  obtain e k where u: "UnmarshalText zero_private_state (slice bs) = (e, k)" by (metis surj_pair)
  have e: "e = None" "cs = \<lparr>storeManager = s, cs_privateKey = k\<rparr>" "w' = w"
    using assms(1) rd u
    by (auto simp: WritePrivateKey_def FileStore_manager_def NewClientStore_def attempt_def bind_def ret_def split: option.splits)
  from Some obtain m where m: "cache s = Some m" "entries s = m" by (auto simp: entries_def split: option.splits)
  with Some assms(6) obtain b where b: "files w p = Some b" "unmarshal_states b = Inr (Some m)" by auto
  with m Some e u have h: "holds_key env p k w" by (auto simp: holds_key_def reads_key_def)
  have same: "cs_privateKey cs = k'" if "holds_key env p k' w" for k'
    using that b m Some u e by (auto simp: holds_key_def reads_key_def)
  have "map_of (entries (storeManager cs)) ClientPrivateKeyStateKey = Some bs" "reads_key (slice bs) (cs_privateKey cs)"
    "holds_key env p (cs_privateKey cs) w'" "store_free w'"
    using Some u e assms(2) h by (simp_all add: reads_key_def)
  with same show ?thesis by blast
next
  case None
  let ?fm = "FileStore_manager env :: (FileStore, 'z world_scheme) FileStoreManager"
  let ?h = "hist w @ [OsCall OsGenerateKey]"
  let ?k = "\<lparr>privateKey = key_of env ?h\<rparr>"
  have rd: "fm_ReadState ?fm (storeManager (NewClientStore s)) ClientPrivateKeyStateKey w = (Err ErrStateNotFound, w)"
    using None assms(2) by (simp add: FileStore_manager_def ReadState_run NewClientStore_def)
  have ok: "err_of env ?h = None"
  proof (rule ccontr)
    assume "err_of env ?h \<noteq> None"
    then obtain e where e: "err_of env ?h = Some e" by auto
    have at: "attempt (fm_ReadState ?fm (storeManager (NewClientStore s)) ClientPrivateKeyStateKey) w = (Ok (Inl ErrStateNotFound), w)"
      using rd by (simp add: attempt_def)
    have "NewClientPrivateKey env w = (Err e, w\<lparr>hist := ?h\<rparr>)"
      using e by (simp add: NewClientPrivateKey_def query_def)
    then have "attempt (NewClientPrivateKey env) w = (Ok (Inl e), w\<lparr>hist := ?h\<rparr>)" by (simp add: attempt_def)
    then have "WritePrivateKey env ?fm (NewClientStore s) w = (Ok (Some e, NewClientStore s), w\<lparr>hist := ?h\<rparr>)"
      unfolding WritePrivateKey_def bind_def by (simp only: at prod.case res.case sum.case ret_def)
    with assms(1) show False by simp
  qed
  have free: "store_free (w\<lparr>hist := ?h\<rparr>)" using assms(2) by simp
  have ne: "cached s ClientPrivateKeyStateKey \<noteq> MarshalText ?k"
    using None by (simp add: cached_def MarshalText_not_Nil [THEN not_sym])
  let ?w1 = "(w\<lparr>hist := ?h\<rparr>)\<lparr>held := insert store_mu (held (w\<lparr>hist := ?h\<rparr>))\<rparr>"
  have nn: "cache s \<noteq> None"
  proof
    assume "cache s = None"
    with WriteState_run [OF free, of s ClientPrivateKeyStateKey "MarshalText ?k" env] ne obtain w2 where
      wr: "WriteState env s ClientPrivateKeyStateKey (MarshalText ?k) (w\<lparr>hist := ?h\<rparr>) = (Panic ''assignment to entry in nil map'', w2)"
      by auto
    have g: "attempt (NewClientPrivateKey env) w = (Ok (Inr ?k), w\<lparr>hist := ?h\<rparr>)"
      using ok by (simp add: NewClientPrivateKey_def query_def attempt_def bind_def perform_def Let_def gets_def ret_def)
    have at: "attempt (fm_ReadState ?fm (storeManager (NewClientStore s)) ClientPrivateKeyStateKey) w = (Ok (Inl ErrStateNotFound), w)"
      using rd by (simp add: attempt_def)
    have "WritePrivateKey env ?fm (NewClientStore s) w = (Panic ''assignment to entry in nil map'', w2)"
      using wr unfolding WritePrivateKey_def bind_def
      by (simp only: at g prod.case res.case sum.case) (simp add: FileStore_manager_def NewClientStore_def)
    with assms(1) show False by simp
  qed
  then obtain m0 where m0: "cache s = Some m0" "entries s = m0" by (auto simp: entries_def)
  let ?m = "put_state ClientPrivateKeyStateKey (copied (MarshalText ?k)) m0"
  from WriteState_run [OF free, of s ClientPrivateKeyStateKey "MarshalText ?k" env] ne m0 obtain r w2 w3 where
    a: "AtomicWriteFile env (fs_path s) (marshal_states (Some ?m)) 420 ?w1 = (r, w2)" and
    wr: "WriteState env s ClientPrivateKeyStateKey (MarshalText ?k) (w\<lparr>hist := ?h\<rparr>) =
      (Ok (case r of Err e \<Rightarrow> Some e | _ \<Rightarrow> None, s\<lparr>cache := Some ?m\<rparr>), w3)" and
    w3: "r = Ok () \<or> (\<exists>e. r = Err e)" "files w3 = files w2" "store_free w3" by auto
  have "fm_WriteState ?fm (storeManager (NewClientStore s)) ClientPrivateKeyStateKey (MarshalText ?k) (w\<lparr>hist := ?h\<rparr>) =
      (Ok (case r of Err e \<Rightarrow> Some e | _ \<Rightarrow> None, s\<lparr>cache := Some ?m\<rparr>), w3)"
    using wr by (simp add: FileStore_manager_def NewClientStore_def)
  from WritePrivateKey_new [OF rd refl ok this] assms(1) w3(1) have
    r: "r = Ok ()" "cs = \<lparr>storeManager = s\<lparr>cache := Some ?m\<rparr>, cs_privateKey = ?k\<rparr>" "w' = w3"
    by (auto simp: NewClientStore_def)
  have tmp: "str_of env (hist ?w1 @ [OsCall (OsTempFile (Dir (fs_path s)) (Base (fs_path s) @ ''.tmp''))]) \<noteq> fs_path s"
    unfolding assms(3) using assms(4) unfolding fresh_temps_def by blast
  from AtomicWriteFile_atomic_run [OF refl tmp a] r(1) have "files w3 p = Some (marshal_states (Some ?m))"
    using w3(2) assms(3) by auto
  moreover have reads: "reads_key (MarshalText ?k) ?k" using assms(5) by (simp add: reads_key_Marshal)
  moreover have "states_ok m0"
    using assms(6) m0 unmarshal_states_ok by (auto simp: states_ok_def)
  then have "unmarshal_states (marshal_states (Some ?m)) = Inr (Some ?m)"
    by (intro unmarshal_marshal_states) (auto intro: put_state_ok valid_state_key)
  ultimately have h: "holds_key env p ?k w3" by (auto simp: holds_key_def)
  have no: "\<not> holds_key env p k w" if "cache s \<noteq> Some []" for k
    using that assms(6) None m0 by (auto simp: holds_key_def)
  have "map_of (entries (storeManager cs)) ClientPrivateKeyStateKey = Some (copied (MarshalText ?k))" "cs_privateKey cs = ?k"
    "store_free w'" using r w3 by (simp_all add: entries_def)
  with reads h no r(3) show ?thesis by auto
qed

section \<open>The identity of a node over a restart\<close>

text \<open>
  What the code relies on outside: names of temporary files are new, reading a file that is there
  does not say that it is not, a random key has 32 bytes, and the specification is not kept in the state file.
\<close>

definition conf_outside :: "'e env_scheme \<Rightarrow> string \<Rightarrow> bool" where
  "conf_outside env path \<longleftrightarrow> (let p = DefaultRunetaleClientStateFile env in
     fresh_temps env p \<and> fresh_temps env path \<and> path \<noteq> p \<and> honest_reads env p \<and>
     (\<forall>h. length (key_of env h) = 32))"

lemma setup_keeps_file:
  "keeps (file_is p c) (setupGrpcServerClient env sys url opt)"
  "keeps (file_is p c :: 'z signal_world_scheme \<Rightarrow> bool) (setupGrpcSignalClient env sys url opt)"
  unfolding setupGrpcServerClient_def setupGrpcSignalClient_def Let_def
  by (intro keeps_intros keeps_modify; simp add: file_is_def NewConnectedState_def)+

lemma GetPublicKey_found:
  assumes "store_free w" "map_of (entries (storeManager cs)) ClientPrivateKeyStateKey = Some bs"
    "reads_key (slice bs) k" "length (privateKey (cs_privateKey cs)) = 32"
  shows "GetPublicKey env (FileStore_manager env) cs w = (Ok (PublicKey_String env k, cs\<lparr>cs_privateKey := k\<rparr>), w)"
  using assms reads_key_any [OF assms(3,4)]
  by (simp add: GetPublicKey_def get_key_def FileStore_manager_def ReadState_run attempt_def bind_def ret_def)

lemma NewConf_key:
  fixes w :: "'z signal_world_scheme"
  assumes out: "conf_outside env path" and free: "held w = {}"
    and run: "NewConf fuel env path isDev sh sp gh gp w = (Ok c, w')"
  shows "\<exists>k. holds_key env (DefaultRunetaleClientStateFile env) k w' \<and> NodePubKey c = PublicKey_String env k \<and>
    (\<forall>k'. holds_key env (DefaultRunetaleClientStateFile env) k' w \<longrightarrow> k' = k)"
proof -
  define p where "p = DefaultRunetaleClientStateFile env"
  have o: "fresh_temps env p" "fresh_temps env path" "path \<noteq> p" "honest_reads env p"
    "\<forall>h. length (key_of env h) = 32"
    using out by (simp_all add: conf_outside_def p_def Let_def)
  from run obtain s w1 where 1: "NewFileStore env p w = (Ok s, w1)" and r1:
    "bind (WritePrivateKey env (FileStore_manager env) (NewClientStore s)) (\<lambda>(err, cs). case err of
       Some e \<Rightarrow> throw e
     | None \<Rightarrow>
     bind (CreateSpec env (NewSpec path sh sp gh gp isDev)) (\<lambda>spec.
     let option = NewGrpcDialOption isDev in
     bind (NewSysInfo fuel env) (\<lambda>sys.
     bind (setupGrpcServerClient env sys (GetServerHost spec) option) (\<lambda>serverClient.
     bind (setupGrpcSignalClient env sys (GetSignalHost spec) option) (\<lambda>signalClient.
     bind (GetPublicKey env (FileStore_manager env) cs) (\<lambda>(pk, cs).
     ret \<lparr>conf_SignalClient = signalClient, conf_ServerClient = serverClient, conf_Spec = spec,
          NodePubKey = pk\<rparr>)))))) w1 = (Ok c, w')"
    unfolding NewConf_def p_def by (rule bind_OkE)
  note op = NewFileStore_opens [OF 1 o(4)]
  have free1: "store_free w1" using op free by (simp add: store_free_def)
  from r1 obtain cs w2 where 2: "WritePrivateKey env (FileStore_manager env) (NewClientStore s) w1 = (Ok (None, cs), w2)" and r2:
    "bind (CreateSpec env (NewSpec path sh sp gh gp isDev)) (\<lambda>spec.
     let option = NewGrpcDialOption isDev in
     bind (NewSysInfo fuel env) (\<lambda>sys.
     bind (setupGrpcServerClient env sys (GetServerHost spec) option) (\<lambda>serverClient.
     bind (setupGrpcSignalClient env sys (GetSignalHost spec) option) (\<lambda>signalClient.
     bind (GetPublicKey env (FileStore_manager env) cs) (\<lambda>(pk, cs).
     ret \<lparr>conf_SignalClient = signalClient, conf_ServerClient = serverClient, conf_Spec = spec,
          NodePubKey = pk\<rparr>))))) w2 = (Ok c, w')"
    by (rule bind_OkE) (auto simp: throw_def split: prod.splits option.splits)
  from WritePrivateKey_holds [OF 2 free1 _ o(1,5)] op obtain bs where bs:
    "map_of (entries (storeManager cs)) ClientPrivateKeyStateKey = Some bs" "reads_key (slice bs) (cs_privateKey cs)"
    "holds_key env p (cs_privateKey cs) w2" "store_free w2"
    "\<And>k. cache s \<noteq> Some [] \<Longrightarrow> holds_key env p k w1 \<Longrightarrow> cs_privateKey cs = k" by blast
  from r2 obtain spec sys sv sc pk cs' w3 w4 w5 w6 where
    3: "CreateSpec env (NewSpec path sh sp gh gp isDev) w2 = (Ok spec, w3)" and
    4: "NewSysInfo fuel env w3 = (Ok sys, w4)" and
    5: "setupGrpcServerClient env sys (GetServerHost spec) (NewGrpcDialOption isDev) w4 = (Ok sv, w5)" and
    6: "setupGrpcSignalClient env sys (GetSignalHost spec) (NewGrpcDialOption isDev) w5 = (Ok sc, w6)" and
    7: "GetPublicKey env (FileStore_manager env) cs w6 = (Ok (pk, cs'), w')" and c: "NodePubKey c = pk"
    by (auto elim!: bind_OkE simp: ret_def Let_def)
  have free6: "store_free w6"
  proof (rule ccontr)
    assume "\<not> store_free w6"
    then have "fst (GetPublicKey env (FileStore_manager env) cs w6) = Stuck"
      by (simp add: GetPublicKey_def get_key_def FileStore_manager_def ReadState_def with_lock_def store_free_def
          bind_def attempt_def)
    with 7 show False by simp
  qed
  have pk: "pk = PublicKey_String env (cs_privateKey cs)" "files w' = files w6"
    using GetPublicKey_found [OF free6 bs(1,2) reads_key_length [OF bs(2)], of env] 7 by auto
  have "file_is p (files w2 p) w6"
  proof -
    let ?I = "file_is p (files w2 p) :: 'z signal_world_scheme \<Rightarrow> bool"
    have cs: "keeps ?I (CreateSpec env (NewSpec path sh sp gh gp isDev))"
      by (rule keeps_file_CreateSpec) (use o in simp_all)
    have si: "keeps ?I (NewSysInfo fuel env)" by (rule keeps_NewSysInfo) (rule keeps_intros)+
    have "?I w2" by (simp add: file_is_def)
    then have "?I w3" by (rule keeps_run [where I = ?I, OF cs 3])
    then have "?I w4" by (rule keeps_run [where I = ?I, OF si 4])
    from keeps_run [OF setup_keeps_file(2) 6 keeps_run [OF setup_keeps_file(1) 5 this]] show ?thesis .
  qed
  with bs(3) pk(2) have now: "holds_key env p (cs_privateKey cs) w'"
    by (simp add: holds_key_def file_is_def)
  have "k' = cs_privateKey cs" if "holds_key env p k' w" for k'
  proof -
    from that op obtain b where b: "files w p = Some b" "files w1 p = Some b" "unmarshal_states b = Inr (cache s)"
      by (auto simp: holds_key_def)
    with that have "holds_key env p k' w1" "cache s \<noteq> Some []" by (auto simp: holds_key_def)
    with bs(5) show ?thesis by simp
  qed
  with now pk(1) c show ?thesis unfolding p_def [symmetric] by blast
qed

section \<open>Properties\<close>

text \<open>
  C7. A node has the same identity whenever it is configured: two runs of \<open>NewConf\<close> one after
  the other, whatever their flags and whatever has become of the other files and of the
  connections between them, give the same public key, although the first may have had to
  create it.
\<close>
theorem NewConf_same_identity:
  fixes w w2 :: "'z signal_world_scheme"
  assumes "conf_outside env path" "conf_outside env path'" "held w = {}" "held w2 = {}"
    "NewConf fuel env path isDev sh sp gh gp w = (Ok c, w1)"
    "files w2 (DefaultRunetaleClientStateFile env) = files w1 (DefaultRunetaleClientStateFile env)"
    "NewConf fuel' env path' isDev' sh' sp' gh' gp' w2 = (Ok c', w3)"
  shows "NodePubKey c' = NodePubKey c"
proof -
  from NewConf_key [OF assms(1,3,5)] obtain k where
    k: "holds_key env (DefaultRunetaleClientStateFile env) k w1" "NodePubKey c = PublicKey_String env k" by blast
  from k(1) assms(6) have "holds_key env (DefaultRunetaleClientStateFile env) k w2" by (simp add: holds_key_def)
  with NewConf_key [OF assms(2,4,7)] k(2) show ?thesis by auto
qed

section \<open>A configuration is created when nothing fails\<close>

lemma WritePrivateKey_calm:
  fixes w :: "'z world_scheme"
  assumes "\<forall>h. err_of env h = None" "store_free w"
    "cache s = Some [] \<or> (\<exists>bs k. map_of (entries s) ClientPrivateKeyStateKey = Some bs \<and> reads_key (slice bs) k)"
  shows "\<exists>cs w'. WritePrivateKey env (FileStore_manager env) (NewClientStore s) w = (Ok (None, cs), w')"
proof (cases "map_of (entries s) ClientPrivateKeyStateKey")
  case (Some bs)
  then have rd: "ReadState s ClientPrivateKeyStateKey w = (Ok (slice bs), w)" using assms(2) by (simp add: ReadState_run)
  from Some assms(3) have "\<exists>k. UnmarshalText zero_private_state (slice bs) = (None, k)" by (auto simp: reads_key_def entries_def)
  with rd show ?thesis
    by (auto simp: WritePrivateKey_def FileStore_manager_def NewClientStore_def attempt_def bind_def ret_def)
next
  case None
  let ?fm = "FileStore_manager env :: (FileStore, 'z world_scheme) FileStoreManager"
  let ?h = "hist w @ [OsCall OsGenerateKey]"
  let ?k = "\<lparr>privateKey = key_of env ?h\<rparr>"
  have rd: "fm_ReadState ?fm (storeManager (NewClientStore s)) ClientPrivateKeyStateKey w = (Err ErrStateNotFound, w)"
    using None assms(2) by (simp add: FileStore_manager_def ReadState_run NewClientStore_def)
  have free: "store_free (w\<lparr>hist := ?h\<rparr>)" using assms(2) by simp
  have ne: "cached s ClientPrivateKeyStateKey \<noteq> MarshalText ?k"
    using None by (simp add: cached_def MarshalText_not_Nil [THEN not_sym])
  have "\<exists>sm w'. WriteState env s ClientPrivateKeyStateKey (MarshalText ?k) (w\<lparr>hist := ?h\<rparr>) = (Ok (None, sm), w')"
  proof -
    let ?w1 = "(w\<lparr>hist := ?h\<rparr>)\<lparr>held := insert store_mu (held (w\<lparr>hist := ?h\<rparr>))\<rparr>"
    let ?m = "put_state ClientPrivateKeyStateKey (copied (MarshalText ?k)) []"
    have m: "cache s = Some []" using assms(3) None by auto
    obtain w2 where a: "AtomicWriteFile env (fs_path s) (marshal_states (Some ?m)) 420 ?w1 = (Ok (), w2)"
      using AtomicWriteFile_calm [OF assms(1)] by blast
    from WriteState_run [OF free, of s ClientPrivateKeyStateKey "MarshalText ?k" env] ne a m show ?thesis by auto
  qed
  then obtain sm w' where "fm_WriteState ?fm (storeManager (NewClientStore s)) ClientPrivateKeyStateKey (MarshalText ?k) (w\<lparr>hist := ?h\<rparr>) = (Ok (None, sm), w')"
    by (auto simp: FileStore_manager_def NewClientStore_def)
  from WritePrivateKey_new [OF rd refl _ this] assms(1) show ?thesis by simp
qed

text \<open>An outside in which every call succeeds and \<open>uname\<close> prints at least four words.\<close>

definition all_well :: "'e env_scheme \<Rightarrow> bool" where
  "all_well env \<longleftrightarrow> (\<forall>h. err_of env h = None \<and> bool_of env h \<and> \<not> Contains (str_of env h) ''broken pipe'' \<and>
     4 \<le> length (os_words (str_of env h)))"

lemma all_wellD:
  assumes "all_well env"
  shows "\<forall>h. err_of env h = None" "\<forall>h. bool_of env h" "\<not> Contains (str_of env h) ''broken pipe''"
    "4 \<le> length (os_words (str_of env h))"
  using assms by (simp_all add: all_well_def)

lemma keeps_free_CreateSpec: "keeps (store_free :: 'z world_scheme \<Rightarrow> bool) (CreateSpec env s)"
proof -
  have a: "keeps (store_free :: 'z world_scheme \<Rightarrow> bool) (AtomicWriteFile env fn data perm)" for fn data perm
    by (rule keeps_AtomicWriteFile) (simp_all add: store_free_def)
  have pf: "keeps (store_free :: 'z world_scheme \<Rightarrow> bool) (perform env x)" for x
    by (rule keeps_perform) simp
  have wr: "keeps (store_free :: 'z world_scheme \<Rightarrow> bool) (writeSpec env s k t sh sp gh gp bl psk)"
    for k t sh sp gh gp bl psk
    unfolding writeSpec_def Let_def by (intro keeps_intros a pf)
  have rd: "keeps (store_free :: 'z world_scheme \<Rightarrow> bool) (ReadFile env f)" for f
    unfolding ReadFile_def by (intro keeps_intros pf) (simp add: keeps_def)
  show ?thesis
    unfolding CreateSpec_def NewGenerateKey_def Let_def by (intro keeps_intros wr rd pf)
qed

lemma NewSysInfo_calm:
  assumes "all_well env"
  shows "\<exists>sys w'. NewSysInfo fuel env w = (Ok sys, w')"
proof -
  note all = all_wellD [OF assms]
  have ok: "perform env c v = (Ok (), v\<lparr>hist := hist v @ [c]\<rparr>)" for c and v :: "'b world_scheme"
    using all(1) by simp
  have out: "run_output env args name v = (Ok (str_of env (hist v @ [ExecCall (ExecOutput args)])),
      v\<lparr>hist := hist v @ [ExecCall (ExecOutput args)]\<rparr>)" for args name and v :: "'b world_scheme"
    by (simp add: run_output_def ok attempt_def bind_def gets_def ret_def)
  have ix: "index (os_words (str_of env h)) n v = (Ok (os_words (str_of env h) ! n), v)" if "n < 4" for h n and v :: "'b world_scheme"
    using all(4) [of h] that by (simp add: index_def ret_def)
  have host: "get_hostname env v = (Ok (str_of env (hist v @ [SysCall GetHostname])), v\<lparr>hist := hist v @ [SysCall GetHostname]\<rparr>)"
    for v :: "'b world_scheme"
    by (simp add: get_hostname_def query_def ok attempt_def bind_def gets_def ret_def)
  show ?thesis
    by (cases "foldl release_line ([], []) (Split (str_of env ((hist w @ [ExecCall (ExecOutput [''uname'', ''-srio''])]) @
          [ExecCall (ExecOutput [''cat'', ''/etc/os-release''])])) CHR 0x0A)")
       (auto simp: NewSysInfo_def GetInfo_darwin_def GetInfo_linux_def getInfo_linux_def getInfo_darwin_def getReleaseInfo_def
          bind_def out all(3) ret_def ix ask_def gets_def host Let_def)
qed

lemma NewConf_calm:
  fixes w :: "'z signal_world_scheme"
  assumes well: "all_well env" and out: "conf_outside env path" and free: "held w = {}"
    and st: "files w (DefaultRunetaleClientStateFile env) = None \<or>
      (\<exists>k. holds_key env (DefaultRunetaleClientStateFile env) k w)"
  shows "\<exists>c w'. NewConf fuel env path isDev sh sp gh gp w = (Ok c, w')"
proof -
  note all = all_wellD [OF well]
  define p where "p = DefaultRunetaleClientStateFile env"
  have o: "fresh_temps env p" "fresh_temps env path" "path \<noteq> p" "honest_reads env p"
    "\<forall>h. length (key_of env h) = 32"
    using out by (simp_all add: conf_outside_def p_def Let_def)
  obtain s w1 where 1: "NewFileStore env p w = (Ok s, w1)"
    using NewFileStore_calm [OF all(1,2), of w p] st by (auto simp: p_def holds_key_def)
  note op = NewFileStore_opens [OF 1 o(4)]
  have f1: "store_free w1" using op free by (simp add: store_free_def)
  have c: "cache s = Some [] \<or> (\<exists>bs k. map_of (entries s) ClientPrivateKeyStateKey = Some bs \<and> reads_key (slice bs) k)"
    using op st by (cases "cache s") (auto simp: p_def [symmetric] holds_key_def entries_def)
  obtain cs w2 where 2: "WritePrivateKey env (FileStore_manager env) (NewClientStore s) w1 = (Ok (None, cs), w2)"
    using WritePrivateKey_calm [OF all(1) f1 c] by blast
  from WritePrivateKey_holds [OF 2 f1 _ o(1,5)] op obtain bs where bs:
    "map_of (entries (storeManager cs)) ClientPrivateKeyStateKey = Some bs" "reads_key (slice bs) (cs_privateKey cs)"
    "store_free w2" by blast
  let ?I = "store_free :: 'z signal_world_scheme \<Rightarrow> bool"
  obtain spec w3 where 3: "CreateSpec env (NewSpec path sh sp gh gp isDev) w2 = (Ok spec, w3)"
    using CreateSpec_calm [OF all(1)] by blast
  obtain sys w4 where 4: "NewSysInfo fuel env w3 = (Ok sys, w4)" using NewSysInfo_calm [OF well] by blast
  define w5 where "w5 = w4\<lparr>hist := hist w4 @ [SysCall (GrpcDial (GetServerHost spec) (NewGrpcDialOption isDev))]\<rparr>"
  have 5: "setupGrpcServerClient env sys (GetServerHost spec) (NewGrpcDialOption isDev) w4 = (Ok (NewServerClient env sys), w5)"
    using all(1) by (simp add: setupGrpcServerClient_def w5_def attempt_def bind_def ret_def Let_def)
  define w6 where "w6 = NewConnectedState (w5\<lparr>hist := hist w5 @ [SysCall (GrpcDial (GetSignalHost spec) (NewGrpcDialOption isDev))]\<rparr>)"
  have 6: "setupGrpcSignalClient env sys (GetSignalHost spec) (NewGrpcDialOption isDev) w5 = (Ok (NewSignalClient env sys), w6)"
    using all(1) by (simp add: setupGrpcSignalClient_def w6_def modify_def bind_def ret_def)
  have cs: "keeps ?I (CreateSpec env (NewSpec path sh sp gh gp isDev))" by (rule keeps_free_CreateSpec)
  have si: "keeps ?I (NewSysInfo fuel env)"
    by (rule keeps_NewSysInfo) (intro keeps_perform keeps_emit; simp)+
  have "?I w4" by (rule keeps_run [where I = ?I, OF si 4 keeps_run [where I = ?I, OF cs 3 bs(3)]])
  then have "?I w6" by (simp add: w6_def w5_def NewConnectedState_def store_free_def)
  from GetPublicKey_found [OF this bs(1,2) reads_key_length [OF bs(2)], of env] 1 2 3 4 5 6 show ?thesis
    by (simp add: NewConf_def p_def [symmetric] Let_def ret_def)
qed

text \<open>An outside in which all goes well, and a world in which nothing has been stored.\<close>

definition conf_env1 :: signal_env where
  "conf_env1 = signal_env1\<lparr>str_of := \<lambda>h. ''Linux 6.1 x86_64 GNU/Linux'', bool_of := \<lambda>h. True\<rparr>"

lemma conf_env1_outside: "conf_outside conf_env1 ''/etc/runetale/client.json''" "all_well conf_env1"
proof -
  have "\<not> Contains ''Linux 6.1 x86_64 GNU/Linux'' ''broken pipe''" "length (os_words ''Linux 6.1 x86_64 GNU/Linux'') = 4"
    by (code_simp, code_simp)
  then show "all_well conf_env1"
    by (simp add: all_well_def conf_env1_def)
  show "conf_outside conf_env1 ''/etc/runetale/client.json''"
    by (simp add: conf_outside_def conf_env1_def fresh_temps_def honest_reads_def DefaultRunetaleClientStateFile_def
        signal_env1_def server_env1_def env1_def env0_def signal_env.defs server_env.defs env.defs)
qed

theorem NewConf_same_identity_witness:
  "\<exists>c w1 c' w3.
     NewConf 1 conf_env1 ''/etc/runetale/client.json'' False ''https://a'' 443 ''https://b'' 443 conn_world0 = (Ok c, w1) \<and>
     NewConf 1 conf_env1 ''/etc/runetale/client.json'' True [] 80 [] 80 (w1\<lparr>held := {}\<rparr>) = (Ok c', w3) \<and>
     NodePubKey c' = NodePubKey c"
proof -
  let ?p = "''/etc/runetale/client.json''"
  have h0: "held conn_world0 = {}" "files conn_world0 p = None" for p
    by (simp_all add: conn_world0_def NewConnectedState_def)
  obtain c w1 where 1: "NewConf 1 conf_env1 ?p False ''https://a'' 443 ''https://b'' 443 conn_world0 = (Ok c, w1)"
    using NewConf_calm [OF conf_env1_outside(2,1) h0(1)] h0(2) by blast
  let ?w = "w1\<lparr>held := {}\<rparr>"
  from NewConf_key [OF conf_env1_outside(1) h0(1) 1] have
    "\<exists>k. holds_key conf_env1 (DefaultRunetaleClientStateFile conf_env1) k ?w" by (auto simp: holds_key_def)
  moreover have h1: "held ?w = {}" by simp
  ultimately obtain c' w3 where 2: "NewConf 1 conf_env1 ?p True [] 80 [] 80 ?w = (Ok c', w3)"
    using NewConf_calm [OF conf_env1_outside(2,1) h1] by blast
  from NewConf_same_identity [OF conf_env1_outside(1) conf_env1_outside(1) h0(1) h1 1 _ 2] have
    "NodePubKey c' = NodePubKey c" by simp
  with 1 2 show ?thesis by blast
qed

end
