(* ===== verification/Go_Number.thy ===== *)
theory Go_Number
  imports Complex_Main "HOL-Library.Log_Nat" Prelude
begin

text \<open>
  Go's numbers as the program uses them: \<open>int64\<close> (the representation of
  \<open>time.Duration\<close>) as integers with the wrap-around written out, and \<open>float64\<close> as
  rationals with every operation followed by \<open>f64\<close>, the rounding of IEEE 754 binary64
  (53 significant bits, ties to even). The exponent range is not modelled: no value of
  the program comes near the largest or smallest binary64 number. The laws of a
  rounding that the backoff proofs need are the locale \<open>rounding\<close>, which \<open>f64\<close>
  satisfies.
\<close>

section \<open>Signed 64-bit integers\<close>

definition i64 :: "int \<Rightarrow> int" where
  "i64 x = (x + 2 ^ 63) mod 2 ^ 64 - 2 ^ 63"

lemma i64_id [simp]: "- (2 ^ 63) \<le> x \<Longrightarrow> x < 2 ^ 63 \<Longrightarrow> i64 x = x"
  by (simp add: i64_def)

lemma i64_range: "- (2 ^ 63) \<le> i64 x \<and> i64 x < 2 ^ 63"
  by (auto simp: i64_def)

section \<open>Rounding to binary64\<close>

definition round_half_even :: "rat \<Rightarrow> int" where
  "round_half_even x = (let f = \<lfloor>x\<rfloor>; d = x - of_int f in
     if d < 1 / 2 then f else if 1 / 2 < d then f + 1 else if even f then f else f + 1)"

definition pow2 :: "int \<Rightarrow> rat" where
  "pow2 k = (if 0 \<le> k then 2 ^ nat k else 1 / 2 ^ nat (- k))"

definition ilog2 :: "rat \<Rightarrow> int" where
  "ilog2 x = (case quotient_of x of (p, q) \<Rightarrow>
     let k = bitlen p - bitlen q in if pow2 k \<le> x then k else k - 1)"

definition f64 :: "rat \<Rightarrow> rat" where
  "f64 x = (if x = 0 then 0
     else let u = pow2 (ilog2 \<bar>x\<bar> - 52) in of_int (round_half_even (x / u)) * u)"

text \<open>\<open>time.Duration(x)\<close> of a float: the fraction is dropped; a value outside
  \<open>int64\<close> becomes the minimum, as the amd64 conversion instruction does.\<close>

definition f64_to_i64 :: "rat \<Rightarrow> int" where
  "f64_to_i64 x = (let t = (if 0 \<le> x then \<lfloor>x\<rfloor> else \<lceil>x\<rceil>) in
     if - (2 ^ 63) \<le> t \<and> t < 2 ^ 63 then t else - (2 ^ 63))"

subsection \<open>Rounding to the nearest integer\<close>

lemma round_half_even_of_int [simp]: "round_half_even (of_int n) = n"
  by (simp add: round_half_even_def)

lemma round_half_even_bounds: "\<lfloor>x\<rfloor> \<le> round_half_even x \<and> round_half_even x \<le> \<lfloor>x\<rfloor> + 1"
  by (simp add: round_half_even_def Let_def)

lemma round_half_even_mono:
  assumes "x \<le> y" shows "round_half_even x \<le> round_half_even y"
proof (cases "\<lfloor>x\<rfloor> = \<lfloor>y\<rfloor>")
  case True
  then show ?thesis using assms by (simp add: round_half_even_def Let_def)
next
  case False
  with floor_mono [OF assms] have "\<lfloor>x\<rfloor> + 1 \<le> \<lfloor>y\<rfloor>" by simp
  with round_half_even_bounds [of x] round_half_even_bounds [of y] show ?thesis by linarith
qed

subsection \<open>The binade of a positive rational\<close>

lemma pow2_powi: "pow2 k = 2 powi k"
proof (cases "0 \<le> k")
  case False
  have "1 / 2 ^ n = inverse (2 :: rat) ^ n" for n
    by (simp only: inverse_eq_divide power_one_over)
  with False show ?thesis by (simp add: pow2_def power_int_def)
qed (simp add: pow2_def power_int_def)

lemma powi_pos [simp]: "0 < (2 :: rat) powi k"
  by simp

lemma powi_split: "(2 :: rat) powi (a + b) = 2 powi a * 2 powi b"
  by (simp add: power_int_add)

lemma bitlen_powi:
  assumes "0 < n"
  shows "2 powi (bitlen n - 1) \<le> (of_int n :: rat)" and "of_int n < (2 :: rat) powi bitlen n"
proof -
  from bitlen_bounds [OF assms]
  have b: "2 ^ nat (bitlen n - 1) \<le> n" "n < 2 ^ nat (bitlen n)" by auto
  have "1 \<le> bitlen n"
    using assms bitlen_nonneg [of n] bitlen_eq_zero_iff [of n] by linarith
  then have e: "(2 :: rat) powi (bitlen n - 1) = of_int (2 ^ nat (bitlen n - 1))"
    "(2 :: rat) powi bitlen n = of_int (2 ^ nat (bitlen n))"
    by (simp_all add: power_int_def)
  show "2 powi (bitlen n - 1) \<le> (of_int n :: rat)"
    unfolding e(1) using b(1) by (rule of_int_le_iff [THEN iffD2])
  show "of_int n < (2 :: rat) powi bitlen n"
    unfolding e(2) using b(2) by (rule of_int_less_iff [THEN iffD2])
qed

lemma ilog2_bounds:
  assumes "0 < x"
  shows "2 powi ilog2 x \<le> x" and "x < 2 powi (ilog2 x + 1)"
proof -
  obtain p q where pq: "quotient_of x = (p, q)" by (cases "quotient_of x")
  have q: "0 < q" by (rule quotient_of_denom_pos [OF pq])
  have x: "x = of_int p / of_int q" by (rule quotient_of_div [OF pq])
  with q assms have p: "0 < p" by (simp add: zero_less_divide_iff)
  define k where "k = bitlen p - bitlen q"
  have lo: "2 powi (k - 1) \<le> x"
  proof -
    have "2 powi (k - 1) * of_int q \<le> 2 powi (k - 1) * (2 :: rat) powi bitlen q"
      using bitlen_powi(2) [OF q] by (simp add: mult_left_mono)
    also have "\<dots> = 2 powi (bitlen p - 1)"
      by (simp add: k_def power_int_add [symmetric])
    also have "\<dots> \<le> of_int p" by (rule bitlen_powi(1) [OF p])
    finally show ?thesis using q by (simp add: x pos_le_divide_eq)
  qed
  have hi: "x < 2 powi (k + 1)"
  proof -
    have "of_int p < (2 :: rat) powi bitlen p" by (rule bitlen_powi(2) [OF p])
    also have "\<dots> = 2 powi (k + 1) * 2 powi (bitlen q - 1)"
      by (simp add: k_def power_int_add [symmetric])
    also have "\<dots> \<le> 2 powi (k + 1) * of_int q"
      using bitlen_powi(1) [OF q] by (simp add: mult_left_mono)
    finally show ?thesis using q by (simp add: x pos_divide_less_eq)
  qed
  have l: "ilog2 x = (if 2 powi k \<le> x then k else k - 1)"
    by (simp add: ilog2_def pq k_def Let_def pow2_powi)
  show "2 powi ilog2 x \<le> x" using lo by (simp add: l)
  show "x < 2 powi (ilog2 x + 1)" using hi by (simp add: l)
qed

lemma powi_less_imp_exp: "(2 :: rat) powi a < 2 powi b \<Longrightarrow> a < b"
  by (metis linorder_not_less one_le_numeral power_int_increasing)

lemma ilog2_mono:
  assumes "0 < x" "x \<le> y" shows "ilog2 x \<le> ilog2 y"
proof -
  have "2 powi ilog2 x < (2 :: rat) powi (ilog2 y + 1)"
    using ilog2_bounds(1) [of x] ilog2_bounds(2) [of y] assms by linarith
  then show ?thesis using powi_less_imp_exp by fastforce
qed

subsection \<open>The rounding is monotone and leaves representable values alone\<close>

lemma f64_pos: "0 < x \<Longrightarrow>
  f64 x = of_int (round_half_even (x / 2 powi (ilog2 x - 52))) * 2 powi (ilog2 x - 52)"
  by (simp add: f64_def Let_def pow2_powi)

lemma f64_binade:
  assumes "0 < x"
  shows "2 powi ilog2 x \<le> f64 x" and "f64 x \<le> 2 powi (ilog2 x + 1)"
proof -
  define u :: rat where "u = 2 powi (ilog2 x - 52)"
  have u: "0 < u" by (simp add: u_def)
  have e: "2 powi ilog2 x = of_int (2 ^ 52) * u" "2 powi (ilog2 x + 1) = of_int (2 ^ 53) * u"
    using powi_split [of 52 "ilog2 x - 52"] powi_split [of 53 "ilog2 x - 52"]
    by (simp_all add: u_def add.commute)
  have "of_int (2 ^ 52) \<le> x / u" "x / u \<le> of_int (2 ^ 53)"
    using ilog2_bounds [OF assms] u unfolding e by (simp_all add: pos_le_divide_eq pos_divide_le_eq)
  from this [THEN round_half_even_mono]
  have r: "2 ^ 52 \<le> round_half_even (x / u)" "round_half_even (x / u) \<le> 2 ^ 53"
    by (simp_all only: round_half_even_of_int)
  have f: "f64 x = of_int (round_half_even (x / u)) * u"
    using f64_pos [OF assms] by (simp add: u_def)
  show "2 powi ilog2 x \<le> f64 x"
    unfolding e f using r(1) u by (simp only: mult_right_mono of_int_le_iff less_imp_le)
  show "f64 x \<le> 2 powi (ilog2 x + 1)"
    unfolding e f using r(2) u by (simp only: mult_right_mono of_int_le_iff less_imp_le)
qed

lemma f64_mono_pos:
  assumes "0 < x" "x \<le> y" shows "f64 x \<le> f64 y"
proof (cases "ilog2 x = ilog2 y")
  case True
  have "0 < y" using assms by simp
  have "x / 2 powi (ilog2 y - 52) \<le> y / 2 powi (ilog2 y - 52)"
    using assms(2) by (simp add: divide_right_mono)
  then show ?thesis
    unfolding f64_pos [OF assms(1)] f64_pos [OF \<open>0 < y\<close>] True
    by (simp add: round_half_even_mono mult_right_mono)
next
  case False
  with ilog2_mono [OF assms] have "ilog2 x + 1 \<le> ilog2 y" by simp
  then have "(2 :: rat) powi (ilog2 x + 1) \<le> 2 powi ilog2 y"
    by (simp add: power_int_increasing)
  with f64_binade(2) [of x] f64_binade(1) [of y] assms show ?thesis by linarith
qed

lemma f64_0 [simp]: "f64 0 = 0"
  by (simp add: f64_def)

lemma f64_nonneg: "0 \<le> x \<Longrightarrow> 0 \<le> f64 x"
proof (cases "x = 0")
  case False
  assume "0 \<le> x"
  with False have "0 < x" by simp
  then have "2 powi ilog2 x \<le> f64 x" by (rule f64_binade(1))
  then show ?thesis using powi_pos [of "ilog2 x"] by linarith
qed simp

lemma f64_mono: "0 \<le> x \<Longrightarrow> x \<le> y \<Longrightarrow> f64 x \<le> f64 y"
  using f64_mono_pos [of x y] f64_nonneg [of y] by (cases "x = 0") auto

lemma f64_exact_lt:
  assumes n: "0 < n" "n < 2 ^ 53"
  shows "f64 (of_int n * 2 powi k) = of_int n * 2 powi k"
proof -
  define x :: rat where "x = of_int n * 2 powi k"
  have x: "0 < x" using n by (simp add: x_def)
  have "2 powi ilog2 x \<le> x" by (rule ilog2_bounds(1) [OF x])
  also have "x < of_int (2 ^ 53) * 2 powi k"
    unfolding x_def using n(2) by (simp only: mult_strict_right_mono of_int_less_iff powi_pos)
  also have "\<dots> = 2 powi (53 + k)" by (simp add: powi_split)
  finally have "ilog2 x < 53 + k" by (rule powi_less_imp_exp)
  then have "0 \<le> k - (ilog2 x - 52)" by simp
  then obtain j where "k - (ilog2 x - 52) = int j" by (rule nonneg_int_cases)
  then have j: "k = (ilog2 x - 52) + int j" by simp
  have "x / 2 powi (ilog2 x - 52) = of_int n * 2 powi (k - (ilog2 x - 52))"
    by (simp add: x_def power_int_diff)
  also have "\<dots> = of_int (n * 2 ^ j)" by (simp add: j)
  finally have "round_half_even (x / 2 powi (ilog2 x - 52)) = n * 2 ^ j"
    by (simp only: round_half_even_of_int)
  then have "f64 x = of_int (n * 2 ^ j) * 2 powi (ilog2 x - 52)"
    by (simp only: f64_pos [OF x])
  also have "\<dots> = of_int n * 2 powi k"
  proof -
    have "(2 :: rat) powi k = 2 powi (ilog2 x - 52) * 2 powi int j"
      using powi_split [of "ilog2 x - 52" "int j"] j by simp
    then show ?thesis by simp
  qed
  finally show ?thesis by (simp add: x_def)
qed

lemma f64_exact:
  assumes "0 \<le> n" "n \<le> 2 ^ 53"
  shows "f64 (of_int n * 2 powi k) = of_int n * 2 powi k"
proof -
  consider "n = 0" | "n = 2 ^ 53" | "0 < n" "n < 2 ^ 53" using assms by linarith
  then show ?thesis
  proof cases
    case 2
    have "of_int n * (2 :: rat) powi k = of_int (2 ^ 52) * 2 powi (k + 1)"
      by (simp add: 2 powi_split)
    then show ?thesis using f64_exact_lt [of "2 ^ 52" "k + 1"] by simp
  qed (simp_all add: f64_exact_lt)
qed

section \<open>The interface: a rounding of non-negative rationals\<close>

locale rounding =
  fixes rnd :: "rat \<Rightarrow> rat"
  assumes mono: "0 \<le> x \<Longrightarrow> x \<le> y \<Longrightarrow> rnd x \<le> rnd y"
    and exact: "0 \<le> n \<Longrightarrow> n \<le> 2 ^ 53 \<Longrightarrow> rnd (of_int n * 2 powi k) = of_int n * 2 powi k"
begin

lemma exact_int: "0 \<le> n \<Longrightarrow> n \<le> 2 ^ 53 \<Longrightarrow> rnd (of_int n) = of_int n"
  using exact [of n 0] by simp

lemma exact_half: "0 \<le> n \<Longrightarrow> n \<le> 2 ^ 53 \<Longrightarrow> rnd (of_int n / 2) = of_int n / 2"
  using exact [of n "-1"] by (simp add: power_int_minus)

lemma nonneg: "0 \<le> x \<Longrightarrow> 0 \<le> rnd x"
  using mono [of 0 x] exact_int [of 0] by simp

lemma le_int:
  assumes "0 \<le> x" "x \<le> of_int n" "n \<le> 2 ^ 53" shows "rnd x \<le> of_int n"
proof -
  have "(0 :: rat) \<le> of_int n" using assms(1,2) by linarith
  then have "0 \<le> n" by simp
  then show ?thesis using mono [OF assms(1,2)] exact_int [OF _ assms(3)] by simp
qed

lemma int_le: "0 \<le> n \<Longrightarrow> of_int n \<le> x \<Longrightarrow> n \<le> 2 ^ 53 \<Longrightarrow> of_int n \<le> rnd x"
  using mono [of "of_int n" x] exact_int [of n] by simp

text \<open>An integer below the rounding of \<open>x\<close> is below \<open>x\<close> itself.\<close>

lemma int_less_rnd: "0 \<le> x \<Longrightarrow> 0 \<le> n \<Longrightarrow> n \<le> 2 ^ 53 \<Longrightarrow> of_int n < rnd x \<Longrightarrow> of_int n < x"
  using mono [of x "of_int n"] exact_int [of n] by (metis linorder_not_less)

end

interpretation f64: rounding f64
  by unfold_locales (simp_all only: f64_mono f64_exact)

lemma f64_to_i64_floor: "0 \<le> x \<Longrightarrow> x < 2 ^ 63 \<Longrightarrow> f64_to_i64 x = \<lfloor>x\<rfloor>"
  by (auto simp: f64_to_i64_def Let_def floor_less_iff le_floor_iff)

end
