(* ===== verification/Backoff.thy ===== *)
theory Backoff
  imports World Go_Number
begin

text \<open>
  \<open>backoff/backoff.go\<close>. A duration is a number of nanoseconds (\<open>int64\<close>), a float a rational
  that \<open>f64\<close> rounds. The Go interface \<open>BackOff\<close> is the locale \<open>retry_policy\<close>: a policy that
  runs out after a number of successful \<open>NextBackOff\<close> calls. The retry loop is written over
  the operations of the interface; that it ends, and how often it runs the operation, is
  proved in the locale and used through its interpretation on \<open>backOffTries\<close>.
\<close>

section \<open>Constants and the two policies\<close>

definition Stop :: int where "Stop = -1"

definition millisecond :: int where "millisecond = 1000000"
definition second :: int where "second = 1000000000"
definition minute :: int where "minute = 60 * second"

definition DefaultInitialInterval :: int where "DefaultInitialInterval = 500 * millisecond"
definition DefaultRandomizationFactor :: rat where "DefaultRandomizationFactor = 1 / 2"
definition DefaultMultiplier :: rat where "DefaultMultiplier = 3 / 2"
definition DefaultMaxInterval :: int where "DefaultMaxInterval = 60 * second"
definition DefaultMaxElapsedTime :: int where "DefaultMaxElapsedTime = 15 * minute"

record ExponentialBackOff =
  InitialInterval :: int
  RandomizationFactor :: rat
  Multiplier :: rat
  MaxInterval :: int
  MaxElapsedTime :: int
  StopValue :: int
  currentInterval :: int
  startTime :: int

text \<open>The implementations of \<open>BackOff\<close> in the package: \<open>Exponential\<close> is
  \<open>*ExponentialBackOff\<close>, \<open>Tries\<close> is \<open>*backOffTries\<close> with its delegate, \<open>maxTries\<close> and
  \<open>numTries\<close>; \<open>Custom\<close> is an implementation the caller brings.\<close>

datatype 'x backoff =
    Exponential ExponentialBackOff
  | Tries "'x backoff" "64 word" "64 word"
  | Custom 'x

text \<open>What a caller's implementation does; \<open>custom_context\<close> is \<open>Some\<close> when it implements
  \<open>BackOffContext\<close>.\<close>

record 'x custom_backoff =
  custom_next :: "'x \<Rightarrow> int \<times> 'x"
  custom_reset :: "'x \<Rightarrow> 'x"
  custom_context :: "'x \<Rightarrow> nat option"

section \<open>The exponential policy\<close>

definition clock_now :: "'e env_scheme \<Rightarrow> 'z world_scheme \<Rightarrow> int \<times> 'z world_scheme" where
  "clock_now env w = (let h = hist w @ [TimeCall TimeNow] in (int_of env h, w\<lparr>hist := h\<rparr>))"

definition rand_float :: "'e env_scheme \<Rightarrow> 'z world_scheme \<Rightarrow> rat \<times> 'z world_scheme" where
  "rand_float env w = (let h = hist w @ [TimeCall RandFloat64] in (rat_of env h, w\<lparr>hist := h\<rparr>))"

definition exp_reset ::
  "'e env_scheme \<Rightarrow> ExponentialBackOff \<Rightarrow> 'z world_scheme \<Rightarrow> ExponentialBackOff \<times> 'z world_scheme" where
  "exp_reset env b w = (case clock_now env w of (t, w') \<Rightarrow>
     (b\<lparr>currentInterval := InitialInterval b, startTime := t\<rparr>, w'))"

definition default_exponential :: ExponentialBackOff where
  "default_exponential =
     \<lparr>InitialInterval = DefaultInitialInterval, RandomizationFactor = DefaultRandomizationFactor,
      Multiplier = DefaultMultiplier, MaxInterval = DefaultMaxInterval,
      MaxElapsedTime = DefaultMaxElapsedTime, StopValue = Stop, currentInterval = 0, startTime = 0\<rparr>"

definition NewExponentialBackOff ::
  "'e env_scheme \<Rightarrow> (ExponentialBackOff \<Rightarrow> ExponentialBackOff) list \<Rightarrow> 'z world_scheme \<Rightarrow>
   ExponentialBackOff \<times> 'z world_scheme" where
  "NewExponentialBackOff env opts w = exp_reset env (fold (\<lambda>fn b. fn b) opts default_exponential) w"

text \<open>\<open>Time.Sub\<close> saturates at the ends of \<open>int64\<close>.\<close>

definition time_sub :: "int \<Rightarrow> int \<Rightarrow> int" where
  "time_sub t u = max (- (2 ^ 63)) (min (2 ^ 63 - 1) (t - u))"

definition GetElapsedTime ::
  "'e env_scheme \<Rightarrow> ExponentialBackOff \<Rightarrow> 'z world_scheme \<Rightarrow> int \<times> 'z world_scheme" where
  "GetElapsedTime env b w = (case clock_now env w of (t, w') \<Rightarrow> (time_sub t (startTime b), w'))"

definition incrementCurrentInterval :: "ExponentialBackOff \<Rightarrow> ExponentialBackOff" where
  "incrementCurrentInterval b =
     (if f64 (of_int (currentInterval b)) \<ge> f64 (f64 (of_int (MaxInterval b)) / Multiplier b)
      then b\<lparr>currentInterval := MaxInterval b\<rparr>
      else b\<lparr>currentInterval := f64_to_i64 (f64 (f64 (of_int (currentInterval b)) * Multiplier b))\<rparr>)"

definition getRandomValueFromInterval :: "rat \<Rightarrow> rat \<Rightarrow> int \<Rightarrow> int" where
  "getRandomValueFromInterval randomizationFactor random interval =
     (if randomizationFactor = 0 then interval
      else let delta = f64 (randomizationFactor * f64 (of_int interval));
               minInterval = f64 (f64 (of_int interval) - delta);
               maxInterval = f64 (f64 (of_int interval) + delta)
           in f64_to_i64 (f64 (minInterval + f64 (random * f64 (f64 (maxInterval - minInterval) + 1)))))"

definition exp_next ::
  "'e env_scheme \<Rightarrow> ExponentialBackOff \<Rightarrow> 'z world_scheme \<Rightarrow> int \<times> ExponentialBackOff \<times> 'z world_scheme" where
  "exp_next env b w =
     (case GetElapsedTime env b w of (elapsed, w1) \<Rightarrow>
      case rand_float env w1 of (random, w2) \<Rightarrow>
        let next = getRandomValueFromInterval (RandomizationFactor b) random (currentInterval b);
            b' = incrementCurrentInterval b
        in if MaxElapsedTime b' \<noteq> 0 \<and> MaxElapsedTime b' < i64 (elapsed + next)
           then (StopValue b', b', w2) else (next, b', w2))"

section \<open>The methods of the interface\<close>

fun NextBackOff ::
  "'e env_scheme \<Rightarrow> 'x custom_backoff \<Rightarrow> 'x backoff \<Rightarrow> 'z world_scheme \<Rightarrow>
   int \<times> 'x backoff \<times> 'z world_scheme" where
  "NextBackOff env cu (Exponential b) w =
     (case exp_next env b w of (d, b', w') \<Rightarrow> (d, Exponential b', w'))"
| "NextBackOff env cu (Tries b maxTries numTries) w =
     (if maxTries = 0 then (Stop, Tries b maxTries numTries, w)
      else if 0 < maxTries \<and> maxTries \<le> numTries then (Stop, Tries b maxTries numTries, w)
      else let numTries = (if 0 < maxTries then numTries + 1 else numTries) in
        case NextBackOff env cu b w of (d, b', w') \<Rightarrow> (d, Tries b' maxTries numTries, w'))"
| "NextBackOff env cu (Custom x) w = (case custom_next cu x of (d, x') \<Rightarrow> (d, Custom x', w))"

fun Reset ::
  "'e env_scheme \<Rightarrow> 'x custom_backoff \<Rightarrow> 'x backoff \<Rightarrow> 'z world_scheme \<Rightarrow> 'x backoff \<times> 'z world_scheme" where
  "Reset env cu (Exponential b) w = (case exp_reset env b w of (b', w') \<Rightarrow> (Exponential b', w'))"
| "Reset env cu (Tries b maxTries numTries) w =
     (case Reset env cu b w of (b', w') \<Rightarrow> (Tries b' maxTries 0, w'))"
| "Reset env cu (Custom x) w = (Custom (custom_reset cu x), w)"

definition WithMaxRetries :: "'x backoff \<Rightarrow> 64 word \<Rightarrow> 'x backoff" where
  "WithMaxRetries b mx = Tries b mx 0"

text \<open>\<open>context.Background()\<close> is \<open>None\<close>.\<close>

fun getContext :: "'x custom_backoff \<Rightarrow> 'x backoff \<Rightarrow> nat option" where
  "getContext cu (Custom x) = custom_context cu x"
| "getContext cu (Tries b maxTries numTries) = getContext cu b"
| "getContext cu (Exponential b) = None"

section \<open>Permanent errors\<close>

definition Permanent :: "err option \<Rightarrow> err option" where
  "Permanent e = (case e of None \<Rightarrow> None | Some e \<Rightarrow> Some (ErrPermanent e))"

text \<open>\<open>PermanentError.Is\<close> looks at the type of the target alone.\<close>

fun PermanentError_Is :: "err \<Rightarrow> bool" where
  "PermanentError_Is (ErrPermanent _) = True"
| "PermanentError_Is _ = False"

fun Unwrap :: "err \<Rightarrow> err option" where
  "Unwrap (ErrPermanent e) = Some e"
| "Unwrap (ErrWrap s e) = Some e"
| "Unwrap _ = None"

text \<open>\<open>errors.As(err, &permanent)\<close>: the first \<open>*PermanentError\<close> of the chain, here the error
  it holds.\<close>

fun as_permanent :: "err \<Rightarrow> err option" where
  "as_permanent (ErrPermanent e) = Some e"
| "as_permanent (ErrWrap s e) = as_permanent e"
| "as_permanent _ = None"

section \<open>The retry loop\<close>

text \<open>The operations of a policy the loop calls, the state of the context (\<open>ctx_err\<close> of a
  history is \<open>ctx.Err()\<close>) and the choice of \<open>select\<close>: its \<open>Done\<close> branch can be taken only
  once the context has an error.\<close>

record ('b, 'w) policy =
  p_next :: "'b \<Rightarrow> 'w \<Rightarrow> int \<times> 'b \<times> 'w"
  p_reset :: "'b \<Rightarrow> 'w \<Rightarrow> 'b \<times> 'w"
  p_context :: "'b \<Rightarrow> nat option"

record ctx_env =
  ctx_err :: "nat \<Rightarrow> call list \<Rightarrow> err option"
  done_first :: "call list \<Rightarrow> bool"

definition ctx_Err :: "ctx_env \<Rightarrow> nat option \<Rightarrow> call list \<Rightarrow> err option" where
  "ctx_Err ce ctx h = (case ctx of None \<Rightarrow> None | Some c \<Rightarrow> ctx_err ce c h)"

text \<open>The loop of \<open>doRetryNotify\<close>. The operation returns its data with its error, as in Go;
  it may also panic or block. \<open>n\<close> counts the runs of the operation (a ghost value). \<open>None\<close>
  is a loop that never ends.\<close>

partial_function (option) retry_loop ::
  "('b, 'z world_scheme) policy \<Rightarrow> ctx_env \<Rightarrow> nat option \<Rightarrow>
   ('z world_scheme, 't \<times> err option) go \<Rightarrow> (err \<Rightarrow> int \<Rightarrow> ('z world_scheme, unit) go) option \<Rightarrow>
   nat \<Rightarrow> 'b \<Rightarrow> 'z world_scheme \<Rightarrow> (('t \<times> err option) res \<times> nat \<times> 'z world_scheme) option" where
  "retry_loop p ce ctx operation notify n b w =
     (case operation w of
        (Panic s, w1) \<Rightarrow> Some (Panic s, Suc n, w1)
      | (Stuck, w1) \<Rightarrow> Some (Stuck, Suc n, w1)
      | (Err e, w1) \<Rightarrow> Some (Err e, Suc n, w1)
      | (Ok (r, e), w1) \<Rightarrow>
         (case e of
            None \<Rightarrow> Some (Ok (r, None), Suc n, w1)
          | Some err \<Rightarrow>
             (case as_permanent err of
                Some inner \<Rightarrow> Some (Ok (r, Some inner), Suc n, w1)
              | None \<Rightarrow>
                 (case p_next p b w1 of (next, b', w2) \<Rightarrow>
                    if next = Stop then
                      (case ctx_Err ce ctx (hist w2) of
                         Some cerr \<Rightarrow> Some (Ok (r, Some cerr), Suc n, w2)
                       | None \<Rightarrow> Some (Ok (r, Some err), Suc n, w2))
                    else
                      (case (case notify of None \<Rightarrow> (Ok (), w2) | Some f \<Rightarrow> f err next w2) of
                         (Ok _, w3) \<Rightarrow>
                           (let w4 = w3\<lparr>hist := hist w3 @ [TimeCall (TimerStart next)]\<rparr> in
                            case ctx_Err ce ctx (hist w4) of
                              Some cerr \<Rightarrow> if done_first ce (hist w4)
                                then Some (Ok (r, Some cerr), Suc n, w4)
                                else retry_loop p ce ctx operation notify (Suc n) b' w4
                            | None \<Rightarrow> retry_loop p ce ctx operation notify (Suc n) b' w4)
                       | (Err e, w3) \<Rightarrow> Some (Err e, Suc n, w3)
                       | (Panic s, w3) \<Rightarrow> Some (Panic s, Suc n, w3)
                       | (Stuck, w3) \<Rightarrow> Some (Stuck, Suc n, w3))))))"

text \<open>The deferred \<open>t.Stop()\<close> runs when the function leaves, also by a panic.\<close>

definition doRetryNotify ::
  "('b, 'z world_scheme) policy \<Rightarrow> ctx_env \<Rightarrow> ('z world_scheme, 't \<times> err option) go \<Rightarrow> 'b \<Rightarrow>
   (err \<Rightarrow> int \<Rightarrow> ('z world_scheme, unit) go) option \<Rightarrow> 'z world_scheme \<Rightarrow>
   (('t \<times> err option) res \<times> nat \<times> 'z world_scheme) option" where
  "doRetryNotify p ce operation b notify w =
     (let ctx = p_context p b in
      case p_reset p b w of (b', w') \<Rightarrow>
        map_option (\<lambda>(r, n, w''). (r, n, if r = Stuck then w''
                                         else w''\<lparr>hist := hist w'' @ [TimeCall TimerStop]\<rparr>))
          (retry_loop p ce ctx operation notify 0 b' w'))"

text \<open>The entry points that return the data of the operation.\<close>

definition RetryNotifyWithData ::
  "('b, 'z world_scheme) policy \<Rightarrow> ctx_env \<Rightarrow> ('z world_scheme, 't \<times> err option) go \<Rightarrow> 'b \<Rightarrow>
   (err \<Rightarrow> int \<Rightarrow> ('z world_scheme, unit) go) option \<Rightarrow> 'z world_scheme \<Rightarrow>
   (('t \<times> err option) res \<times> nat \<times> 'z world_scheme) option" where
  "RetryNotifyWithData p ce operation b notify = doRetryNotify p ce operation b notify"

definition RetryWithData ::
  "('b, 'z world_scheme) policy \<Rightarrow> ctx_env \<Rightarrow> ('z world_scheme, 't \<times> err option) go \<Rightarrow> 'b \<Rightarrow> 'z world_scheme \<Rightarrow>
   (('t \<times> err option) res \<times> nat \<times> 'z world_scheme) option" where
  "RetryWithData p ce o' b = RetryNotifyWithData p ce o' b None"

text \<open>\<open>operation.withEmptyData()\<close>: an \<open>Operation\<close> returns only an error.\<close>

definition withEmptyData :: "('w, unit) go \<Rightarrow> ('w, unit \<times> err option) go" where
  "withEmptyData oper = bind (attempt oper) (\<lambda>r. case r of Inl e \<Rightarrow> ret ((), Some e) | Inr _ \<Rightarrow> ret ((), None))"

definition RetryNotify ::
  "('b, 'z world_scheme) policy \<Rightarrow> ctx_env \<Rightarrow> ('z world_scheme, unit) go \<Rightarrow> 'b \<Rightarrow>
   (err \<Rightarrow> int \<Rightarrow> ('z world_scheme, unit) go) option \<Rightarrow> 'z world_scheme \<Rightarrow>
   (unit res \<times> nat \<times> 'z world_scheme) option" where
  "RetryNotify p ce operation b notify w =
     map_option (\<lambda>(r, n, w'). (case r of
          Ok (_, None) \<Rightarrow> Ok () | Ok (_, Some e) \<Rightarrow> Err e
        | Err e \<Rightarrow> Err e | Panic s \<Rightarrow> Panic s | Stuck \<Rightarrow> Stuck, n, w'))
       (doRetryNotify p ce (withEmptyData operation) b notify w)"

definition Retry ::
  "('b, 'z world_scheme) policy \<Rightarrow> ctx_env \<Rightarrow> ('z world_scheme, unit) go \<Rightarrow> 'b \<Rightarrow> 'z world_scheme \<Rightarrow>
   (unit res \<times> nat \<times> 'z world_scheme) option" where
  "Retry p ce operation b w = RetryNotify p ce operation b None w"

text \<open>The package's own implementations as a policy.\<close>

definition package_policy ::
  "'e env_scheme \<Rightarrow> 'x custom_backoff \<Rightarrow> ('x backoff, 'z world_scheme) policy" where
  "package_policy env cu = \<lparr>p_next = NextBackOff env cu, p_reset = Reset env cu, p_context = getContext cu\<rparr>"

section \<open>Lemmas on the exponential policy\<close>

text \<open>A configuration within the exact range of binary64.\<close>

definition exp_wf :: "ExponentialBackOff \<Rightarrow> bool" where
  "exp_wf b \<longleftrightarrow> 0 < currentInterval b \<and> currentInterval b \<le> MaxInterval b \<and>
     0 < InitialInterval b \<and> InitialInterval b \<le> MaxInterval b \<and> MaxInterval b \<le> 2 ^ 50 \<and>
     1 \<le> Multiplier b \<and> 0 \<le> RandomizationFactor b \<and> RandomizationFactor b \<le> 1"

lemma f64_int_floor:
  assumes "of_int a \<le> x" "x \<le> of_int b" "0 \<le> a" "b \<le> 2 ^ 53"
  shows "a \<le> f64_to_i64 (f64 x) \<and> f64_to_i64 (f64 x) \<le> b"
proof -
  have x0: "0 \<le> x" using assms(1,3) by (meson of_int_0_le_iff order_trans)
  have ab: "a \<le> b" using assms(1,2) by (meson of_int_le_iff order_trans)
  have l: "of_int a \<le> f64 x" using f64.int_le [OF assms(3,1)] ab assms(4) by simp
  have u: "f64 x \<le> of_int b" using f64.le_int [OF x0 assms(2,4)] .
  have "b < 2 ^ 63" using assms(4) by simp
  then have "(of_int b :: rat) < of_int (2 ^ 63)" by (simp only: of_int_less_iff)
  with u have "f64 x < 2 ^ 63" by simp
  with f64_to_i64_floor [OF f64_nonneg [OF x0]] l u show ?thesis
    by (simp add: le_floor_iff floor_le_iff)
qed

lemma increment_bounds:
  assumes "exp_wf b"
  shows "currentInterval b \<le> currentInterval (incrementCurrentInterval b) \<and>
    currentInterval (incrementCurrentInterval b) \<le> MaxInterval b"
proof -
  define c where "c = currentInterval b"
  define M where "M = MaxInterval b"
  have w: "0 < c" "c \<le> M" "M \<le> 2 ^ 50" "1 \<le> Multiplier b" using assms by (auto simp: exp_wf_def c_def M_def)
  have rc: "f64 (of_int c) = of_int c" and rM: "f64 (of_int M) = of_int M"
    using w by (simp_all add: f64.exact_int)
  show ?thesis
  proof (cases "f64 (of_int c) \<ge> f64 (f64 (of_int M) / Multiplier b)")
    case True
    then show ?thesis using w by (simp add: incrementCurrentInterval_def c_def M_def)
  next
    case False
    then have "of_int c < f64 (of_int M / Multiplier b)" by (simp add: rc rM)
    then have "of_int c < (of_int M :: rat) / Multiplier b"
      using f64.int_less_rnd [of "of_int M / Multiplier b" c] w by simp
    then have up: "of_int c * Multiplier b \<le> of_int M"
      using w(4) by (simp add: pos_less_divide_eq less_imp_le)
    have "of_int c * 1 \<le> of_int c * Multiplier b" using w(1,4) by (intro mult_left_mono) auto
    then have "of_int c \<le> of_int c * Multiplier b" by simp
    from f64_int_floor [OF this up] w
    have "c \<le> f64_to_i64 (f64 (of_int c * Multiplier b)) \<and> f64_to_i64 (f64 (of_int c * Multiplier b)) \<le> M"
      by simp
    with False show ?thesis by (simp add: incrementCurrentInterval_def c_def M_def rc [unfolded c_def])
  qed
qed

lemma increment_frame [simp]:
  "MaxInterval (incrementCurrentInterval b) = MaxInterval b"
  "InitialInterval (incrementCurrentInterval b) = InitialInterval b"
  "Multiplier (incrementCurrentInterval b) = Multiplier b"
  "RandomizationFactor (incrementCurrentInterval b) = RandomizationFactor b"
  "MaxElapsedTime (incrementCurrentInterval b) = MaxElapsedTime b"
  "StopValue (incrementCurrentInterval b) = StopValue b"
  "startTime (incrementCurrentInterval b) = startTime b"
  by (simp_all add: incrementCurrentInterval_def)

lemma increment_wf: "exp_wf b \<Longrightarrow> exp_wf (incrementCurrentInterval b)"
  using increment_bounds [of b] by (simp add: exp_wf_def)

text \<open>With any factor in \<open>[0, 1]\<close> the random delay is not negative; with the default factor
  it lies between half and three halves of the interval (and one nanosecond).\<close>

lemma random_nonneg:
  assumes "0 \<le> c" "c \<le> 2 ^ 50" "0 \<le> rf" "rf \<le> 1" "0 \<le> r" "r \<le> 1"
  shows "0 \<le> getRandomValueFromInterval rf r c \<and> getRandomValueFromInterval rf r c \<le> 2 ^ 53"
proof (cases "rf = 0")
  case True
  then show ?thesis using assms by (simp add: getRandomValueFromInterval_def)
next
  case False
  have rc: "f64 (of_int c) = of_int c" using assms by (simp add: f64.exact_int)
  define delta where "delta = f64 (rf * of_int c)"
  have d: "0 \<le> delta" "delta \<le> of_int c"
  proof -
    have "0 \<le> rf * of_int c" using assms by simp
    moreover have "rf * of_int c \<le> of_int c" using assms by (simp add: mult_left_le_one_le)
    ultimately show "0 \<le> delta" "delta \<le> of_int c"
      unfolding delta_def using assms by (simp_all add: f64_nonneg f64.le_int)
  qed
  define lo hi where "lo = f64 (of_int c - delta)" and "hi = f64 (of_int c + delta)"
  have lo: "0 \<le> lo" "lo \<le> of_int c"
    unfolding lo_def using d assms by (simp_all add: f64_nonneg f64.le_int)
  have hi: "lo \<le> hi" "hi \<le> of_int (2 * c)"
    unfolding lo_def hi_def using d assms by (simp_all add: f64_mono f64.le_int del: of_int_mult)
  define spread where "spread = f64 (f64 (hi - lo) + 1)"
  have "f64 (hi - lo) \<le> of_int (2 * c)"
    using lo hi assms by (intro f64.le_int) auto
  moreover have "0 \<le> f64 (hi - lo)" using hi by (simp add: f64_nonneg)
  ultimately have sp: "0 \<le> spread" "spread \<le> of_int (2 * c + 1)"
    unfolding spread_def using assms
    by (simp_all add: f64_nonneg del: of_int_add of_int_mult) (rule f64.le_int; simp)
  have "r * spread \<le> spread" using sp assms by (simp add: mult_left_le_one_le)
  then have m: "0 \<le> f64 (r * spread)" "f64 (r * spread) \<le> of_int (2 * c + 1)"
    using sp assms by (simp_all add: f64_nonneg f64.le_int del: of_int_add of_int_mult)
  have "getRandomValueFromInterval rf r c = f64_to_i64 (f64 (lo + f64 (r * spread)))"
    using False by (simp add: getRandomValueFromInterval_def rc delta_def lo_def hi_def spread_def Let_def)
  moreover have "0 \<le> f64_to_i64 (f64 (lo + f64 (r * spread))) \<and>
      f64_to_i64 (f64 (lo + f64 (r * spread))) \<le> 3 * c + 1"
    by (rule f64_int_floor) (use lo m assms in auto)
  ultimately show ?thesis using assms by simp
qed

lemma random_half_bounds:
  assumes "0 \<le> c" "c \<le> 2 ^ 50" "0 \<le> r" "r \<le> 1"
  shows "c div 2 \<le> getRandomValueFromInterval (1 / 2) r c \<and>
    getRandomValueFromInterval (1 / 2) r c \<le> (3 * c) div 2 + 1"
proof -
  have rc: "f64 (of_int c) = of_int c" using assms by (simp add: f64.exact_int)
  have dl: "f64 (of_int c / 2) = of_int c / 2" using f64.exact_half [of c] assms by simp
  have "(of_int c :: rat) - of_int c / 2 = of_int c / 2" by (simp add: field_simps)
  then have lo: "f64 (of_int c - of_int c / 2) = of_int c / 2" using f64.exact_half [of c] assms by simp
  define H where "H = (of_int (3 * c) :: rat) / 2"
  have hi': "f64 (3 * of_int c / 2) = H" using f64.exact_half [of "3 * c"] assms by (simp add: H_def)
  have "H - (of_int c :: rat) / 2 = of_int c" by (simp add: H_def field_simps)
  then have sp: "f64 (f64 (H - of_int c / 2) + 1) = of_int (c + 1)"
    using f64.exact_int [of "c + 1"] rc assms by simp
  define m where "m = f64 (r * of_int (c + 1))"
  have "r * of_int (c + 1) \<le> of_int (c + 1)" using assms by (simp add: mult_left_le_one_le)
  then have m: "0 \<le> m" "m \<le> of_int (c + 1)"
    unfolding m_def using assms by (simp_all add: f64_nonneg f64.le_int del: of_int_add)
  define s where "s = of_int c / 2 + m"
  have eq: "getRandomValueFromInterval (1 / 2) r c = f64_to_i64 (f64 s)"
    by (simp add: getRandomValueFromInterval_def rc dl lo hi' sp Let_def m_def s_def)
  have h: "of_int (c div 2) \<le> (of_int c :: rat) / 2"
  proof -
    have "2 * (c div 2) \<le> c" by simp
    then have "of_int (2 * (c div 2)) \<le> (of_int c :: rat)" by (simp only: of_int_le_iff)
    then show ?thesis by simp
  qed
  then have l: "of_int (c div 2) \<le> s" using m by (simp add: s_def)
  have u: "s \<le> of_int (3 * c + 2) / 2" using m by (simp add: s_def field_simps)
  have s0: "0 \<le> s" using m assms by (simp add: s_def)
  have "f64 s \<le> f64 (of_int (3 * c + 2) / 2)" by (rule f64_mono [OF s0 u])
  also have "\<dots> = of_int (3 * c + 2) / 2" using assms by (intro f64.exact_half) auto
  finally have fu: "f64 s \<le> of_int (3 * c + 2) / 2" .
  have fl: "of_int (c div 2) \<le> f64 s" using assms l by (intro f64.int_le) auto
  have "(of_int (3 * c + 2) :: rat) / 2 < of_int (2 ^ 63)"
  proof -
    have "3 * c + 2 < 2 * 2 ^ 63" using assms by simp
    then have "(of_int (3 * c + 2) :: rat) < of_int (2 * 2 ^ 63)" by (simp only: of_int_less_iff)
    then show ?thesis by simp
  qed
  with fu have "f64 s < 2 ^ 63" by simp
  then have fl2: "f64_to_i64 (f64 s) = \<lfloor>f64 s\<rfloor>" using s0 by (simp add: f64_to_i64_floor f64_nonneg)
  have "\<lfloor>f64 s\<rfloor> \<le> \<lfloor>(of_int (3 * c + 2) :: rat) / of_int 2\<rfloor>" using fu by (intro floor_mono) simp
  also have "\<dots> = (3 * c + 2) div 2" by (rule floor_divide_of_int_eq)
  finally have "\<lfloor>f64 s\<rfloor> \<le> (3 * c) div 2 + 1" by simp
  then show ?thesis using fl by (simp add: eq fl2 le_floor_iff)
qed

section \<open>The interface: a policy that runs out\<close>

text \<open>One turn of the loop either ends it or asks the policy, gets a delay, and goes on.\<close>

lemma retry_loop_turn:
  obtains (ends) r w' where "retry_loop p ce ctx operation notify n b w = Some (r, Suc n, w')"
  | (goes_on) w1 d b' w2 w4 where "p_next p b w1 = (d, b', w2)" "d \<noteq> Stop"
      "retry_loop p ce ctx operation notify n b w = retry_loop p ce ctx operation notify (Suc n) b' w4"
proof -
  obtain r w1 where o: "operation w = (r, w1)" by (cases "operation w")
  show thesis
  proof (cases r)
    case (Ok x)
    obtain t e where x: "x = (t, e)" by (cases x)
    obtain d b' w2 where nx: "p_next p b w1 = (d, b', w2)" by (cases "p_next p b w1") auto
    obtain q w3 where nt: "(case notify of None \<Rightarrow> (Ok (), w2) | Some f \<Rightarrow> f (the e) d w2) = (q, w3)"
      by (cases "case notify of None \<Rightarrow> (Ok (), w2) | Some f \<Rightarrow> f (the e) d w2")
    define w4 where "w4 = w3\<lparr>hist := hist w3 @ [TimeCall (TimerStart d)]\<rparr>"
    show thesis
    proof (cases "e = None \<or> as_permanent (the e) \<noteq> None \<or> d = Stop \<or> (\<forall>u. q \<noteq> Ok u) \<or>
        (ctx_Err ce ctx (hist w4) \<noteq> None \<and> done_first ce (hist w4))")
      case True
      then have "\<exists>r w'. retry_loop p ce ctx operation notify n b w = Some (r, Suc n, w')"
        using nt by (subst retry_loop.simps)
          (auto simp: o Ok x nx w4_def Let_def split: option.splits res.splits prod.splits)
      then show thesis using ends by blast
    next
      case False
      then have "retry_loop p ce ctx operation notify n b w =
          retry_loop p ce ctx operation notify (Suc n) b' w4"
        using nt by (subst (1) retry_loop.simps)
          (auto simp: o Ok x nx w4_def Let_def split: option.splits)
      then show thesis using goes_on [OF nx] False by blast
    qed
  qed (use o ends in \<open>simp_all add: retry_loop.simps [of p ce ctx operation notify n b w]\<close>)
qed

locale retry_policy =
  fixes p :: "('b, 'z world_scheme) policy"
    and ok :: "'b \<Rightarrow> bool"
    and budget :: "'b \<Rightarrow> nat"
    and cap :: "'b \<Rightarrow> nat"
  assumes spend: "ok b \<Longrightarrow> p_next p b w = (d, b', w') \<Longrightarrow> d \<noteq> Stop \<Longrightarrow> ok b' \<and> budget b' < budget b"
    and fresh: "ok b \<Longrightarrow> p_reset p b w = (b', w') \<Longrightarrow> ok b' \<and> budget b' = cap b"
begin

lemma loop_returns:
  "ok b \<Longrightarrow> \<exists>r m w'. retry_loop p ce ctx operation notify n b w = Some (r, m, w') \<and>
     n < m \<and> m \<le> Suc (n + budget b)"
proof (induction "budget b" arbitrary: n b w rule: less_induct)
  case less
  show ?case
  proof (cases rule: retry_loop_turn [of p ce ctx operation notify n b w])
    case (ends r w')
    then show ?thesis by simp
  next
    case (goes_on w1 d b' w2 w4)
    from spend [OF less.prems goes_on(1,2)] have b': "ok b'" "budget b' < budget b" by auto
    from less.hyps [OF b'(2,1), of "Suc n" w4] obtain r m w' where
      "retry_loop p ce ctx operation notify (Suc n) b' w4 = Some (r, m, w')"
      "Suc n < m" "m \<le> Suc (Suc n + budget b')" by blast
    with b' show ?thesis unfolding goes_on(3) by auto
  qed
qed

lemma doRetryNotify_returns:
  assumes "ok b"
  shows "\<exists>r m w'. doRetryNotify p ce operation b notify w = Some (r, m, w') \<and> 1 \<le> m \<and> m \<le> cap b + 1"
proof -
  obtain b' w1 where r: "p_reset p b w = (b', w1)" by (cases "p_reset p b w")
  from fresh [OF assms r] have b': "ok b'" "budget b' = cap b" by auto
  from loop_returns [OF b'(1), of ce "p_context p b" operation notify 0 w1] b'(2) show ?thesis
    by (auto simp: doRetryNotify_def Let_def r)
qed

lemma RetryNotify_returns:
  assumes "ok b"
  shows "\<exists>r m w'. RetryNotify p ce operation b notify w = Some (r, m, w') \<and> 1 \<le> m \<and> m \<le> cap b + 1"
  using doRetryNotify_returns [OF assms, of ce "withEmptyData operation" notify w]
  by (auto simp: RetryNotify_def)

lemma Retry_returns:
  assumes "ok b"
  shows "\<exists>r m w'. Retry p ce operation b w = Some (r, m, w') \<and> 1 \<le> m \<and> m \<le> cap b + 1"
  unfolding Retry_def by (rule RetryNotify_returns [OF assms])

end

fun is_tries :: "'x backoff \<Rightarrow> bool" where
  "is_tries (Tries b maxTries numTries) = True"
| "is_tries _ = False"

fun tries_budget :: "'x backoff \<Rightarrow> nat" where
  "tries_budget (Tries b maxTries numTries) = unat maxTries - unat numTries"
| "tries_budget _ = 0"

fun tries_cap :: "'x backoff \<Rightarrow> nat" where
  "tries_cap (Tries b maxTries numTries) = unat maxTries"
| "tries_cap _ = 0"

lemma unat_Suc_below:
  assumes "n < m" shows "unat (n + 1 :: 64 word) = Suc (unat n) \<and> unat n < unat m"
proof -
  have "unat n < unat m" using assms by (simp add: word_less_nat_alt)
  moreover have "unat m < 2 ^ 64" using unsigned_less [of m] by simp
  ultimately show ?thesis by (simp add: unat_word_ariths)
qed

lemma tries_spend:
  assumes "NextBackOff env cu (Tries b mx n) w = (d, b', w')" "d \<noteq> Stop"
  shows "is_tries b' \<and> tries_budget b' < unat mx - unat n"
proof -
  from assms have "n < mx" by (auto simp: word_neq_0_conv split: if_splits)
  with assms unat_Suc_below [OF this] show ?thesis
    by (auto simp: Let_def word_neq_0_conv split: if_splits prod.splits)
qed

interpretation tries: retry_policy "package_policy env cu" is_tries tries_budget tries_cap for env cu
proof
  show "is_tries b' \<and> tries_budget b' < tries_budget b"
    if "is_tries b" "p_next (package_policy env cu) b w = (d, b', w')" "d \<noteq> Stop" for b w d b' w'
    using that tries_spend [of env cu _ _ _ w d b' w']
    by (cases b) (auto simp: package_policy_def simp del: NextBackOff.simps)
  show "is_tries b' \<and> tries_budget b' = tries_cap b"
    if "is_tries b" "p_reset (package_policy env cu) b w = (b', w')" for b w b' w'
    using that by (cases b) (auto simp: package_policy_def split: prod.splits)
qed

section \<open>An operation that keeps failing\<close>

lemma withEmptyData_Err: "operation w = (Err e, w1) \<Longrightarrow> withEmptyData operation w = (Ok ((), Some e), w1)"
  by (simp add: withEmptyData_def attempt_def bind_def ret_def)

lemma withEmptyData_Ok: "operation w = (Ok u, w1) \<Longrightarrow> withEmptyData operation w = (Ok ((), None), w1)"
  by (simp add: withEmptyData_def attempt_def bind_def ret_def)

text \<open>The default exponential policy in a run that started at \<open>t0\<close> or up to 13 minutes later.\<close>

definition default_state :: "int \<Rightarrow> ExponentialBackOff \<Rightarrow> bool" where
  "default_state t0 b \<longleftrightarrow> exp_wf b \<and> RandomizationFactor b = 1 / 2 \<and> MaxInterval b = DefaultMaxInterval \<and>
     MaxElapsedTime b = DefaultMaxElapsedTime \<and> t0 \<le> startTime b \<and> startTime b \<le> t0 + 13 * minute"

definition calm :: "'e env_scheme \<Rightarrow> int \<Rightarrow> bool" where
  "calm env t0 \<longleftrightarrow> (\<forall>h. t0 \<le> int_of env h \<and> int_of env h \<le> t0 + 13 * minute) \<and>
     (\<forall>h. 0 \<le> rat_of env h \<and> rat_of env h < 1)"

lemmas durations = second_def minute_def millisecond_def
  DefaultInitialInterval_def DefaultMaxInterval_def DefaultMaxElapsedTime_def
  DefaultRandomizationFactor_def DefaultMultiplier_def

lemma exp_next_default:
  assumes "calm env t0" "default_state t0 b" "exp_next env b w = (d, b', w')"
  shows "0 \<le> d \<and> default_state t0 b'"
proof -
  define t where "t = int_of env (hist w @ [TimeCall TimeNow])"
  define r where "r = rat_of env (hist w @ [TimeCall TimeNow, TimeCall RandFloat64])"
  define nxt where "nxt = getRandomValueFromInterval (1 / 2) r (currentInterval b)"
  have b: "exp_wf b" "0 \<le> currentInterval b" "currentInterval b \<le> 60 * second"
    using assms(2) by (auto simp: default_state_def exp_wf_def durations)
  have r: "0 \<le> r" "r \<le> 1" using assms(1) by (auto simp: calm_def r_def less_imp_le)
  have nx: "currentInterval b div 2 \<le> nxt \<and> nxt \<le> (3 * currentInterval b) div 2 + 1"
    unfolding nxt_def using b r by (intro random_half_bounds) (auto simp: durations)
  have nx0: "0 \<le> nxt" "nxt \<le> 90 * second + 1" using nx b by (auto simp: durations)
  define el where "el = time_sub t (startTime b)"
  have t: "t0 \<le> t" "t \<le> t0 + 13 * minute" using assms(1) by (auto simp: calm_def t_def)
  have el: "- (13 * minute) \<le> el" "el \<le> 13 * minute"
    using t assms(2) by (auto simp: el_def time_sub_def default_state_def durations)
  have no: "\<not> MaxElapsedTime b < i64 (el + nxt)"
    using el nx0 assms(2) by (simp add: default_state_def durations)
  have rf: "RandomizationFactor b = 1 / 2" using assms(2) by (simp add: default_state_def)
  have "exp_next env b w = (nxt, incrementCurrentInterval b,
      w\<lparr>hist := hist w @ [TimeCall TimeNow, TimeCall RandFloat64]\<rparr>)"
    using no
    by (simp add: rf exp_next_def GetElapsedTime_def clock_now_def rand_float_def Let_def
        t_def [symmetric] r_def [symmetric] el_def [symmetric] nxt_def)
  with assms nx0 increment_wf [OF b(1)] show ?thesis by (auto simp: default_state_def)
qed

text \<open>
  What a retry comes to, by the results of the runs of its operation: the first that is no error or
  a permanent one, or else the last that the limit allows; and the number of runs.
\<close>

fun attempts :: "(nat \<Rightarrow> unit res) \<Rightarrow> nat \<Rightarrow> nat \<Rightarrow> unit res \<times> nat" where
  "attempts res left i = (case res i of
       Err e \<Rightarrow> (case as_permanent e of
           Some inner \<Rightarrow> (Err inner, 1)
         | None \<Rightarrow> (case left of
               0 \<Rightarrow> (Err e, 1)
             | Suc l \<Rightarrow> (case attempts res l (Suc i) of (r, m) \<Rightarrow> (r, Suc m))))
     | r \<Rightarrow> (r, 1))"

declare attempts.simps [simp del]

text \<open>\<open>Q i\<close> holds of the worlds after \<open>i\<close> runs.\<close>

definition gives :: "(nat \<Rightarrow> 'z world_scheme \<Rightarrow> bool) \<Rightarrow> ('z world_scheme, unit) go \<Rightarrow> (nat \<Rightarrow> unit res) \<Rightarrow> bool" where
  "gives Q operation res \<longleftrightarrow> (\<forall>i u. Q i u \<longrightarrow> (\<exists>u'. operation u = (res i, u') \<and> Q (Suc i) u')) \<and>
     (\<forall>i u c. Q i u \<longrightarrow> Q i (u\<lparr>hist := hist u @ [TimeCall c]\<rparr>))"

definition plain :: "(unit \<times> err option) res \<Rightarrow> unit res" where
  "plain r = (case r of Ok (_, None) \<Rightarrow> Ok () | Ok (_, Some e) \<Rightarrow> Err e | Err e \<Rightarrow> Err e | Panic s \<Rightarrow> Panic s | Stuck \<Rightarrow> Stuck)"

lemma exp_next_hist:
  fixes w :: "'z world_scheme"
  assumes "exp_next env b w = (d, b', w')"
  shows "w' = w\<lparr>hist := (hist w @ [TimeCall TimeNow]) @ [TimeCall RandFloat64]\<rparr>"
  using assms by (auto simp: exp_next_def GetElapsedTime_def clock_now_def rand_float_def Let_def split: if_splits)

lemma gives_time2: "gives Q operation res \<Longrightarrow> Q i u \<Longrightarrow> Q i (u\<lparr>hist := (hist u @ [TimeCall c]) @ [TimeCall d]\<rparr>)"
proof -
  assume g: "gives Q operation res" and q: "Q i u"
  then have "Q i (u\<lparr>hist := hist u @ [TimeCall c]\<rparr>)" by (simp add: gives_def)
  with g have "Q i ((u\<lparr>hist := hist u @ [TimeCall c]\<rparr>)\<lparr>hist := hist (u\<lparr>hist := hist u @ [TimeCall c]\<rparr>) @ [TimeCall d]\<rparr>)"
    unfolding gives_def by blast
  then show ?thesis by simp
qed

lemma retry_loop_attempts:
  assumes env: "calm env t0" and g: "gives Q operation res"
  shows "default_state t0 x \<Longrightarrow> k \<le> mx \<Longrightarrow> Q i w \<Longrightarrow>
    \<exists>q w'. retry_loop (package_policy env cu) ce None (withEmptyData operation) None n
           (Tries (Exponential x) mx k) w = Some (q, n + snd (attempts res (unat mx - unat k) i), w') \<and>
      plain q = fst (attempts res (unat mx - unat k) i)"
proof (induction "unat mx - unat k" arbitrary: n k x w i)
  case (0 k n x w i)
  then have "unat k = unat mx" using word_le_nat_alt [of k mx] by simp
  then have k: "k = mx" by (simp add: word_unat_eq_iff)
  obtain w1 where o: "operation w = (res i, w1)" using g 0(4) unfolding gives_def by blast
  show ?case
    by (cases "res i"; subst retry_loop.simps)
      (auto simp: o k attempts.simps [of res 0 i] withEmptyData_def attempt_def bind_def ret_def plain_def package_policy_def
        ctx_Err_def word_neq_0_conv split: option.splits)
next
  case (Suc j k n x w i)
  then have lt: "k < mx" by (simp add: word_less_nat_alt)
  then have mx: "0 < mx" "mx \<noteq> 0" "\<not> mx \<le> k"
    using word_neq_0_conv [of mx] by (auto simp: not_le intro: order.strict_trans1)
  have k: "unat (k + 1) = Suc (unat k)" using unat_Suc_below [OF lt] by simp
  have j: "j = unat mx - unat (k + 1)" "k + 1 \<le> mx" "unat mx - unat k = Suc j"
    using Suc.hyps(2) lt k by (simp_all add: word_le_nat_alt word_less_nat_alt)
  obtain w1 where o: "operation w = (res i, w1)" "Q (Suc i) w1" using g Suc.prems(3) unfolding gives_def by blast
  show ?case
  proof (cases "\<exists>e. res i = Err e \<and> as_permanent e = None")
    case False
    then show ?thesis
      by (cases "res i"; subst retry_loop.simps)
        (auto simp: o attempts.simps [of res _ i] withEmptyData_def attempt_def bind_def ret_def plain_def
          split: option.splits)
  next
    case True
    then obtain e where e: "res i = Err e" "as_permanent e = None" by blast
    obtain d x' w2 where nx: "exp_next env x w1 = (d, x', w2)" by (cases "exp_next env x w1") auto
    from exp_next_default [OF env Suc.prems(1) nx] have d: "0 \<le> d" "default_state t0 x'" by auto
    define w4 where "w4 = w2\<lparr>hist := hist w2 @ [TimeCall (TimerStart d)]\<rparr>"
    have "Q (Suc i) w2" using gives_time2 [OF g o(2)] exp_next_hist [OF nx] by simp
    then have "Q (Suc i) w4" using g unfolding gives_def w4_def by blast
    from Suc.hyps(1) [OF j(1) d(2) j(2) this, of "Suc n"] obtain q w' where
      "retry_loop (package_policy env cu) ce None (withEmptyData operation) None (Suc n)
         (Tries (Exponential x') mx (k + 1)) w4 = Some (q, Suc n + snd (attempts res j (Suc i)), w')"
      "plain q = fst (attempts res j (Suc i))" unfolding j(1) [symmetric] by blast
    moreover have "retry_loop (package_policy env cu) ce None (withEmptyData operation) None n
        (Tries (Exponential x) mx k) w = retry_loop (package_policy env cu) ce None (withEmptyData operation) None
        (Suc n) (Tries (Exponential x') mx (k + 1)) w4"
      using d mx o(1) e by (subst (1) retry_loop.simps)
        (simp add: withEmptyData_Err [where operation = operation] package_policy_def nx Stop_def ctx_Err_def w4_def Let_def)
    ultimately show ?thesis using e by (simp add: j(3) attempts.simps [of res "Suc j" i] split_beta)
  qed
qed

lemma new_default_state:
  assumes "calm env t0"
  shows "default_state t0 (fst (NewExponentialBackOff env [] w))"
    and "default_state t0 (fst (exp_reset env (fst (NewExponentialBackOff env [] w)) w'))"
  using assms by (simp_all add: default_state_def NewExponentialBackOff_def exp_reset_def clock_now_def
      default_exponential_def exp_wf_def durations calm_def Let_def)

lemma retry_attempts:
  assumes "calm env t0" "gives Q operation res" "Q 0 w"
  shows "\<exists>w'. Retry (package_policy env cu) ce operation
      (WithMaxRetries (Exponential (fst (NewExponentialBackOff env [] w0))) mx) w =
      Some (fst (attempts res (unat mx) 0), snd (attempts res (unat mx) 0), w')"
proof -
  define x where "x = fst (NewExponentialBackOff env [] w0)"
  obtain x' w1 where r: "exp_reset env x w = (x', w1)" by (cases "exp_reset env x w")
  have x': "default_state t0 x'"
    using new_default_state(2) [OF assms(1), of w0 w] r by (simp add: x_def)
  have "Q 0 w1" using assms(2,3) r by (auto simp: gives_def exp_reset_def clock_now_def Let_def)
  from retry_loop_attempts [OF assms(1,2) x' _ this, where k = 0 and mx = mx and cu = cu and ce = ce and n = 0]
  obtain q w' where
    "retry_loop (package_policy env cu) ce None (withEmptyData operation) None 0
       (Tries (Exponential x') mx 0) w1 = Some (q, snd (attempts res (unat mx) 0), w')"
    "plain q = fst (attempts res (unat mx) 0)" by auto
  then show ?thesis
    by (simp add: Retry_def RetryNotify_def doRetryNotify_def WithMaxRetries_def package_policy_def r
        x_def [symmetric]) (simp add: plain_def [abs_def])
qed

lemma attempts_failing: "as_permanent e = None \<Longrightarrow> attempts (\<lambda>_. Err e) l i = (Err e, l + 1)"
  by (induction l arbitrary: i) (simp_all add: attempts.simps [of "\<lambda>_. Err e"])

lemma retry_failing_run:
  assumes "calm env t0" "\<forall>u. \<exists>u'. operation u = (Err e, u')" "as_permanent e = None"
  shows "\<exists>w'. Retry (package_policy env cu) ce operation
      (WithMaxRetries (Exponential (fst (NewExponentialBackOff env [] w0))) mx) w = Some (Err e, unat mx + 1, w')"
proof -
  have "gives (\<lambda>_ _. True) operation (\<lambda>_. Err e)" using assms(2) by (simp add: gives_def)
  from retry_attempts [OF assms(1) this] show ?thesis by (simp add: attempts_failing [OF assms(3)])
qed

lemma WithMaxRetries_returns:
  "\<exists>r m w'. Retry (package_policy env cu) ce operation (WithMaxRetries b mx) w = Some (r, m, w') \<and>
     1 \<le> m \<and> m \<le> unat mx + 1"
  using tries.Retry_returns [of "WithMaxRetries b mx" env cu ce operation w]
  by (simp add: WithMaxRetries_def)

text \<open>An invariant the operation and the policy keep is kept by the loop, and what the loop returns
  is what the last run of the operation returned, a permanent error unwrapped.\<close>

definition last_run :: "('w \<Rightarrow> bool) \<Rightarrow> ('w, unit) go \<Rightarrow> (unit \<times> err option) res \<Rightarrow> 'w \<Rightarrow> bool" where
  "last_run I oper r w' \<longleftrightarrow> I w' \<and> (\<exists>v q v'. I v \<and> oper v = (q, v') \<and> (case r of
       Ok (_, None) \<Rightarrow> q = Ok () \<and> w' = v'
     | Ok (_, Some e) \<Rightarrow> \<exists>e0. q = Err e0 \<and> (e = e0 \<or> as_permanent e0 = Some e)
     | Err e \<Rightarrow> False
     | Panic s \<Rightarrow> q = Panic s \<and> w' = v'
     | Stuck \<Rightarrow> q = Stuck \<and> w' = v'))"

lemma retry_loop_last:
  fixes oper :: "('z world_scheme, unit) go" and p :: "('b, 'z world_scheme) policy"
  assumes run: "retry_loop p ce None (withEmptyData oper) None n b w = Some (r, m, w')" and w: "I w"
    and I: "keeps I oper" "\<And>b w. I w \<Longrightarrow> I (snd (snd (p_next p b w)))"
      "\<And>w c. I w \<Longrightarrow> I (w\<lparr>hist := hist w @ [TimeCall c]\<rparr>)"
  shows "last_run I oper r w'"
proof -
  define P where "P = (\<lambda>(p' :: ('b, 'z world_scheme) policy) (ce' :: ctx_env) (ctx :: nat option)
      (op' :: ('z world_scheme, unit \<times> err option) go)
      (notify :: (err \<Rightarrow> int \<Rightarrow> ('z world_scheme, unit) go) option) (k :: nat) (b' :: 'b) v (rw :: (unit \<times> err option) res \<times> nat \<times> 'z world_scheme).
      p' = p \<longrightarrow> ctx = None \<longrightarrow> op' = withEmptyData oper \<longrightarrow> notify = None \<longrightarrow> I v \<longrightarrow>
      last_run I oper (fst rw) (snd (snd rw)))"
  have "P p ce None (withEmptyData oper) None n b w (r, m, w')"
  proof (rule retry_loop.raw_induct [OF _ run])
    fix f :: "('b, 'z world_scheme) policy \<Rightarrow> ctx_env \<Rightarrow> nat option \<Rightarrow> ('z world_scheme, unit \<times> err option) go \<Rightarrow>
        (err \<Rightarrow> int \<Rightarrow> ('z world_scheme, unit) go) option \<Rightarrow> nat \<Rightarrow> 'b \<Rightarrow> 'z world_scheme \<Rightarrow>
        ((unit \<times> err option) res \<times> nat \<times> 'z world_scheme) option"
      and p' ce' ctx op' notify k b' v rw
    assume IH: "\<And>p' ce' ctx op' notify k b' v rw. f p' ce' ctx op' notify k b' v = Some rw \<Longrightarrow> P p' ce' ctx op' notify k b' v rw"
      and body: "(case op' v of
        (Panic s, w1) \<Rightarrow> Some (Panic s, Suc k, w1)
      | (Stuck, w1) \<Rightarrow> Some (Stuck, Suc k, w1)
      | (Err e, w1) \<Rightarrow> Some (Err e, Suc k, w1)
      | (Ok (r, e), w1) \<Rightarrow>
         (case e of
            None \<Rightarrow> Some (Ok (r, None), Suc k, w1)
          | Some err \<Rightarrow>
             (case as_permanent err of
                Some inner \<Rightarrow> Some (Ok (r, Some inner), Suc k, w1)
              | None \<Rightarrow>
                 (case p_next p' b' w1 of (next, b'', w2) \<Rightarrow>
                    if next = Stop then
                      (case ctx_Err ce' ctx (hist w2) of
                         Some cerr \<Rightarrow> Some (Ok (r, Some cerr), Suc k, w2)
                       | None \<Rightarrow> Some (Ok (r, Some err), Suc k, w2))
                    else
                      (case (case notify of None \<Rightarrow> (Ok (), w2) | Some f \<Rightarrow> f err next w2) of
                         (Ok _, w3) \<Rightarrow>
                           (let w4 = w3\<lparr>hist := hist w3 @ [TimeCall (TimerStart next)]\<rparr> in
                            case ctx_Err ce' ctx (hist w4) of
                              Some cerr \<Rightarrow> if done_first ce' (hist w4)
                                then Some (Ok (r, Some cerr), Suc k, w4)
                                else f p' ce' ctx op' notify (Suc k) b'' w4
                            | None \<Rightarrow> f p' ce' ctx op' notify (Suc k) b'' w4)
                       | (Err e, w3) \<Rightarrow> Some (Err e, Suc k, w3)
                       | (Panic s, w3) \<Rightarrow> Some (Panic s, Suc k, w3)
                       | (Stuck, w3) \<Rightarrow> Some (Stuck, Suc k, w3)))))) = Some rw"
    show "P p' ce' ctx op' notify k b' v rw"
      unfolding P_def
    proof (intro impI)
      assume eqs: "p' = p" "ctx = None" "op' = withEmptyData oper" "notify = None" and v: "I v"
      obtain q v1 where o: "oper v = (q, v1)" by (cases "oper v")
      have v1: "I v1" by (rule keeps_run [OF I(1) o v])
      show "last_run I oper (fst rw) (snd (snd rw))"
      proof (cases q)
        case (Err e)
        obtain d b2 w2 where nx: "p_next p b' v1 = (d, b2, w2)" by (cases "p_next p b' v1") auto
        have w2: "I w2" using I(2) [OF v1, of b'] by (simp add: nx)
        have it: "last_run I oper (Ok ((), Some e')) u" if "I u" "e' = e \<or> as_permanent e = Some e'" for e' u
          using that v o Err by (auto simp: last_run_def)
        show ?thesis
        proof (cases "as_permanent e = None \<and> d \<noteq> Stop")
          case True
          let ?w4 = "w2\<lparr>hist := hist w2 @ [TimeCall (TimerStart d)]\<rparr>"
          have "f p ce' None (withEmptyData oper) None (Suc k) b2 ?w4 = Some rw"
            using body o Err eqs nx True by (auto simp: withEmptyData_Err ctx_Err_def Let_def)
          from IH [OF this] I(3) [OF w2] show ?thesis by (simp add: P_def)
        next
          case False
          with body o Err eqs nx it v1 w2 show ?thesis
            by (auto simp: withEmptyData_Err ctx_Err_def split: option.splits if_splits)
        qed
      qed (use body o eqs v v1 in \<open>auto simp: withEmptyData_def attempt_def bind_def ret_def last_run_def
             split: if_splits\<close>)
    qed
  qed
  with w show ?thesis by (simp add: P_def)
qed

text \<open>The package's policy only reads the clock and draws numbers.\<close>

lemma NextBackOff_keeps:
  assumes "\<And>w c. I w \<Longrightarrow> I (w\<lparr>hist := hist w @ [TimeCall c]\<rparr>)"
  shows "I w \<Longrightarrow> I (snd (snd (NextBackOff env cu b w)))"
proof (induction b arbitrary: w)
  case (Exponential b)
  have "I (w\<lparr>hist := hist w @ [TimeCall TimeNow], hist := hist w @ [TimeCall TimeNow] @ [TimeCall RandFloat64]\<rparr>)"
    using assms [OF assms [OF Exponential, of TimeNow], of RandFloat64] by simp
  then show ?case
    by (simp add: exp_next_def GetElapsedTime_def clock_now_def rand_float_def Let_def split: prod.splits)
next
  case (Tries b maxTries numTries)
  from Tries.IH [OF Tries.prems] Tries.prems show ?case by (cases "NextBackOff env cu b w") (auto simp: Let_def)
qed (auto split: prod.splits)

lemma Reset_keeps:
  assumes "\<And>w c. I w \<Longrightarrow> I (w\<lparr>hist := hist w @ [TimeCall c]\<rparr>)"
  shows "I w \<Longrightarrow> I (snd (Reset env cu b w))"
proof (induction b arbitrary: w)
  case (Tries b maxTries numTries)
  from Tries.IH [OF Tries.prems] show ?case by (cases "Reset env cu b w") auto
qed (auto simp: exp_reset_def clock_now_def Let_def assms split: prod.splits)

text \<open>\<open>backoff.Retry(operation, backoff.WithMaxRetries(backoff.NewExponentialBackOff(), n))\<close>, the only
  way the program calls the package.\<close>

definition retry_max :: "'e env_scheme \<Rightarrow> 64 word \<Rightarrow> ('z world_scheme, unit) go \<Rightarrow> ('z world_scheme, unit) go" where
  "retry_max env mx operation w = (case NewExponentialBackOff env [] w of (b, w1) \<Rightarrow>
     (case Retry (package_policy env \<lparr>custom_next = \<lambda>x :: unit. (Stop, x), custom_reset = \<lambda>x. x, custom_context = \<lambda>x. None\<rparr>)
         \<lparr>ctx_err = \<lambda>c h. None, done_first = \<lambda>h. False\<rparr> operation (WithMaxRetries (Exponential b) mx) w1 of
        None \<Rightarrow> (Stuck, w1) | Some (r, n, w2) \<Rightarrow> (r, w2)))"

text \<open>It returns what one run of the operation returned, and keeps what the operation keeps.\<close>

lemma retry_max_last:
  assumes run: "retry_max env mx oper w = (r, w')" and w: "I w" and I: "keeps I oper"
    and h: "\<And>w c. I w \<Longrightarrow> I (w\<lparr>hist := hist w @ [TimeCall c]\<rparr>)"
  shows "I w' \<and> (\<exists>v q v'. I v \<and> oper v = (q, v') \<and> (case r of
       Ok _ \<Rightarrow> q = Ok () \<and> w' = v'\<lparr>hist := hist v' @ [TimeCall TimerStop]\<rparr>
     | Err e \<Rightarrow> \<exists>e0. q = Err e0 \<and> (e = e0 \<or> as_permanent e0 = Some e)
     | Panic s \<Rightarrow> q = Panic s \<and> w' = v'\<lparr>hist := hist v' @ [TimeCall TimerStop]\<rparr>
     | Stuck \<Rightarrow> q = Stuck \<and> w' = v'))"
proof -
  define cu where "cu = \<lparr>custom_next = \<lambda>x :: unit. (Stop, x), custom_reset = \<lambda>x. x, custom_context = \<lambda>x. None\<rparr>"
  define ce :: ctx_env where "ce = \<lparr>ctx_err = \<lambda>c h. None, done_first = \<lambda>h. False\<rparr>"
  obtain b w1 where b: "NewExponentialBackOff env [] w = (b, w1)" by (cases "NewExponentialBackOff env [] w")
  have w1: "I w1" using h [OF w, of TimeNow] b
    by (auto simp: NewExponentialBackOff_def exp_reset_def clock_now_def Let_def)
  obtain b' w2 where r: "Reset env cu (WithMaxRetries (Exponential b) mx) w1 = (b', w2)"
    by (cases "Reset env cu (WithMaxRetries (Exponential b) mx) w1")
  have w2: "I w2" using Reset_keeps [OF h w1, of env cu "WithMaxRetries (Exponential b) mx"] r by simp
  obtain q m w3 where loop: "retry_loop (package_policy env cu) ce None (withEmptyData oper) None 0 b' w2 = Some (q, m, w3)"
    and m: "Retry (package_policy env cu) ce oper (WithMaxRetries (Exponential b) mx) w1 =
      Some (case q of Ok (_, None) \<Rightarrow> Ok () | Ok (_, Some e) \<Rightarrow> Err e | Err e \<Rightarrow> Err e | Panic s \<Rightarrow> Panic s | Stuck \<Rightarrow> Stuck,
        m, if q = Stuck then w3 else w3\<lparr>hist := hist w3 @ [TimeCall TimerStop]\<rparr>)"
    using WithMaxRetries_returns [of env cu ce oper "Exponential b" mx w1] r
    by (auto simp: Retry_def RetryNotify_def doRetryNotify_def package_policy_def WithMaxRetries_def)
  have "last_run I oper q w3"
    by (rule retry_loop_last [OF loop w2 I _ h]) (simp add: package_policy_def NextBackOff_keeps [where I = I, OF h])
  with run b m h show ?thesis
    unfolding last_run_def retry_max_def cu_def [symmetric] ce_def [symmetric]
    by (auto split: res.splits option.splits)
qed

lemma keeps_retry_max:
  assumes "keeps I oper" "\<And>w c. I w \<Longrightarrow> I (w\<lparr>hist := hist w @ [TimeCall c]\<rparr>)"
  shows "keeps I (retry_max env mx oper)"
proof (rule keepsI)
  fix w assume "I w"
  with assms show "I (snd (retry_max env mx oper w))"
    by (cases "retry_max env mx oper w") (auto dest: retry_max_last [where I = I])
qed

lemma retry_max_failing:
  assumes "calm env t0" "\<forall>u. \<exists>u'. oper u = (Err e, u')" "as_permanent e = None"
  shows "\<exists>w'. retry_max env mx oper w = (Err e, w')"
proof -
  obtain b w1 where b: "NewExponentialBackOff env [] w = (b, w1)" by (cases "NewExponentialBackOff env [] w")
  have "\<exists>w'. Retry (package_policy env \<lparr>custom_next = \<lambda>x :: unit. (Stop, x), custom_reset = \<lambda>x. x, custom_context = \<lambda>x. None\<rparr>)
      \<lparr>ctx_err = \<lambda>c h. None, done_first = \<lambda>h. False\<rparr> oper (WithMaxRetries (Exponential b) mx) w1 =
      Some (Err e, unat mx + 1, w')"
    using retry_failing_run [OF assms] b by (metis fst_conv)
  with b show ?thesis by (auto simp: retry_max_def)
qed

text \<open>An operation that succeeds at once is run once.\<close>

lemma retry_max_Ok:
  fixes w :: "'z world_scheme"
  assumes "\<And>h. oper (w\<lparr>hist := h\<rparr>) = (Ok (), f h)"
  shows "retry_max env mx oper w = (Ok (),
    (f (hist w @ [TimeCall TimeNow, TimeCall TimeNow]))\<lparr>hist := hist (f (hist w @ [TimeCall TimeNow, TimeCall TimeNow])) @ [TimeCall TimerStop]\<rparr>)"
  by (simp add: retry_max_def NewExponentialBackOff_def exp_reset_def clock_now_def Let_def Retry_def
      RetryNotify_def doRetryNotify_def package_policy_def WithMaxRetries_def retry_loop.simps
      withEmptyData_Ok assms)

section \<open>Properties\<close>


text \<open>Outsides for the witnesses: a clock that stands still, a policy and a context.\<close>

definition env_calm :: env where
  "env_calm = env0\<lparr>int_of := \<lambda>h. 5\<rparr>"

definition custom0 :: "unit custom_backoff" where
  "custom0 = \<lparr>custom_next = \<lambda>x. (0, x), custom_reset = \<lambda>x. x, custom_context = \<lambda>x. None\<rparr>"

definition ctx0 :: ctx_env where
  "ctx0 = \<lparr>ctx_err = \<lambda>c h. None, done_first = \<lambda>h. False\<rparr>"

text \<open>
  C22. One step of the exponential policy with the default randomization factor: the
  delay is the stop value (only with a time limit) or lies between half and three halves
  of the interval, so it is never the value \<open>Stop\<close> by accident; the interval never
  shrinks and never passes \<open>MaxInterval\<close>.\<close>
theorem exp_next_bounds:
  assumes "exp_wf b" "RandomizationFactor b = 1 / 2" "\<forall>h. 0 \<le> rat_of env h \<and> rat_of env h < 1"
    and "exp_next env b w = (d, b', w')"
  shows "(d = StopValue b \<and> MaxElapsedTime b \<noteq> 0 \<or>
      currentInterval b div 2 \<le> d \<and> d \<le> (3 * currentInterval b) div 2 + 1 \<and> d \<noteq> Stop) \<and>
    currentInterval b \<le> currentInterval b' \<and> currentInterval b' \<le> MaxInterval b \<and> exp_wf b'"
proof -
  define r where "r = rat_of env (hist w @ [TimeCall TimeNow, TimeCall RandFloat64])"
  define nxt where "nxt = getRandomValueFromInterval (1 / 2) r (currentInterval b)"
  have b: "0 \<le> currentInterval b" "currentInterval b \<le> 2 ^ 50" using assms(1) by (auto simp: exp_wf_def)
  have nx: "currentInterval b div 2 \<le> nxt \<and> nxt \<le> (3 * currentInterval b) div 2 + 1"
    unfolding nxt_def by (rule random_half_bounds) (use b assms(3) in \<open>auto simp: r_def less_imp_le\<close>)
  then have "0 \<le> nxt" using b by linarith
  then have ns: "nxt \<noteq> Stop" by (simp add: Stop_def)
  have "b' = incrementCurrentInterval b \<and> (d = nxt \<or> d = StopValue b \<and> MaxElapsedTime b \<noteq> 0)"
    using assms(4) by (auto simp: assms(2) exp_next_def GetElapsedTime_def clock_now_def rand_float_def
        Let_def r_def [symmetric] nxt_def [symmetric] split: if_splits)
  then show ?thesis using nx ns increment_bounds [OF assms(1)] increment_wf [OF assms(1)] by auto
qed

theorem exp_next_bounds_witness:
  "\<exists>d b' w'. exp_next env0 (fst (NewExponentialBackOff env0 [] world0)) world0 = (d, b', w') \<and>
     currentInterval b' \<le> DefaultMaxInterval"
proof -
  define b where "b = fst (NewExponentialBackOff env0 [] world0)"
  have b: "exp_wf b" "RandomizationFactor b = 1 / 2" "MaxInterval b = DefaultMaxInterval"
    by (simp_all add: b_def exp_wf_def NewExponentialBackOff_def exp_reset_def clock_now_def
        default_exponential_def durations Let_def)
  have r: "\<forall>h. 0 \<le> rat_of env0 h \<and> rat_of env0 h < 1" by (simp add: env0_def)
  obtain d b' w' where n: "exp_next env0 b world0 = (d, b', w')" by (cases "exp_next env0 b world0") auto
  show ?thesis using exp_next_bounds [OF b(1,2) r n] n b(3) by (auto simp: b_def)
qed

text \<open>
  With the default multiplier 3/2 and maximum 60 s the binary64 arithmetic loses
  nothing: an increment is \<open>3 * c div 2\<close>, cut to the maximum from 40 s on.\<close>
theorem default_increment:
  assumes "Multiplier b = DefaultMultiplier" "MaxInterval b = DefaultMaxInterval"
    and "0 \<le> currentInterval b" "currentInterval b \<le> DefaultMaxInterval"
  shows "currentInterval (incrementCurrentInterval b) =
    (if 40 * second \<le> currentInterval b then 60 * second else (3 * currentInterval b) div 2)"
proof -
  define c where "c = currentInterval b"
  have c: "0 \<le> c" "c \<le> 60000000000" using assms by (simp_all add: c_def durations)
  have rc: "f64 (of_int c) = of_int c" using c by (simp add: f64.exact_int)
  have m: "f64 60000000000 = 60000000000" "f64 40000000000 = 40000000000"
    using f64.exact_int [of 60000000000] f64.exact_int [of 40000000000] by simp_all
  have "of_int c * (3 / 2) = (of_int (3 * c) :: rat) / 2" by simp
  then have p: "f64 (of_int c * (3 / 2)) = of_int (3 * c) / 2"
    using f64.exact_half [of "3 * c"] c by (simp only:) simp
  have "3 * c < 2 * 2 ^ 63" using c by simp
  then have "(of_int (3 * c) :: rat) < of_int (2 * 2 ^ 63)" by (simp only: of_int_less_iff)
  then have "f64_to_i64 (of_int (3 * c) / 2) = \<lfloor>(of_int (3 * c) :: rat) / of_int 2\<rfloor>"
    using c by (subst f64_to_i64_floor) simp_all
  also have "\<dots> = (3 * c) div 2" by (rule floor_divide_of_int_eq)
  finally have t: "f64_to_i64 (of_int (3 * c) / 2) = (3 * c) div 2" .
  have le: "(40000000000 :: rat) \<le> of_int c \<longleftrightarrow> 40000000000 \<le> c"
    by (metis of_int_le_iff of_int_numeral)
  show ?thesis
    using c_def [symmetric]
    by (simp add: incrementCurrentInterval_def assms(1,2) durations rc m p t le del: times_divide_eq_right of_int_mult)
qed

theorem default_increment_witness:
  "\<exists>b. currentInterval b = 41 * second \<and> currentInterval (incrementCurrentInterval b) = 60 * second"
proof -
  define b where "b = default_exponential\<lparr>currentInterval := 41 * second\<rparr>"
  have "Multiplier b = DefaultMultiplier" "MaxInterval b = DefaultMaxInterval"
    "0 \<le> currentInterval b" "currentInterval b \<le> DefaultMaxInterval" "currentInterval b = 41 * second"
    by (simp_all add: b_def default_exponential_def durations)
  then show ?thesis using default_increment [of b] by (intro exI [of _ b]) (simp add: durations)
qed

text \<open>
  C28. The retry the program uses returns what a list of the results of the runs says: the first
  result that is no error, the error inside the first permanent one, or the error of run
  \<open>max + 1\<close>, after exactly that many runs, as long as the clock moves by at most 13 minutes.\<close>
theorem retry_outcome:
  assumes "calm env t0" "gives Q operation res" "Q 0 w"
  shows "\<exists>w'. Retry (package_policy env cu) ce operation
      (WithMaxRetries (Exponential (fst (NewExponentialBackOff env [] w0))) mx) w =
      Some (fst (attempts res (unat mx) 0), snd (attempts res (unat mx) 0), w')"
  using assms by (rule retry_attempts)

text \<open>A call that fails twice and then succeeds.\<close>

definition env_twice :: env where
  "env_twice = env_calm\<lparr>err_of := \<lambda>h. if count_list h (SignalCall NegRecv) \<le> 2 then Some (ErrExt 7) else None\<rparr>"

theorem retry_outcome_witness:
  "\<exists>w' :: world. Retry (package_policy env_twice custom0) ctx0 (perform env_twice (SignalCall NegRecv))
     (WithMaxRetries (Exponential (fst (NewExponentialBackOff env_twice [] world0))) 4) world0 = Some (Ok (), 3, w')"
proof -
  define res where "res = (\<lambda>i :: nat. if i < 2 then Err (ErrExt 7) else Ok ())"
  define Q where "Q = (\<lambda>i (u :: world). count_list (hist u) (SignalCall NegRecv) = i)"
  have c: "calm env_twice 5" by (simp add: calm_def env_twice_def env_calm_def env0_def durations)
  have g: "gives Q (perform env_twice (SignalCall NegRecv)) res"
    by (auto simp: gives_def Q_def res_def perform_def env_twice_def Let_def)
  have q: "Q 0 world0" by (simp add: Q_def world0_def)
  have "attempts res 4 0 = (Ok (), 3)"
    unfolding res_def by code_simp
  with retry_outcome [OF c g q, of custom0 ctx0 world0 4] show ?thesis by simp
qed

text \<open>
  A permanent error, also one wrapped with \<open>%w\<close>, ends the retry after the run that returned it,
  whatever the policy; it is not asked.\<close>
theorem retry_permanent:
  assumes "p_reset p b w = (b', w0)" "operation w0 = (Err e, w1)" "as_permanent e = Some inner"
  shows "Retry p ce operation b w =
    Some (Err inner, 1, w1\<lparr>hist := hist w1 @ [TimeCall TimerStop]\<rparr>)"
  by (simp add: Retry_def RetryNotify_def doRetryNotify_def assms(1) retry_loop.simps
      withEmptyData_Err [where operation = operation, OF assms(2)] assms(3))

theorem retry_permanent_witness:
  "Retry (package_policy env0 custom0) ctx0 (throw (ErrWrap ''rpc'' (ErrPermanent ErrEOF)))
     (WithMaxRetries (Custom ()) 3) world0 =
   Some (Err ErrEOF, 1, world0\<lparr>hist := [TimeCall TimerStop]\<rparr>)"
proof -
  have r: "p_reset (package_policy env0 custom0) (WithMaxRetries (Custom ()) 3) world0 =
      (WithMaxRetries (Custom ()) 3, world0)"
    by (simp add: package_policy_def WithMaxRetries_def custom0_def)
  have o: "throw (ErrWrap ''rpc'' (ErrPermanent ErrEOF)) world0 = (Err (ErrWrap ''rpc'' (ErrPermanent ErrEOF)), world0)"
    by (simp add: throw_def)
  show ?thesis using retry_permanent [where operation = "throw (ErrWrap ''rpc'' (ErrPermanent ErrEOF))" and inner = ErrEOF and ce = ctx0, OF r o] by (simp add: world0_def)
qed

end
