(* ===== verification/Control_Plane.thy ===== *)
theory Control_Plane
  imports Rcn_Sock Conf Backoff "HOL-Library.AList"
begin

text \<open>
  \<open>rcn/controlplane/control_plane.go\<close>: the peers of a node by their node key, the dispatch of
  signals to them, the first offers and the synchronisation with the server. The fields that
  change are in the world; the map is a list whose order stands for the order of an
  iteration, which Go leaves open, so a theorem for every list holds for every order. The
  channel to the goroutine \<open>WaitForRemoteConn\<close> is the queue of the peers sent to it; that the
  sender may have to wait for the receiver is left out.
\<close>

section \<open>State\<close>

record cp_world = ice_world +
  peerConns :: "(string \<times> nat option) list"
  stconf :: "StunTurnConfig option"
  waitForRemoteConnCh :: "nat list"

record 'w ControlPlane =
  cp_signalClient :: "'w SignalClientImpl"
  cp_serverClient :: "'w ServerClientImpl"
  cp_nk :: string
  cp_conf :: "'w Conf"
  cp_ch :: "chan option"

definition cp_mu :: mutex where "cp_mu = (''ControlPlane.mu'', 0)"

definition NewControlPlane :: "('z cp_world_scheme) SignalClientImpl \<Rightarrow> ('z cp_world_scheme) ServerClientImpl
    \<Rightarrow> string \<Rightarrow> ('z cp_world_scheme) Conf \<Rightarrow> chan option \<Rightarrow> ('z cp_world_scheme, ('z cp_world_scheme) ControlPlane) go" where
  "NewControlPlane signalClient serverClient nk conf ch =
     bind (modify (\<lambda>w. w\<lparr>peerConns := [], stconf := None, waitForRemoteConnCh := []\<rparr>)) (\<lambda>_.
     ret \<lparr>cp_signalClient = signalClient, cp_serverClient = serverClient, cp_nk = nk, cp_conf = conf, cp_ch = ch\<rparr>)"

text \<open>Reading a map at a key that is not there gives a nil pointer.\<close>

definition peer_of :: "(string \<times> nat option) list \<Rightarrow> string \<Rightarrow> nat option" where
  "peer_of ps k = (case map_of ps k of None \<Rightarrow> None | Some p \<Rightarrow> p)"

section \<open>STUN and TURN\<close>

definition parseStun :: "'e ice_env_scheme \<Rightarrow> string \<Rightarrow> string \<Rightarrow> string \<Rightarrow> ('w, ice_url) go" where
  "parseStun env url uname pw = (case parse_url env url of
       Inl e \<Rightarrow> throw e | Inr stun \<Rightarrow> ret (stun\<lparr>Username := uname, Password := pw\<rparr>))"

definition parseTurn :: "'e ice_env_scheme \<Rightarrow> string \<Rightarrow> string \<Rightarrow> string \<Rightarrow> ('w, ice_url) go" where
  "parseTurn env url uname pw = (case parse_url env url of
       Inl e \<Rightarrow> throw e | Inr turn \<Rightarrow> ret (turn\<lparr>Username := uname, Password := pw\<rparr>))"

definition ConfigureStunTurnConf :: "'e ice_env_scheme \<Rightarrow> ('z cp_world_scheme) ControlPlane
    \<Rightarrow> ('z cp_world_scheme, unit) go" where
  "ConfigureStunTurnConf env c =
     bind (sc_GetStunTurnConfig (cp_signalClient c)) (\<lambda>conf.
     bind (deref (RtcConfig conf)) (\<lambda>rtc.
     bind (deref (StunHost rtc)) (\<lambda>stun_host.
     bind (deref (TurnHost rtc)) (\<lambda>turn_host.
     bind (parseStun env (StunUrl stun_host) (TurnUsername turn_host) (TurnPassword turn_host)) (\<lambda>stun.
     bind (parseTurn env (TurnUrl turn_host) (TurnUsername turn_host) (TurnPassword turn_host)) (\<lambda>turn.
     modify (\<lambda>w. w\<lparr>stconf := Some \<lparr>Stun = Some stun, Turn = Some turn\<rparr>\<rparr>)))))))"

section \<open>Signals\<close>

definition receiveSignalRequest :: "'e ice_env_scheme \<Rightarrow> NegotiationType \<Rightarrow> nat option \<Rightarrow> string \<Rightarrow> string
    \<Rightarrow> string \<Rightarrow> ('z cp_world_scheme, unit) go" where
  "receiveSignalRequest env msgType node uname pwd candidate = (case msgType of
       ANSWER \<Rightarrow> (case node of None \<Rightarrow> panic ''nil pointer dereference'' | Some n \<Rightarrow> SendRemoteAnswerCh n uname pwd)
     | OFFER \<Rightarrow> (case node of None \<Rightarrow> panic ''nil pointer dereference'' | Some n \<Rightarrow> SendRemoteOfferCh n uname pwd)
     | CANDIDATE \<Rightarrow> (case unmarshal_candidate env candidate of
           Inl e \<Rightarrow> throw e | Inr cand \<Rightarrow> SendRemoteCandidate node cand)
     | UnknownType t \<Rightarrow> ret ())"

text \<open>The function \<open>Connect\<close> is given.\<close>

definition signal_handler :: "'e ice_env_scheme \<Rightarrow> ('z cp_world_scheme) handler" where
  "signal_handler env res = with_lock cp_mu
     (bind (gets peerConns) (\<lambda>ps.
      receiveSignalRequest env (GetType res) (peer_of ps (getter DstNodeKey res))
        (getter UFlag res) (getter Pwd res) (getter Candidate res)))"

text \<open>The goroutine of \<open>ConnectSignalServer\<close>.\<close>

definition SignalLoop_body :: "'e ice_env_scheme \<Rightarrow> ('z cp_world_scheme) ControlPlane
    \<Rightarrow> ('z cp_world_scheme, unit) go" where
  "SignalLoop_body env c =
     bind (attempt (retry_max env 3 (sc_Connect (cp_signalClient c) (cp_nk c) (signal_handler env)))) (\<lambda>r. case r of
       Inl _ \<Rightarrow> close_chan (cp_ch c) | Inr _ \<Rightarrow> ret ())"

section \<open>The first offers\<close>

definition newIce :: "'e ice_env_scheme \<Rightarrow> ('z cp_world_scheme) ControlPlane \<Rightarrow> Node \<Rightarrow> string \<Rightarrow> string
    \<Rightarrow> ('z cp_world_scheme, nat) go" where
  "newIce env c node myip mycidr = (let spec = conf_Spec (cp_conf c) in
     bind (ParseKey env (sp_WgPrivateKey spec)) (\<lambda>k.
     bind (if sp_PreSharedKey spec \<noteq> []
           then bind (ParseKey env (sp_PreSharedKey spec)) (\<lambda>k. ret (key_string env k)) else ret []) (\<lambda>pk.
     let remoteip = Join (node_AllowedIPs node) '','' in
     bind (gets stconf) (\<lambda>st.
     NewIce env (RemoteWgPubKey node) remoteip (RemoteNodeKey node) myip mycidr k (nat WgPort)
       (sp_TunName spec) pk (cp_nk c) st (sp_BlackList spec)))))"

definition add_remote_node :: "'e ice_env_scheme \<Rightarrow> ('z cp_world_scheme) ControlPlane \<Rightarrow> string \<Rightarrow> string
    \<Rightarrow> Node \<Rightarrow> ('z cp_world_scheme, unit) go" where
  "add_remote_node env c ip cidr rp =
     bind (newIce env c rp ip cidr) (\<lambda>i.
     bind (modify (\<lambda>w. w\<lparr>peerConns := AList.update (RemoteNodeKey rp) (Some i) (peerConns w)\<rparr>)) (\<lambda>_.
     modify (\<lambda>w. w\<lparr>waitForRemoteConnCh := waitForRemoteConnCh w @ [i]\<rparr>)))"

definition offer_operation :: "'e ice_env_scheme \<Rightarrow> ('z cp_world_scheme) ControlPlane
    \<Rightarrow> ('z cp_world_scheme, unit) go" where
  "offer_operation env c =
     bind (sv_SyncRemoteNodesConfig (cp_serverClient c) (cp_nk c) (sp_WgPrivateKey (conf_Spec (cp_conf c)))) (\<lambda>res.
     case RemoteNodes res of
       None \<Rightarrow> ret ()
     | Some nodes \<Rightarrow> for_each (add_remote_node env c (sync_Ip res) (sync_Cidr res)) nodes)"

definition initialOfferToRemotePeer :: "'e ice_env_scheme \<Rightarrow> ('z cp_world_scheme) ControlPlane
    \<Rightarrow> ('z cp_world_scheme, unit) go" where
  "initialOfferToRemotePeer env c = bind (retry_max env 3 (offer_operation env c)) (\<lambda>_. ret ())"

text \<open>What \<open>ConnectSignalServer\<close> does after it has started its goroutine.\<close>

definition signal_server_rest :: "'e ice_env_scheme \<Rightarrow> ('z cp_world_scheme) ControlPlane
    \<Rightarrow> ('z cp_world_scheme, unit) go" where
  "signal_server_rest env c =
     bind (sc_WaitStartConnect (cp_signalClient c)) (\<lambda>_.
     bind (attempt (initialOfferToRemotePeer env c)) (\<lambda>r. case r of
       Inl _ \<Rightarrow> close_chan (cp_ch c) | Inr _ \<Rightarrow> ret ()))"

definition ConnectSignalServer :: "'e ice_env_scheme \<Rightarrow> ('z cp_world_scheme) ControlPlane
    \<Rightarrow> ('z cp_world_scheme, unit) go" where
  "ConnectSignalServer env c = bind (spawn SignalLoop) (\<lambda>_. signal_server_rest env c)"

section \<open>Synchronisation\<close>

definition remove_peer :: "'e env_scheme \<Rightarrow> ('z cp_world_scheme) ControlPlane \<Rightarrow> string
    \<Rightarrow> ('z cp_world_scheme, unit) go" where
  "remove_peer env c p =
     bind (gets (\<lambda>w. map_of (peerConns w) p)) (\<lambda>e. case e of
       None \<Rightarrow> ret ()
     | Some ice \<Rightarrow>
         bind (modify (\<lambda>w. w\<lparr>peerConns := AList.delete p (peerConns w)\<rparr>)) (\<lambda>_.
         ignore (case ice of None \<Rightarrow> panic ''nil pointer dereference''
           | Some n \<Rightarrow> Cleanup env (cp_signalClient c) n)))"

definition syncRemotePeerConfig :: "'e env_scheme \<Rightarrow> ('z cp_world_scheme) ControlPlane \<Rightarrow> Node list
    \<Rightarrow> ('z cp_world_scheme, unit) go" where
  "syncRemotePeerConfig env c remotePeers =
     (let remotePeerMap = set (map RemoteNodeKey remotePeers) in
      bind (gets peerConns) (\<lambda>ps.
      let unnecessary = filter (\<lambda>p. p \<notin> remotePeerMap) (map fst ps)
      in if length unnecessary = 0 then ret () else for_each (remove_peer env c) unnecessary))"

text \<open>\<open>SyncRemoteNodes\<close> repeats this turn until one fails; it takes the number of its turns.\<close>

definition sync_turn :: "'e env_scheme \<Rightarrow> ('z cp_world_scheme) ControlPlane \<Rightarrow> ('z cp_world_scheme, unit) go" where
  "sync_turn env c =
     bind (sv_SyncRemoteNodesConfig (cp_serverClient c) (cp_nk c) (sp_WgPrivateKey (conf_Spec (cp_conf c)))) (\<lambda>res.
     case RemoteNodes res of None \<Rightarrow> ret () | Some nodes \<Rightarrow> syncRemotePeerConfig env c nodes)"

fun SyncRemoteNodes :: "nat \<Rightarrow> 'e env_scheme \<Rightarrow> ('z cp_world_scheme) ControlPlane \<Rightarrow> ('z cp_world_scheme, unit) go" where
  "SyncRemoteNodes 0 env c = stuck"
| "SyncRemoteNodes (Suc n) env c = bind (sync_turn env c) (\<lambda>_. SyncRemoteNodes n env c)"

section \<open>The goroutine that sets peers up\<close>

definition isExistPeer :: "string \<Rightarrow> 'z cp_world_scheme \<Rightarrow> bool" where
  "isExistPeer remoteNodeKey w \<longleftrightarrow> map_of (peerConns w) remoteNodeKey \<noteq> None"

definition WaitForRemoteConn_turn :: "'e ice_env_scheme \<Rightarrow> ('z cp_world_scheme) ControlPlane
    \<Rightarrow> ('z cp_world_scheme, unit) go" where
  "WaitForRemoteConn_turn env c =
     bind (gets waitForRemoteConnCh) (\<lambda>q. case q of
       [] \<Rightarrow> stuck
     | n # q \<Rightarrow>
         bind (modify (\<lambda>w. w\<lparr>waitForRemoteConnCh := q\<rparr>)) (\<lambda>_.
         bind (sc_IsReady (cp_signalClient c)) (\<lambda>ready.
         bind (if ready then with_ice n (\<lambda>i. gets (isExistPeer (i_remoteNodeKey i))) else ret False) (\<lambda>go.
         if \<not> go then with_ice n (\<lambda>_. ret ())
         else
           bind (attempt (Ice_Setup env n)) (\<lambda>r. case r of
             Inl _ \<Rightarrow> ret ()
           | Inr _ \<Rightarrow> ignore (StartGatheringProcess env (cp_signalClient c) n))))))"

section \<open>The end\<close>

definition cp_Close :: "'e env_scheme \<Rightarrow> ('z cp_world_scheme) ControlPlane \<Rightarrow> ('z cp_world_scheme, unit) go" where
  "cp_Close env c =
     bind (gets peerConns) (\<lambda>ps. for_each (\<lambda>(nk, ice). case ice of
       None \<Rightarrow> ret () | Some n \<Rightarrow> Cleanup env (cp_signalClient c) n) ps)"

definition ConnectSock :: "string \<Rightarrow> string \<Rightarrow> ('z world_scheme, unit) go" where
  "ConnectSock ip cidr = spawn (SockConnect ip cidr)"

text \<open>The goroutine of \<open>ConnectSock\<close>.\<close>

definition ConnectSock_body :: "nat \<Rightarrow> 'e env_scheme \<Rightarrow> ('z world_scheme, unit) go" where
  "ConnectSock_body turns env = ignore (RcnSock_Connect turns env)"

section \<open>The invariant of the peers\<close>

text \<open>
  Every entry of the map is a peer that exists and is the peer of its key, no key occurs twice,
  every peer sent to the goroutine exists, every peer carries the node's own key, and numbers
  are not used again.
\<close>

definition peers_inv :: "string \<Rightarrow> 'z cp_world_scheme \<Rightarrow> bool" where
  "peers_inv nk w \<longleftrightarrow> distinct (map fst (peerConns w)) \<and>
     (\<forall>k p. (k, p) \<in> set (peerConns w) \<longrightarrow> (\<exists>n i. p = Some n \<and> ices w n = Some i \<and> i_remoteNodeKey i = k)) \<and>
     (\<forall>n \<in> set (waitForRemoteConnCh w). ices w n \<noteq> None) \<and>
     (\<forall>n i. ices w n = Some i \<longrightarrow> i_nk i = nk \<and> n < next_ice w)"

lemma peers_inv_frame [simp]:
  "peers_inv nk (w\<lparr>hist := a\<rparr>) = peers_inv nk w" "peers_inv nk (w\<lparr>held := b\<rparr>) = peers_inv nk w"
  "peers_inv nk (w\<lparr>closed := c\<rparr>) = peers_inv nk w" "peers_inv nk (w\<lparr>files := d\<rparr>) = peers_inv nk w"
  "peers_inv nk (w\<lparr>State := e\<rparr>) = peers_inv nk w" "peers_inv nk (w\<lparr>conn := f\<rparr>) = peers_inv nk w"
  "peers_inv nk (w\<lparr>next_chan := g\<rparr>) = peers_inv nk w" "peers_inv nk (w\<lparr>proxies := h\<rparr>) = peers_inv nk w"
  "peers_inv nk (w\<lparr>next_proxy := i\<rparr>) = peers_inv nk w" "peers_inv nk (w\<lparr>conns := j\<rparr>) = peers_inv nk w"
  "peers_inv nk (w\<lparr>next_conn := k\<rparr>) = peers_inv nk w" "peers_inv nk (w\<lparr>stconf := l\<rparr>) = peers_inv nk w"
  by (simp_all add: peers_inv_def)

definition cp_ok :: "string \<Rightarrow> 'z cp_world_scheme \<Rightarrow> bool" where
  "cp_ok nk w \<longleftrightarrow> conn_ok w \<and> peers_inv nk w"

lemma keeps_conj: "keeps A m \<Longrightarrow> keeps B m \<Longrightarrow> keeps (\<lambda>w. A w \<and> B w) m"
  by (simp add: keeps_def)

lemma keeps_cp_ok: "keeps conn_ok m \<Longrightarrow> keeps (peers_inv nk) m \<Longrightarrow> keeps (cp_ok nk) m"
  by (simp add: keeps_def cp_ok_def)

lemma lock_free_peers [simp]: "lock_free mu (peers_inv nk)"
  by (simp add: lock_free_def)

lemma lock_free_cp_ok: "mu \<noteq> conn_mu \<Longrightarrow> lock_free mu (cp_ok nk)"
  by (auto simp: lock_free_def cp_ok_def conn_ok_def)

lemma keeps_cp_ok_perform [keeps_intros]: "keeps (cp_ok nk) (perform env c)"
  by (rule keeps_perform) (simp add: cp_ok_def)

lemma keeps_cp_ok_emit [keeps_intros]: "keeps (cp_ok nk) (emit c)"
  by (rule keeps_emit) (simp add: cp_ok_def)

lemma keeps_peers_Wait: "keeps (peers_inv nk) (WaitStartConnect :: ('z cp_world_scheme, unit) go)"
proof (rule keepsI)
  fix w :: "'z cp_world_scheme" assume w: "peers_inv nk w"
  have "keeps (peers_inv nk) (GetConnChan :: ('z cp_world_scheme, chan option) go)"
    unfolding GetConnChan_def by (intro keeps_intros keeps_with_lock keeps_modify lock_free_peers; simp)
  then have "keeps (peers_inv nk) (bind GetConnChan recv_closed :: ('z cp_world_scheme, unit) go)"
    by (intro keeps_intros)
  with w show "peers_inv nk (snd (WaitStartConnect w))"
    by (auto simp: WaitStartConnect_def dest: keepsD)
qed

lemma keeps_peers_close: "keeps (peers_inv nk) (close_chan c)"
  by (auto simp: keeps_def close_chan_def split: option.splits)

lemma keeps_peers_Connected: "keeps (peers_inv nk) (Connected :: ('z cp_world_scheme, unit) go)"
  unfolding Connected_def by (intro keeps_intros keeps_with_lock keeps_modify lock_free_peers keeps_peers_close; simp)

lemma keeps_peers_GetConnStatus: "keeps (peers_inv nk) (SC_GetConnStatus :: ('z cp_world_scheme, string) go)"
  unfolding SC_GetConnStatus_def GetConnStatus_def
  by (intro keeps_intros keeps_with_lock lock_free_peers keeps_peers_Connected)

lemma peers_inv_ice:
  assumes "peers_inv nk w" "same_peer f"
  shows "peers_inv nk (w\<lparr>ices := (ices w)(n := map_option f (ices w n))\<rparr>)"
proof -
  let ?is = "(ices w)(n := map_option f (ices w n))"
  have old: "\<exists>i0. ices w m = Some i0 \<and> i_nk i = i_nk i0" if "?is m = Some i" for m i
    using that assms(2) by (cases "m = n") (auto simp: same_peer_def)
  have kept: "\<exists>i0. ?is m = Some i0 \<and> i_remoteNodeKey i0 = i_remoteNodeKey i" if "ices w m = Some i" for m i
    using that assms(2) by (cases "m = n") (auto simp: same_peer_def)
  from assms(1) have inv: "distinct (map fst (peerConns w))"
    "\<And>k p. (k, p) \<in> set (peerConns w) \<Longrightarrow> \<exists>n i. p = Some n \<and> ices w n = Some i \<and> i_remoteNodeKey i = k"
    "\<And>n. n \<in> set (waitForRemoteConnCh w) \<Longrightarrow> \<exists>i. ices w n = Some i"
    "\<And>n i. ices w n = Some i \<Longrightarrow> i_nk i = nk \<and> n < next_ice w"
    by (auto simp: peers_inv_def)
  show ?thesis
    unfolding peers_inv_def
  proof (intro conjI allI impI ballI)
    fix k p assume "(k, p) \<in> set (peerConns (w\<lparr>ices := ?is\<rparr>))"
    then obtain m i where "p = Some m" "ices w m = Some i" "i_remoteNodeKey i = k" using inv(2) [of k p] by auto
    with kept [of m i] show "\<exists>n' i. p = Some n' \<and> ices (w\<lparr>ices := ?is\<rparr>) n' = Some i \<and> i_remoteNodeKey i = k"
      by (intro exI [of _ m]) auto
  next
    fix m assume "m \<in> set (waitForRemoteConnCh (w\<lparr>ices := ?is\<rparr>))"
    with inv(3) [of m] kept [of m] show "ices (w\<lparr>ices := ?is\<rparr>) m \<noteq> None" by auto
  next
    fix m i assume "ices (w\<lparr>ices := ?is\<rparr>) m = Some i"
    then obtain i0 where "ices w m = Some i0" "i_nk i = i_nk i0" using old [of m i] by auto
    with inv(4) [of m i0] show "i_nk i = nk" "m < next_ice (w\<lparr>ices := ?is\<rparr>)" by simp_all
  qed (use inv(1) in simp)
qed

lemma keeps_cp_Wait: "keeps (cp_ok nk) WaitStartConnect"
  by (intro keeps_cp_ok keeps_conn_ok_WaitStartConnect keeps_peers_Wait)

lemma keeps_cp_GetConnStatus: "keeps (cp_ok nk) SC_GetConnStatus"
proof (rule keeps_cp_ok [OF _ keeps_peers_GetConnStatus])
  show "keeps conn_ok (SC_GetConnStatus :: ('b signal_world_scheme, string) go)"
    unfolding SC_GetConnStatus_def by (intro keeps_intros)
qed

interpretation cp_signal: signal_client "NewSignalClient env sys" "cp_ok nk" State for env sys nk
proof
  fix w :: "'b cp_world_scheme" assume w: "cp_ok nk w"
  then have ok: "conn_ok w" by (simp add: cp_ok_def)
  show "\<exists>w'. sc_Connected (NewSignalClient env sys) w = (Ok (), w') \<and> cp_ok nk w' \<and> State w' = Connect"
    using w by (simp add: NewSignalClient_def SC_Connected_def Connected_ok conn_ok_connected ret_def cp_ok_def)
  show "\<exists>w'. sc_DisConnected (NewSignalClient env sys) w = (Ok (), w') \<and> cp_ok nk w' \<and> State w' = DisConnect"
    using w by (simp add: NewSignalClient_def SC_DisConnected_def DisConnected_run conn_ok_def ret_def cp_ok_def)
qed (simp_all add: NewSignalClient_def SC_Candidate_def SC_Offer_def SC_Answer_def SC_IsReady_def
      SC_GetStunTurnConfig_def perform_def Let_def keeps_intros keeps_cp_Wait keeps_cp_GetConnStatus)

interpretation cp_server: server_client "NewServerClient env sys" "cp_ok nk" for env sys nk
  by (rule server_client_calls) (rule keeps_intros)

interpretation cp_ice: ice_keeps env "cp_ok nk" "NewSignalClient env sys" State "NewServerClient env sys" for env sys nk
  by unfold_locales
     (simp_all add: keeps_intros spawn_def lock_free_cp_ok, simp_all add: cp_ok_def conn_ok_def conn_inv_def peers_inv_ice)

section \<open>The operations keep the invariant\<close>

lemma keeps_SC_Connect:
  fixes I :: "'z signal_world_scheme \<Rightarrow> bool"
  assumes "\<And>c. keeps I (perform env c)" "keeps I Connected" "\<And>m. keeps I (handler m)"
    "\<And>w h. I w \<Longrightarrow> I (w\<lparr>hist := h\<rparr>)"
  shows "keeps I (SC_Connect env sys nk handler)"
proof -
  have "keeps I (\<lambda>w. case recv_loop env handler w of None \<Rightarrow> (Stuck, w)
      | Some rw \<Rightarrow> deferred (perform env (SignalCall NegCloseSend)) rw)"
  proof (rule keepsI)
    fix w assume w: "I w"
    show "I (snd (case recv_loop env handler w of None \<Rightarrow> (Stuck, w)
      | Some rw \<Rightarrow> deferred (perform env (SignalCall NegCloseSend)) rw))"
    proof (cases "recv_loop env handler w")
      case (Some rw)
      obtain r w' where rw: "rw = (r, w')" by (cases rw)
      have w': "I w'" by (rule recv_loop_keeps [OF Some [unfolded rw] w assms(4) assms(3)])
      have "keeps I (ignore (perform env (SignalCall NegCloseSend)))" by (intro keeps_intros assms(1))
      from keepsD [OF this w'] w' Some rw show ?thesis by (cases r) (simp_all add: deferred_def)
    qed (use w in simp)
  qed
  then show ?thesis unfolding SC_Connect_def by (intro keeps_bind assms(1,2))
qed

lemma keeps_cp_Connected: "keeps (cp_ok nk) Connected"
  by (rule keeps_cp_ok [OF keeps_conn_ok_Connected keeps_peers_Connected])

lemma keeps_receiveSignalRequest: "keeps (cp_ok nk) (receiveSignalRequest env t node u p cand)"
  unfolding receiveSignalRequest_def SendRemoteAnswerCh_def SendRemoteOfferCh_def SendRemoteCandidate_def spawn_def
  by (cases t; cases node) (simp_all add: keeps_intros cp_ice.keeps_SendRemoteCh split: sum.splits)

lemma cp_mu_neq [simp]: "cp_mu \<noteq> conn_mu"
  by (simp add: cp_mu_def conn_mu_def)

lemma keeps_signal_handler: "keeps (cp_ok nk) (signal_handler env res)"
  unfolding signal_handler_def
  by (intro keeps_with_lock keeps_intros keeps_receiveSignalRequest lock_free_cp_ok) simp

lemma cp_ok_hist: "cp_ok nk w \<Longrightarrow> cp_ok nk (w\<lparr>hist := h\<rparr>)"
  by (simp add: cp_ok_def)

text \<open>The control plane of a node, on the two clients of the program; its channel is the one that
  ends the process.\<close>

definition cp_wired :: "'e sock_env_scheme \<Rightarrow> SysInfo \<Rightarrow> ('z cp_world_scheme) ControlPlane \<Rightarrow> bool" where
  "cp_wired env sys c \<longleftrightarrow> cp_signalClient c = NewSignalClient env sys \<and>
     cp_serverClient c = NewServerClient env sys \<and> (cp_ch c = None \<or> cp_ch c = Some RootChan)"

lemma keeps_close_root: "ch = None \<or> ch = Some RootChan \<Longrightarrow> keeps (cp_ok nk) (close_chan ch)"
  by (intro keeps_cp_ok keeps_peers_close)
     (auto simp: keeps_def close_chan_def conn_ok_def conn_inv_def split: if_splits)

lemma keeps_SignalLoop:
  assumes "cp_wired env sys c"
  shows "keeps (cp_ok nk) (SignalLoop_body env c)"
proof -
  have "keeps (cp_ok nk) (sc_Connect (cp_signalClient c) (cp_nk c) (signal_handler env))"
    using assms by (simp add: cp_wired_def NewSignalClient_def keeps_SC_Connect keeps_intros keeps_cp_Connected
        keeps_signal_handler cp_ok_hist)
  then show ?thesis
    unfolding SignalLoop_body_def
    using assms by (intro keeps_intros keeps_retry_max keeps_close_root cp_ok_hist) (simp_all add: cp_wired_def)
qed

text \<open>The keys a peer is made with, and the peer.\<close>

definition own_keys :: "'e env_scheme \<Rightarrow> SpecFields \<Rightarrow> err + key \<times> string" where
  "own_keys env spec = (case parse_key env (sp_WgPrivateKey spec) of
       Inl e \<Rightarrow> Inl e
     | Inr k \<Rightarrow> if sp_PreSharedKey spec = [] then Inr (k, [])
         else (case parse_key env (sp_PreSharedKey spec) of Inl e \<Rightarrow> Inl e | Inr pk \<Rightarrow> Inr (k, key_string env pk)))"

definition new_peer :: "'e env_scheme \<Rightarrow> ('z cp_world_scheme) ControlPlane \<Rightarrow> key \<times> string \<Rightarrow> string \<Rightarrow> string
    \<Rightarrow> StunTurnConfig option \<Rightarrow> Node \<Rightarrow> Ice" where
  "new_peer env c ks ip cidr st node =
     \<lparr>i_sigexec = None, i_conn = None, i_wireproxy = None, i_agent = False, i_udpMux = False,
      i_udpMuxSrflx = False, i_udpMuxConn = False, i_udpMuxConnSrflx = False, i_stunTurn = st,
      i_remoteWgPubKey = RemoteWgPubKey node, i_remoteIp = Join (node_AllowedIPs node) '','',
      i_remoteNodeKey = RemoteNodeKey node, i_wgPubKey = key_string env (public_key env (fst ks)),
      i_wgPrivKey = fst ks, i_wgIface = sp_TunName (conf_Spec (cp_conf c)), i_wgPort = nat WgPort,
      i_preSharedKey = snd ks, i_ip = ip, i_cidr = cidr, i_nk = cp_nk c,
      i_blackList = sp_BlackList (conf_Spec (cp_conf c)), i_waiting = False, i_inbox = None\<rparr>"

lemma add_remote_node_run:
  "add_remote_node env c ip cidr node w = (case own_keys env (SpecFields.truncate (conf_Spec (cp_conf c))) of
       Inl e \<Rightarrow> (Err e, w)
     | Inr ks \<Rightarrow> (Ok (), w\<lparr>ices := (ices w)(next_ice w \<mapsto> new_peer env c ks ip cidr (stconf w) node),
         next_ice := Suc (next_ice w),
         peerConns := AList.update (RemoteNodeKey node) (Some (next_ice w)) (peerConns w),
         waitForRemoteConnCh := waitForRemoteConnCh w @ [next_ice w]\<rparr>))"
  by (auto simp: add_remote_node_def newIce_def own_keys_def ParseKey_def NewIce_def new_peer_def Let_def
      SpecFields.defs bind_def gets_def modify_def ret_def throw_def split: sum.splits)

lemma keeps_add_remote_node:
  fixes c :: "('z cp_world_scheme) ControlPlane"
  assumes "cp_nk c = nk" shows "keeps (cp_ok nk) (add_remote_node env c ip cidr node)"
proof (rule keepsI)
  fix w :: "'z cp_world_scheme" assume w: "cp_ok nk w"
  show "cp_ok nk (snd (add_remote_node env c ip cidr node w))"
  proof (cases "own_keys env (SpecFields.truncate (conf_Spec (cp_conf c)))")
    case (Inr ks)
    from w have free: "ices w (next_ice w) = None"
      by (cases "ices w (next_ice w)") (auto simp: cp_ok_def peers_inv_def)
    have old: "(k, p) \<in> set (peerConns w) \<Longrightarrow> \<exists>n i. p = Some n \<and> n \<noteq> next_ice w \<and> ices w n = Some i \<and> i_remoteNodeKey i = k" for k p
      using w free by (fastforce simp: cp_ok_def peers_inv_def)
    have upd: "(k, p) \<in> set (AList.update k' q ps) \<Longrightarrow> distinct (map fst ps) \<Longrightarrow>
        k = k' \<and> p = q \<or> (k, p) \<in> set ps" for k p k' q and ps :: "(string \<times> nat option) list"
      by (metis distinct_update map_of_eq_Some_iff option.inject update_conv' fun_upd_apply)
    from w Inr assms upd free show ?thesis
      unfolding add_remote_node_run cp_ok_def
      by (auto simp: peers_inv_def conn_ok_def conn_inv_def distinct_update new_peer_def less_SucI dest!: upd)
        (drule old, blast)
  qed (use w in \<open>simp add: add_remote_node_run\<close>)
qed

lemma keeps_offer_operation:
  assumes "cp_wired env sys c" "cp_nk c = nk"
  shows "keeps (cp_ok nk) (offer_operation env c)"
  unfolding offer_operation_def
  by (intro keeps_intros keeps_add_remote_node assms(2))
     (use assms(1) cp_server.keeps_SyncRemoteNodesConfig in \<open>simp add: cp_wired_def\<close>)

lemma keeps_initialOffer:
  assumes "cp_wired env sys c" "cp_nk c = nk"
  shows "keeps (cp_ok nk) (initialOfferToRemotePeer env c)"
  unfolding initialOfferToRemotePeer_def
  by (intro keeps_intros keeps_retry_max keeps_offer_operation [OF assms] cp_ok_hist)

lemma keeps_ConnectSignalServer:
  assumes "cp_wired env sys c" "cp_nk c = nk"
  shows "keeps (cp_ok nk) (ConnectSignalServer env c)"
proof -
  have "keeps (cp_ok nk) (sc_WaitStartConnect (cp_signalClient c))"
    using assms(1) cp_signal.keeps_WaitStartConnect by (simp add: cp_wired_def)
  moreover have "keeps (cp_ok nk) (close_chan (cp_ch c))"
    using assms(1) keeps_close_root by (auto simp: cp_wired_def)
  ultimately show ?thesis
    unfolding ConnectSignalServer_def signal_server_rest_def spawn_def
    by (intro keeps_intros keeps_initialOffer [OF assms])
qed

lemma keeps_ConfigureStunTurn:
  assumes "cp_wired env sys c"
  shows "keeps (cp_ok nk) (ConfigureStunTurnConf env c)"
proof -
  have "keeps (cp_ok nk) (sc_GetStunTurnConfig (cp_signalClient c))"
    using assms cp_signal.keeps_GetStunTurnConfig by (simp add: cp_wired_def)
  moreover have "keeps (cp_ok nk) (parseStun env a b d)" "keeps (cp_ok nk) (parseTurn env a b d)" for a b d
    by (simp_all add: parseStun_def parseTurn_def keeps_intros split: sum.splits)
  ultimately show ?thesis
    unfolding ConfigureStunTurnConf_def by (intro keeps_intros keeps_modify) (simp_all add: cp_ok_def conn_ok_def conn_inv_def)
qed

lemma peers_inv_delete: "peers_inv nk w \<Longrightarrow> peers_inv nk (w\<lparr>peerConns := AList.delete p (peerConns w)\<rparr>)"
  by (auto simp: peers_inv_def AList.distinct_delete) (auto simp: AList.delete_eq)

lemma keeps_remove_peer:
  assumes "cp_wired env sys c"
  shows "keeps (cp_ok nk) (remove_peer env c p)"
proof -
  have "keeps (cp_ok nk) (Cleanup env (cp_signalClient c) n)" for n
    using assms cp_ice.keeps_Cleanup by (simp add: cp_wired_def)
  then show ?thesis
    unfolding remove_peer_def
    by (intro keeps_intros keeps_modify) (simp_all add: cp_ok_def conn_ok_def conn_inv_def peers_inv_delete)
qed

lemma keeps_syncRemotePeerConfig:
  assumes "cp_wired env sys c"
  shows "keeps (cp_ok nk) (syncRemotePeerConfig env c nodes)"
  unfolding syncRemotePeerConfig_def Let_def by (intro keeps_intros keeps_remove_peer [OF assms])

lemma keeps_sync_turn:
  assumes "cp_wired env sys c"
  shows "keeps (cp_ok nk) (sync_turn env c)"
  unfolding sync_turn_def
  by (intro keeps_intros keeps_syncRemotePeerConfig [OF assms])
     (use assms cp_server.keeps_SyncRemoteNodesConfig in \<open>simp add: cp_wired_def\<close>)

lemma keeps_WaitForRemoteConn:
  fixes c :: "('z cp_world_scheme) ControlPlane"
  assumes "cp_wired env sys c"
  shows "keeps (cp_ok nk) (WaitForRemoteConn_turn env c)"
proof (rule keepsI)
  fix w :: "'z cp_world_scheme" assume w: "cp_ok nk w"
  show "cp_ok nk (snd (WaitForRemoteConn_turn env c w))"
  proof (cases "waitForRemoteConnCh w")
    case Nil
    with w show ?thesis by (simp add: WaitForRemoteConn_turn_def gets_def bind_def stuck_def)
  next
    case (Cons n q)
    let ?w = "w\<lparr>waitForRemoteConnCh := q\<rparr>"
    let ?rest = "bind (sc_IsReady (cp_signalClient c)) (\<lambda>ready.
         bind (if ready then with_ice n (\<lambda>i. gets (isExistPeer (i_remoteNodeKey i))) else ret False) (\<lambda>go.
         if \<not> go then with_ice n (\<lambda>_. ret ())
         else bind (attempt (Ice_Setup env n)) (\<lambda>r. case r of
             Inl _ \<Rightarrow> ret ()
           | Inr _ \<Rightarrow> ignore (StartGatheringProcess env (cp_signalClient c) n))))"
    have "WaitForRemoteConn_turn env c w = ?rest ?w"
      using Cons by (simp add: WaitForRemoteConn_turn_def gets_def bind_def modify_def)
    moreover have "keeps (cp_ok nk) (sc_IsReady (cp_signalClient c))"
      "keeps (cp_ok nk) (StartGatheringProcess env (cp_signalClient c) n)"
      using assms cp_signal.keeps_IsReady cp_ice.keeps_StartGatheringProcess by (simp_all add: cp_wired_def)
    then have "keeps (cp_ok nk) ?rest"
      by (intro keeps_intros cp_ice.keeps_Ice_Setup)
    moreover have "cp_ok nk ?w" using w Cons by (auto simp: cp_ok_def conn_ok_def conn_inv_def peers_inv_def)
    ultimately show ?thesis by (simp add: keepsD)
  qed
qed

lemma keeps_cp_Close:
  assumes "cp_wired env sys c"
  shows "keeps (cp_ok nk) (cp_Close env c)"
  unfolding cp_Close_def
  by (intro keeps_intros) (use assms cp_ice.keeps_Cleanup in \<open>simp add: cp_wired_def\<close>)

section \<open>Properties\<close>

text \<open>
  C4. Every operation of the control plane, also one that fails or panics on the way, keeps its
  peers in order: each entry of the map is the peer of its key, exists and carries the node's
  key, no key occurs twice, and whatever is sent to the goroutine that sets peers up exists.
\<close>
theorem control_plane_keeps_peers:
  assumes "cp_wired env sys c"
  shows "keeps (cp_ok (cp_nk c)) (SignalLoop_body env c) \<and> keeps (cp_ok (cp_nk c)) (ConnectSignalServer env c) \<and>
    keeps (cp_ok (cp_nk c)) (ConfigureStunTurnConf env c) \<and> keeps (cp_ok (cp_nk c)) (sync_turn env c) \<and>
    keeps (cp_ok (cp_nk c)) (WaitForRemoteConn_turn env c) \<and> keeps (cp_ok (cp_nk c)) (cp_Close env c)"
  by (intro conjI keeps_SignalLoop [OF assms] keeps_ConnectSignalServer [OF assms] keeps_ConfigureStunTurn [OF assms]
      keeps_sync_turn [OF assms] keeps_WaitForRemoteConn [OF assms] keeps_cp_Close [OF assms] refl)

lemma withEmptyData_Panic: "oper w = (Panic s, w1) \<Longrightarrow> withEmptyData oper w = (Panic s, w1)"
  by (simp add: withEmptyData_def attempt_def bind_def)

lemma retry_max_Panic:
  assumes "oper (w\<lparr>hist := hist w @ [TimeCall TimeNow, TimeCall TimeNow]\<rparr>) = (Panic s, w1)"
  shows "retry_max env mx oper w = (Panic s, w1\<lparr>hist := hist w1 @ [TimeCall TimerStop]\<rparr>)"
  using withEmptyData_Panic [where oper = oper, OF assms]
  by (simp add: retry_max_def NewExponentialBackOff_def exp_reset_def clock_now_def Let_def Retry_def
      RetryNotify_def doRetryNotify_def package_policy_def WithMaxRetries_def retry_loop.simps)

lemma handler_unknown:
  assumes "map_of (peerConns w) (DstNodeKey m) = None" "MsgType m = OFFER \<or> MsgType m = ANSWER" "cp_mu \<notin> held w"
  shows "signal_handler env (Some m) w = (Panic ''nil pointer dereference'', w)"
  using assms by (auto simp: signal_handler_def with_lock_def bind_def gets_def receiveSignalRequest_def
      peer_of_def getter_def GetType_def panic_def)

text \<open>
  C30. An offer or an answer from a node that is not among the peers, as one that joined after the
  first synchronisation, brings the process down: the lookup gives a nil pointer, the send to
  its channel panics, and neither the receiving loop nor the retry recovers from that.
\<close>
theorem unknown_peer_signal_panics:
  fixes w :: "'z cp_world_scheme"
  assumes "cp_wired env sys c" "conn_ok w" "cp_mu \<notin> held w"
    "h = hist w @ [TimeCall TimeNow, TimeCall TimeNow,
       SignalCall (NegConnect [(NodeKey, cp_nk c), (HostName, Hostname sys), (OsKey, OS sys)])]"
    "err_of env h = None" "recv_of env (h @ [SignalCall NegRecv]) = (Some m, None)"
    "MsgType m = OFFER \<or> MsgType m = ANSWER" "map_of (peerConns w) (DstNodeKey m) = None"
  shows "\<exists>w'. SignalLoop_body env c w = (Panic ''nil pointer dereference'', w')"
proof -
  let ?oper = "SC_Connect env sys (cp_nk c) (signal_handler env) :: ('z cp_world_scheme, unit) go"
  let ?w0 = "w\<lparr>hist := hist w @ [TimeCall TimeNow, TimeCall TimeNow]\<rparr>"
  define w1 where "w1 = w\<lparr>hist := h, State := Connect, conn := None, closed := closed w \<union> set_option (conn w)\<rparr>"
  define w2 where "w2 = w1\<lparr>hist := h @ [SignalCall NegRecv]\<rparr>"
  have "signal_handler env (Some m) w2 = (Panic ''nil pointer dereference'', w2)"
    using assms(3,7,8) by (intro handler_unknown) (simp_all add: w2_def w1_def)
  then have loop: "recv_loop env (signal_handler env) w1 = Some (Panic ''nil pointer dereference'', w2)"
    using assms(6) by (subst recv_loop.simps) (simp add: Recv_def Let_def w2_def w1_def)
  have "conn_ok (w\<lparr>hist := h\<rparr>)" using assms(2) by simp
  from Connected_ok [OF this] have con: "Connected (w\<lparr>hist := h\<rparr>) = (Ok (), w1)" by (simp add: w1_def)
  have "?oper ?w0 = (case recv_loop env (signal_handler env) w1 of None \<Rightarrow> (Stuck, w1)
      | Some rw \<Rightarrow> deferred (perform env (SignalCall NegCloseSend)) rw)"
    using assms(4,5) con by (simp add: SC_Connect_def)
  then obtain w3 where "?oper ?w0 = (Panic ''nil pointer dereference'', w3)"
    by (simp add: loop deferred_def)
  from retry_max_Panic [where oper = ?oper and w = w and env = env and mx = 3, OF this] assms(1) show ?thesis
    by (simp add: SignalLoop_body_def cp_wired_def NewSignalClient_def attempt_def bind_def)
qed

definition same_map :: "(string \<times> nat option) list \<Rightarrow> 'z cp_world_scheme \<Rightarrow> bool" where
  "same_map ps w \<longleftrightarrow> peerConns w = ps"

lemma same_map_frame [simp]:
  "same_map ps (w\<lparr>hist := a\<rparr>) = same_map ps w" "same_map ps (w\<lparr>held := b\<rparr>) = same_map ps w"
  "same_map ps (w\<lparr>proxies := c\<rparr>) = same_map ps w" "same_map ps (w\<lparr>conns := d\<rparr>) = same_map ps w"
  "same_map ps (w\<lparr>State := e\<rparr>) = same_map ps w"
  by (simp_all add: same_map_def)

lemma keeps_same_map_perform [keeps_intros]: "keeps (same_map ps) (perform env x)"
  by (rule keeps_perform) simp

lemma lock_free_same_map [simp]: "lock_free mu (same_map ps)"
  by (simp add: lock_free_def)

interpretation cp_map: conn_keeps env "same_map ps" for env ps
  by unfold_locales (simp_all add: keeps_intros spawn_def keeps_emit)

lemma Cleanup_keeps_peers:
  fixes env :: "'e proxy_env_scheme"
  shows "keeps (same_map ps) (Cleanup env (NewSignalClient senv sys) n)"
proof -
  have "keeps (same_map ps) (sc_DisConnected (NewSignalClient senv sys))"
    by (simp add: NewSignalClient_def SC_DisConnected_def DisConnected_def keeps_intros keeps_with_lock keeps_modify)
  then show ?thesis
    unfolding Cleanup_def CloseIce_def closeIceAgent_def
    by (intro keeps_intros keeps_with_lock lock_free_same_map cp_map.keeps_Conn_Close)
qed

lemma remove_peer_map:
  fixes env :: "'e proxy_env_scheme" and w :: "'z cp_world_scheme"
  assumes "cp_signalClient c = NewSignalClient senv sys" "remove_peer env c p w = (Ok (), w')"
  shows "peerConns w' = AList.delete p (peerConns w)"
proof (cases "map_of (peerConns w) p")
  case None
  then have "AList.delete p (peerConns w) = peerConns w"
    by (force simp: AList.delete_eq filter_id_conv map_of_eq_None_iff)
  with None assms(2) show ?thesis by (simp add: remove_peer_def gets_def bind_def ret_def)
next
  case (Some ice)
  let ?w = "w\<lparr>peerConns := AList.delete p (peerConns w)\<rparr>"
  let ?m = "ignore (case ice of None \<Rightarrow> panic ''nil pointer dereference''
      | Some n \<Rightarrow> Cleanup env (cp_signalClient c) n)"
  have "keeps (same_map (peerConns ?w)) ?m"
    by (intro keeps_intros) (simp add: assms(1) Cleanup_keeps_peers)
  moreover have "?m ?w = (Ok (), w')"
    using Some assms(2) by (simp add: remove_peer_def gets_def bind_def modify_def)
  ultimately have "same_map (peerConns ?w) w'" by (rule keeps_run) (simp add: same_map_def)
  then show ?thesis by (simp add: same_map_def)
qed

lemma remove_all_map:
  fixes env :: "'e proxy_env_scheme" and w :: "'z cp_world_scheme"
  assumes "cp_signalClient c = NewSignalClient senv sys" "for_each (remove_peer env c) ks w = (Ok (), w')"
  shows "peerConns w' = filter (\<lambda>(k, _). k \<notin> set ks) (peerConns w)"
  using assms(2)
proof (induction ks arbitrary: w)
  case (Cons k ks)
  from Cons.prems obtain w1 where 1: "remove_peer env c k w = (Ok (), w1)" "for_each (remove_peer env c) ks w1 = (Ok (), w')"
    by (auto elim: bind_OkE)
  from Cons.IH [OF 1(2)] remove_peer_map [OF assms(1) 1(1)] show ?case
    by (auto simp: AList.delete_eq intro: filter_cong)
qed (simp add: ret_def)

text \<open>
  C1. When the synchronisation with the server returns, the peers left are exactly those the server
  still names, in the order they had: none that it names is dropped and none that it does not
  name stays. It never adds a peer. (The loop around it passes over an answer without a list of
  nodes, which is how an empty list arrives: see \<open>sync_turn\<close>.)
\<close>
theorem syncRemotePeerConfig_keeps_named:
  fixes env :: "'e proxy_env_scheme" and w :: "'z cp_world_scheme"
  assumes "cp_signalClient c = NewSignalClient senv sys" "syncRemotePeerConfig env c nodes w = (Ok (), w')"
  shows "peerConns w' = filter (\<lambda>(k, _). k \<in> RemoteNodeKey ` set nodes) (peerConns w)"
proof -
  define ks where "ks = filter (\<lambda>p. p \<notin> RemoteNodeKey ` set nodes) (map fst (peerConns w))"
  have "peerConns w' = filter (\<lambda>(k, _). k \<notin> set ks) (peerConns w)"
  proof (cases "ks = []")
    case True
    with assms(2) show ?thesis
      by (auto simp: syncRemotePeerConfig_def ks_def gets_def bind_def ret_def Let_def)
  next
    case False
    then have "for_each (remove_peer env c) ks w = (Ok (), w')"
      using assms(2) by (simp add: syncRemotePeerConfig_def ks_def gets_def bind_def Let_def)
    from remove_all_map [OF assms(1) this] show ?thesis .
  qed
  also have "\<dots> = filter (\<lambda>(k, _). k \<in> RemoteNodeKey ` set nodes) (peerConns w)"
    by (intro filter_cong refl) (auto simp: ks_def image_iff)
  finally show ?thesis .
qed

lemma add_all_run:
  fixes w :: "'z cp_world_scheme"
  assumes "own_keys env (SpecFields.truncate (conf_Spec (cp_conf c))) = Inr ks"
  shows "distinct (map RemoteNodeKey nodes) \<Longrightarrow> \<exists>w'. for_each (add_remote_node env c ip cidr) nodes w = (Ok (), w') \<and>
    waitForRemoteConnCh w' = waitForRemoteConnCh w @ [next_ice w ..< next_ice w + length nodes] \<and>
    (\<forall>j < length nodes. map_of (peerConns w') (RemoteNodeKey (nodes ! j)) = Some (Some (next_ice w + j)) \<and>
       ices w' (next_ice w + j) = Some (new_peer env c ks ip cidr (stconf w) (nodes ! j))) \<and>
    (\<forall>k. k \<notin> RemoteNodeKey ` set nodes \<longrightarrow> map_of (peerConns w') k = map_of (peerConns w) k) \<and>
    (\<forall>m < next_ice w. ices w' m = ices w m) \<and> hist w' = hist w \<and> held w' = held w"
proof (induction nodes arbitrary: w)
  case Nil
  then show ?case by (simp add: ret_def)
next
  case (Cons nd nodes)
  let ?w1 = "w\<lparr>ices := (ices w)(next_ice w \<mapsto> new_peer env c ks ip cidr (stconf w) nd),
         next_ice := Suc (next_ice w),
         peerConns := AList.update (RemoteNodeKey nd) (Some (next_ice w)) (peerConns w),
         waitForRemoteConnCh := waitForRemoteConnCh w @ [next_ice w]\<rparr>"
  have run: "add_remote_node env c ip cidr nd w = (Ok (), ?w1)" by (simp add: add_remote_node_run assms)
  from Cons.prems have d: "distinct (map RemoteNodeKey nodes)" "RemoteNodeKey nd \<notin> RemoteNodeKey ` set nodes" by auto
  from Cons.IH [OF d(1), of ?w1] obtain w' where
    w': "for_each (add_remote_node env c ip cidr) nodes ?w1 = (Ok (), w')"
    "waitForRemoteConnCh w' = waitForRemoteConnCh w @ next_ice w # [Suc (next_ice w) ..< Suc (next_ice w) + length nodes]"
    "\<forall>j < length nodes. map_of (peerConns w') (RemoteNodeKey (nodes ! j)) = Some (Some (Suc (next_ice w) + j)) \<and>
       ices w' (Suc (next_ice w) + j) = Some (new_peer env c ks ip cidr (stconf w) (nodes ! j))"
    "\<forall>k. k \<notin> RemoteNodeKey ` set nodes \<longrightarrow> map_of (peerConns w') k = map_of (peerConns ?w1) k"
    "\<forall>m < Suc (next_ice w). ices w' m = ices ?w1 m" "hist w' = hist w" "held w' = held w" by auto
  have "next_ice w # [Suc (next_ice w) ..< Suc (next_ice w) + length nodes] = [next_ice w ..< next_ice w + length (nd # nodes)]"
    using upt_conv_Cons [of "next_ice w" "next_ice w + length (nd # nodes)"] by (simp del: upt_Suc)
  moreover have "\<forall>j < length (nd # nodes). map_of (peerConns w') (RemoteNodeKey ((nd # nodes) ! j)) = Some (Some (next_ice w + j)) \<and>
       ices w' (next_ice w + j) = Some (new_peer env c ks ip cidr (stconf w) ((nd # nodes) ! j))"
  proof (intro allI impI)
    fix j assume "j < length (nd # nodes)"
    then show "map_of (peerConns w') (RemoteNodeKey ((nd # nodes) ! j)) = Some (Some (next_ice w + j)) \<and>
       ices w' (next_ice w + j) = Some (new_peer env c ks ip cidr (stconf w) ((nd # nodes) ! j))"
      using w'(3,4,5) d(2) by (cases j) (simp_all add: update_conv')
  qed
  moreover have "\<forall>k. k \<notin> RemoteNodeKey ` set (nd # nodes) \<longrightarrow> map_of (peerConns w') k = map_of (peerConns w) k"
    using w'(4) by (simp add: update_conv')
  moreover have "\<forall>m < next_ice w. ices w' m = ices w m" using w'(5) by simp
  moreover have "for_each (add_remote_node env c ip cidr) (nd # nodes) w = (Ok (), w')" using run w'(1) by simp
  ultimately show ?case using w'(2,6,7) by (intro exI [of _ w']) simp
qed

definition sync_call :: "'e env_scheme \<Rightarrow> ('z cp_world_scheme) ControlPlane \<Rightarrow> key \<Rightarrow> call" where
  "sync_call env c k = ServerCall (NodeSyncRemoteNodesConfig
     [(NodeKey, cp_nk c), (WgPubKey, key_string env (public_key env k))])"

lemma offer_operation_run:
  fixes w :: "'z cp_world_scheme"
  assumes "cp_wired env sys c" "own_keys env (SpecFields.truncate (conf_Spec (cp_conf c))) = Inr ks"
    "h = hist w @ [sync_call env c (fst ks)]" "err_of env h = None" "RemoteNodes (sync_of env h) = Some nodes"
  shows "offer_operation env c w =
    for_each (add_remote_node env c (sync_Ip (sync_of env h)) (sync_Cidr (sync_of env h))) nodes (w\<lparr>hist := h\<rparr>)"
proof -
  from assms(2) have "parse_key env (sp_WgPrivateKey (conf_Spec (cp_conf c))) = Inr (fst ks)"
    by (auto simp: own_keys_def SpecFields.defs split: sum.splits if_splits)
  with assms(1,3-5) show ?thesis
    by (simp add: offer_operation_def cp_wired_def NewServerClient_def SyncRemoteNodesConfig_def ParseKey_def
        query_def gets_def sync_call_def)
qed

text \<open>
  C10. The first synchronisation makes a peer for every node the server names: each is found under
  its node key, has the addresses the server gave joined with commas and the STUN
  configuration of the moment, and is sent to the goroutine that sets peers up, in the order
  of the answer. The peers of other keys stay.
\<close>
theorem offer_operation_adds:
  fixes w :: "'z cp_world_scheme"
  assumes "cp_wired env sys c" "own_keys env (SpecFields.truncate (conf_Spec (cp_conf c))) = Inr ks"
    "h = hist w @ [sync_call env c (fst ks)]" "err_of env h = None" "sync_of env h = res"
    "RemoteNodes res = Some nodes" "distinct (map RemoteNodeKey nodes)"
  shows "\<exists>w'. offer_operation env c w = (Ok (), w') \<and>
    waitForRemoteConnCh w' = waitForRemoteConnCh w @ [next_ice w ..< next_ice w + length nodes] \<and>
    (\<forall>j < length nodes. map_of (peerConns w') (RemoteNodeKey (nodes ! j)) = Some (Some (next_ice w + j)) \<and>
       ices w' (next_ice w + j) =
         Some (new_peer env c ks (sync_Ip res) (sync_Cidr res) (stconf w) (nodes ! j))) \<and>
    (\<forall>k. k \<notin> RemoteNodeKey ` set nodes \<longrightarrow> map_of (peerConns w') k = map_of (peerConns w) k)"
proof -
  have n: "RemoteNodes (sync_of env h) = Some nodes" using assms(5,6) by simp
  from add_all_run [where c = c and ip = "sync_Ip res" and cidr = "sync_Cidr res" and w = "w\<lparr>hist := h\<rparr>", OF assms(2,7)]
    offer_operation_run [OF assms(1-4) n] assms(5) show ?thesis by auto
qed

lemma ConfigureStunTurn_Err:
  fixes w0 w :: "'z cp_world_scheme"
  assumes "cp_wired env sys c" "ConfigureStunTurnConf env c w0 = (Err e, w)"
  shows "\<exists>h. w = w0\<lparr>hist := h\<rparr>"
  using assms
  by (cases "err_of env (hist w0 @ [SignalCall RtcGetStunTurnConfig])")
     (auto simp: cp_wired_def ConfigureStunTurnConf_def NewSignalClient_def SC_GetStunTurnConfig_def query_def gets_def
       parseStun_def parseTurn_def bind_def modify_def throw_def ret_def deref_def panic_def split: sum.splits option.splits)

lemma WaitForRemoteConn_no_stun:
  fixes w :: "'z cp_world_scheme"
  assumes "waitForRemoteConnCh w = n # q" "ices w n = Some i" "i_stunTurn i = None"
    "isExistPeer (i_remoteNodeKey i) w" "ice_mu n \<notin> held w" "cp_signalClient c = NewSignalClient senv sys"
    "conn_state_of senv (hist w @ [SignalCall ConnGetState]) = Ready"
  shows "\<exists>w'. WaitForRemoteConn_turn env c w = (Panic ''nil pointer dereference'', w')"
proof -
  let ?w = "w\<lparr>waitForRemoteConnCh := q, hist := hist w @ [SignalCall ConnGetState]\<rparr>"
  have "\<exists>w'. Ice_Setup env n ?w = (Panic ''nil pointer dereference'', w')"
    using assms(2,3,5)
    by (auto simp: Ice_Setup_def with_lock_def set_ice_def modify_def attempt_def bind_def perform_def Let_def
        GetStunTurnsURL_def panic_def split: option.splits)
  moreover have "isExistPeer (i_remoteNodeKey i) ?w" using assms(4) by (simp add: isExistPeer_def)
  ultimately show ?thesis using assms(1,2,6,7)
    by (auto simp: WaitForRemoteConn_turn_def NewSignalClient_def SC_IsReady_def ask_def gets_def modify_def
        attempt_def bind_def ret_def)
qed

text \<open>
  C31. A node whose STUN configuration could not be fetched, an error that is only logged, is
  brought down by its first peer: the server names a node, the peer made for it has no STUN
  configuration, and setting it up dereferences that nil pointer.
\<close>
theorem missing_stun_brings_down:
  fixes w0 w :: "'z cp_world_scheme"
  assumes "cp_wired env sys c" "ConfigureStunTurnConf env c w0 = (Err e, w)"
    "stconf w0 = None" "waitForRemoteConnCh w0 = []" "\<forall>n. ice_mu n \<notin> held w0"
    "own_keys env (SpecFields.truncate (conf_Spec (cp_conf c))) = Inr ks"
    "h = hist w @ [sync_call env c (fst ks)]" "err_of env h = None" "RemoteNodes (sync_of env h) = Some nodes"
    "nodes \<noteq> []" "distinct (map RemoteNodeKey nodes)" "conn_state_of env (h @ [SignalCall ConnGetState]) = Ready"
  shows "\<exists>w1 w2. offer_operation env c w = (Ok (), w1) \<and>
    WaitForRemoteConn_turn env c w1 = (Panic ''nil pointer dereference'', w2)"
proof -
  from ConfigureStunTurn_Err [OF assms(1,2)] assms(3-5) have
    w: "stconf w = None" "waitForRemoteConnCh w = []" "\<forall>n. ice_mu n \<notin> held w" by auto
  from add_all_run [where c = c and ip = "sync_Ip (sync_of env h)" and cidr = "sync_Cidr (sync_of env h)"
      and w = "w\<lparr>hist := h\<rparr>", OF assms(6,11)] offer_operation_run [OF assms(1,6-9)] w
  obtain w1 where w1: "offer_operation env c w = (Ok (), w1)"
    "waitForRemoteConnCh w1 = [next_ice w ..< next_ice w + length nodes]"
    "\<forall>j < length nodes. map_of (peerConns w1) (RemoteNodeKey (nodes ! j)) = Some (Some (next_ice w + j)) \<and>
       ices w1 (next_ice w + j) = Some (new_peer env c ks (sync_Ip (sync_of env h)) (sync_Cidr (sync_of env h)) None (nodes ! j))"
    "hist w1 = h" "held w1 = held w" by auto
  from assms(10) have l: "0 < length nodes" by simp
  then have q: "waitForRemoteConnCh w1 = next_ice w # [Suc (next_ice w) ..< next_ice w + length nodes]"
    using w1(2) by (simp add: upt_conv_Cons)
  have i: "ices w1 (next_ice w) =
      Some (new_peer env c ks (sync_Ip (sync_of env h)) (sync_Cidr (sync_of env h)) None (nodes ! 0))"
    "map_of (peerConns w1) (RemoteNodeKey (nodes ! 0)) \<noteq> None"
    using w1(3) l by (metis add.right_neutral, metis option.distinct(1))
  have "\<exists>w'. WaitForRemoteConn_turn env c w1 = (Panic ''nil pointer dereference'', w')"
    by (rule WaitForRemoteConn_no_stun [OF q i(1), of c env sys])
       (use i(2) assms(1,12) w(3) w1(4,5) in \<open>simp_all add: new_peer_def isExistPeer_def cp_wired_def\<close>)
  with w1(1) show ?thesis by blast
qed

lemma SignalLoop_closes:
  fixes w w1 :: "'z cp_world_scheme"
  assumes "cp_wired env sys c" "SignalLoop_body env c w = (Ok (), w1)"
  shows "\<exists>ch. cp_ch c = Some ch \<and> ch \<in> closed w1"
proof -
  let ?oper = "SC_Connect env sys (cp_nk c) (signal_handler env) :: ('z cp_world_scheme, unit) go"
  obtain r w2 where r: "retry_max env 3 ?oper w = (r, w2)" by (metis surj_pair)
  have run: "SignalLoop_body env c w = bind (attempt (retry_max env 3 ?oper)) (\<lambda>r. case r of
       Inl _ \<Rightarrow> close_chan (cp_ch c) | Inr _ \<Rightarrow> ret ()) w"
    using assms(1) by (simp add: SignalLoop_body_def cp_wired_def NewSignalClient_def)
  have "r \<noteq> Ok ()"
  proof
    assume "r = Ok ()"
    with retry_max_last [where I = "\<lambda>_. True" and oper = ?oper, OF r] obtain v v' where "?oper v = (Ok (), v')"
      by (auto simp: keeps_def)
    with SC_Connect_not_Ok [of env sys "cp_nk c" "signal_handler env" v] show False by simp
  qed
  with assms(2) run r show ?thesis
    by (cases r) (auto simp: attempt_def bind_def close_chan_def split: option.splits if_splits)
qed

lemma keeps_closed_offer:
  assumes "cp_wired env sys c"
  shows "keeps (\<lambda>w :: 'z cp_world_scheme. ch \<in> closed w) (initialOfferToRemotePeer env c)"
proof -
  let ?I = "\<lambda>w :: 'z cp_world_scheme. ch \<in> closed w"
  have "keeps ?I (sv_SyncRemoteNodesConfig (cp_serverClient c) nk k)" for nk k
    using assms by (simp add: cp_wired_def NewServerClient_def SyncRemoteNodesConfig_def keeps_intros keeps_perform)
  moreover have "keeps ?I (add_remote_node env c ip cidr node)" for ip cidr node
    by (rule keepsI) (simp add: add_remote_node_run split: sum.splits)
  ultimately have "keeps ?I (offer_operation env c)"
    unfolding offer_operation_def by (intro keeps_intros)
  then show ?thesis unfolding initialOfferToRemotePeer_def
    by (intro keeps_intros keeps_retry_max) simp_all
qed

text \<open>
  C32. The channel that ends the process is closed twice when both halves of the connection fail:
  the goroutine that receives signals returns only by closing it, and when the first offers
  fail too the other half closes it again, which panics instead of ending the node in order.
\<close>
theorem both_halves_close:
  fixes w w1 w2 w3 :: "'z cp_world_scheme"
  assumes "cp_wired env sys c" "SignalLoop_body env c w = (Ok (), w1)"
    "WaitStartConnect w1 = (Ok (), w2)" "closed w1 \<subseteq> closed w2"
    "initialOfferToRemotePeer env c w2 = (Err e, w3)"
  shows "signal_server_rest env c w1 = (Panic ''close of closed channel'', w3)"
proof -
  obtain ch where ch: "cp_ch c = Some ch" "ch \<in> closed w1" using SignalLoop_closes [OF assms(1,2)] by blast
  with assms(4) have "ch \<in> closed w2" by blast
  then have "ch \<in> closed w3" by (rule keeps_run [OF keeps_closed_offer [OF assms(1)] assms(5)])
  with ch(1) assms(1,3,5) show ?thesis
    by (simp add: signal_server_rest_def cp_wired_def NewSignalClient_def attempt_def bind_def close_chan_def)
qed

section \<open>Witnesses\<close>

text \<open>
  A node with one peer \<open>rn\<close>, number 0, that has not been set up yet. The server names the nodes
  \<open>a\<close> and \<open>b\<close>, the stream brings an offer of the stranger \<open>x\<close>; the calls fail that \<open>bad\<close> holds
  of. The clock stands still.
\<close>

definition cp_world0 :: cp_world where
  "cp_world0 = ice_world.extend ice_world0
     \<lparr>peerConns = [(''rn'', Some 0)], stconf = None, waitForRemoteConnCh = []\<rparr>"

definition cp_node :: "string \<Rightarrow> Node" where
  "cp_node k = \<lparr>RemoteNodeKey = k, RemoteWgPubKey = ''pub'', node_AllowedIPs = [''10.0.0.2/32'']\<rparr>"

definition cp_env :: "(call \<Rightarrow> bool) \<Rightarrow> sock_env" where
  "cp_env bad = (sock_env1 \<lparr>MessageType = 0, dial_status = None\<rparr>)
     \<lparr>err_of := \<lambda>h. if bad (last h) then Some (ErrExt 14) else None, int_of := \<lambda>h. 0,
      sync_of := \<lambda>h. \<lparr>RemoteNodes = Some [cp_node ''a'', cp_node ''b''], sync_Ip = ''10.0.0.1'', sync_Cidr = ''24''\<rparr>,
      recv_of := \<lambda>h. (Some \<lparr>DstNodeKey = ''x'', MsgType = OFFER, UFlag = ''u'', Pwd = ''p'', Candidate = []\<rparr>, None)\<rparr>"

definition cp1 :: "(call \<Rightarrow> bool) \<Rightarrow> ('z cp_world_scheme) ControlPlane" where
  "cp1 bad = \<lparr>cp_signalClient = NewSignalClient (cp_env bad) sys1, cp_serverClient = NewServerClient (cp_env bad) sys1,
     cp_nk = ''me'', cp_conf = \<lparr>conf_SignalClient = NewSignalClient (cp_env bad) sys1,
       conf_ServerClient = NewServerClient (cp_env bad) sys1, conf_Spec = NewSpec ''p'' ''https://s'' 443 ''https://g'' 443 False,
       NodePubKey = ''me''\<rparr>, cp_ch = Some RootChan\<rparr>"

lemma cp_env_simps [simp]:
  "err_of (cp_env bad) h = (if bad (last h) then Some (ErrExt 14) else None)"
  "RemoteNodes (sync_of (cp_env bad) h) = Some [cp_node ''a'', cp_node ''b'']"
  "recv_of (cp_env bad) h = (Some \<lparr>DstNodeKey = ''x'', MsgType = OFFER, UFlag = ''u'', Pwd = ''p'', Candidate = []\<rparr>, None)"
  "conn_state_of (cp_env bad) h = Ready" "int_of (cp_env bad) h = 0" "rat_of (cp_env bad) h = 1 / 3"
  "parse_key (cp_env bad) s = Inr (replicate 32 (of_nat (length s)))"
  by (simp_all add: cp_env_def sock_env1_def ice_env1_def ice_env.defs proxy_env.defs proxy_env1_def signal_env1_def
      signal_env.defs server_env1_def server_env.defs env1_def env.defs env0_def)

lemma cp1_simps [simp]:
  "cp_wired (cp_env bad) sys1 (cp1 bad)" "cp_signalClient (cp1 bad) = NewSignalClient (cp_env bad) sys1"
  "cp_nk (cp1 bad) = ''me''" "cp_ch (cp1 bad) = Some RootChan"
  "own_keys (cp_env bad') (SpecFields.truncate (conf_Spec (cp_conf (cp1 bad)))) = Inr (replicate 32 0, [])"
  by (simp_all add: cp_wired_def cp1_def own_keys_def NewSpec_def zero_SpecFields_def SpecFields.defs)

lemma cp_world0_simps [simp]:
  "hist cp_world0 = []" "held cp_world0 = {}" "peerConns cp_world0 = [(''rn'', Some 0)]" "stconf cp_world0 = None"
  "waitForRemoteConnCh cp_world0 = []" "next_ice cp_world0 = 1" "ices cp_world0 = ices ice_world0"
  "closed cp_world0 = {}" "next_chan cp_world0 = 0" "conn cp_world0 = None" "State cp_world0 = DisConnect"
  using ice_world0_simps
  by (simp_all add: cp_world0_def ice_world.defs) 
    (simp_all add: ice_world0_def NewIce_def Let_def conn_world.defs conn_world1_def proxy_world.defs
      proxy_world0_def signal_world.defs conn_world0_def NewConnectedState_def)

lemma cp_ok_world0 [simp]: "cp_ok ''me'' cp_world0" "conn_ok cp_world0"
  by (auto simp: cp_ok_def conn_ok_def conn_inv_def peers_inv_def)

text \<open>A stranger's offer; a first synchronisation; one that drops the peer the server does not name.\<close>

theorem control_plane_keeps_peers_witness:
  "cp_ok ''me'' (snd (sync_turn (cp_env (\<lambda>c. False)) (cp1 (\<lambda>c. False)) cp_world0))"
  using control_plane_keeps_peers [OF cp1_simps(1) [of "\<lambda>c. False"]] by (auto intro: keepsD)

theorem unknown_peer_signal_panics_witness:
  "\<exists>w'. SignalLoop_body (cp_env (\<lambda>c. False)) (cp1 (\<lambda>c. False)) cp_world0 = (Panic ''nil pointer dereference'', w')"
  by (rule unknown_peer_signal_panics [OF cp1_simps(1) _ _ refl _ cp_env_simps(3)]) simp_all

theorem syncRemotePeerConfig_keeps_named_witness:
  "\<exists>w'. syncRemotePeerConfig (cp_env (\<lambda>c. False)) (cp1 (\<lambda>c. False)) [cp_node ''rn'', cp_node ''a''] cp_world0 = (Ok (), w') \<and>
     peerConns w' = [(''rn'', Some 0)]"
proof -
  have "syncRemotePeerConfig (cp_env (\<lambda>c. False)) (cp1 (\<lambda>c. False)) [cp_node ''rn'', cp_node ''a''] cp_world0 = (Ok (), cp_world0)"
    by (simp add: syncRemotePeerConfig_def bind_def gets_def ret_def cp_node_def)
  from syncRemotePeerConfig_keeps_named [OF cp1_simps(2) this] this show ?thesis by (simp add: cp_node_def)
qed

theorem offer_operation_adds_witness:
  "\<exists>w'. offer_operation (cp_env (\<lambda>c. False)) (cp1 (\<lambda>c. False)) cp_world0 = (Ok (), w') \<and> waitForRemoteConnCh w' = [1, 2]"
  using offer_operation_adds [OF cp1_simps(1) [of "\<lambda>c. False"] cp1_simps(5) refl _ refl cp_env_simps(2),
      where w = cp_world0]
  by (auto simp: cp_node_def upt_rec)

definition no_stun :: "call \<Rightarrow> bool" where "no_stun c = (c = SignalCall RtcGetStunTurnConfig)"

theorem missing_stun_brings_down_witness:
  "\<exists>w1 w2. offer_operation (cp_env no_stun) (cp1 no_stun) (snd (ConfigureStunTurnConf (cp_env no_stun) (cp1 no_stun) cp_world0)) = (Ok (), w1) \<and>
     WaitForRemoteConn_turn (cp_env no_stun) (cp1 no_stun) w1 = (Panic ''nil pointer dereference'', w2)"
proof -
  have "ConfigureStunTurnConf (cp_env no_stun) (cp1 no_stun) cp_world0 =
      (Err (ErrExt 14), cp_world0\<lparr>hist := [SignalCall RtcGetStunTurnConfig]\<rparr>)"
    by (simp add: ConfigureStunTurnConf_def NewSignalClient_def SC_GetStunTurnConfig_def query_def bind_def no_stun_def)
  from missing_stun_brings_down [OF cp1_simps(1) this _ _ _ cp1_simps(5) refl _ cp_env_simps(2)] this
  show ?thesis by (simp add: cp_node_def sync_call_def no_stun_def)
qed

theorem both_halves_close_witness:
  "\<exists>w1 w3. SignalLoop_body (cp_env (\<lambda>c. True)) (cp1 (\<lambda>c. True)) (cp_world0\<lparr>State := Connect\<rparr>) = (Ok (), w1) \<and>
     signal_server_rest (cp_env (\<lambda>c. True)) (cp1 (\<lambda>c. True)) w1 = (Panic ''close of closed channel'', w3)"
proof -
  let ?env = "cp_env (\<lambda>c. True)" and ?c = "cp1 (\<lambda>c. True) :: cp_world ControlPlane"
  let ?e = "ErrExt 14"
  let ?w = "cp_world0\<lparr>State := Connect\<rparr>"
  let ?op = "SC_Connect ?env sys1 ''me'' (signal_handler ?env) :: (cp_world, unit) go"
  have calm: "calm ?env 0" by (simp add: calm_def durations)
  have fail: "?op u = (Err ?e, u\<lparr>hist := hist u @ [SignalCall (NegConnect [(NodeKey, ''me''), (HostName, Hostname sys1), (OsKey, OS sys1)])]\<rparr>)" for u
    by (simp add: SC_Connect_def)
  define I where "I = (\<lambda>u :: cp_world. State u = Connect \<and> closed u = {})"
  have "\<forall>u. \<exists>u'. ?op u = (Err ?e, u')" using fail by blast
  then obtain w0 where w0: "retry_max ?env 3 ?op ?w = (Err ?e, w0)"
    using retry_max_failing [OF calm, of ?op ?e 3 ?w] by auto
  have "keeps I ?op" by (rule keepsI) (simp add: fail I_def)
  then have "keeps I (retry_max ?env 3 ?op)" by (rule keeps_retry_max) (simp add: I_def)
  from keeps_run [OF this w0] have I: "I w0" by (simp add: I_def)
  define w1 where "w1 = w0\<lparr>closed := {RootChan}\<rparr>"
  have 1: "SignalLoop_body ?env ?c ?w = (Ok (), w1)"
    using w0 I by (simp add: SignalLoop_body_def NewSignalClient_def attempt_def bind_def close_chan_def w1_def I_def)
  have 2: "WaitStartConnect w1 = (Ok (), w1)"
    using I by (simp add: WaitStartConnect_def IsConnected_def w1_def I_def)
  have "\<exists>u'. offer_operation ?env ?c u = (Err ?e, u')" for u
    by (simp add: offer_operation_def cp1_def NewServerClient_def SyncRemoteNodesConfig_def ParseKey_def query_def bind_def)
  then obtain w3 where "initialOfferToRemotePeer ?env ?c w1 = (Err ?e, w3)"
    using retry_max_failing [OF calm, of "offer_operation ?env ?c" ?e 3 w1] by (auto simp: initialOfferToRemotePeer_def bind_def)
  from both_halves_close [OF cp1_simps(1) 1 2 _ this] 1 show ?thesis by blast
qed

end
