(* ===== verification/Rcn.thy ===== *)
theory Rcn
  imports Control_Plane
begin

text \<open>
  \<open>rcn/rcn.go\<close>: the parts of a node put together. An \<open>Rcn\<close> is a value; the one field that
  changes, \<open>iface\<close>, is set by \<open>Setup\<close>, which returns the object with the error. The goroutines
  that \<open>Start\<close> starts are functions of \<open>Control_Plane\<close>; the memory monitor is only started.
\<close>

section \<open>Rcn\<close>

record 'w Rcn =
  r_cp :: "'w ControlPlane"
  r_serverClient :: "'w ServerClientImpl"
  r_conf :: "'w Conf"
  r_iface :: "Iface option"
  r_nk :: string
  r_debug :: bool

definition NewRcn :: "('z cp_world_scheme) Conf \<Rightarrow> string \<Rightarrow> chan option \<Rightarrow> bool
    \<Rightarrow> ('z cp_world_scheme, ('z cp_world_scheme) Rcn) go" where
  "NewRcn conf nk ch debug =
     bind (NewControlPlane (conf_SignalClient conf) (conf_ServerClient conf) nk conf ch) (\<lambda>cp.
     ret \<lparr>r_cp = cp, r_serverClient = conf_ServerClient conf, r_conf = conf, r_iface = None, r_nk = nk, r_debug = debug\<rparr>)"

definition createIface :: "'e env_scheme \<Rightarrow> ('z world_scheme) Rcn \<Rightarrow> string \<Rightarrow> string
    \<Rightarrow> ('z world_scheme, err option \<times> ('z world_scheme) Rcn) go" where
  "createIface env r ip cidr = (let spec = conf_Spec (r_conf r);
       i = NewIface (sp_TunName spec) (sp_WgPrivateKey spec) ip cidr;
       r = r\<lparr>r_iface := Some i\<rparr> in
     bind (attempt (CreateIface env i)) (\<lambda>e.
     ret (case e of Inl e \<Rightarrow> Some e | Inr _ \<Rightarrow> None, r)))"

definition Setup :: "'e env_scheme \<Rightarrow> ('z world_scheme) Rcn \<Rightarrow> string \<Rightarrow> string
    \<Rightarrow> ('z world_scheme, err option \<times> ('z world_scheme) Rcn) go" where
  "Setup env r ip cidr = bind (createIface env r ip cidr) (\<lambda>(err, r).
     ret (case err of Some e \<Rightarrow> Some e | None \<Rightarrow> None, r))"

text \<open>
  The memory monitor: \<open>http.ListenAndServe\<close> only returns with an error, and the loop behind it reads
  the statistics of the runtime every ten seconds. They are an answer of the outside.
\<close>

record MemStats =
  rtm_Alloc :: "64 word"
  rtm_TotalAlloc :: "64 word"
  rtm_Sys :: "64 word"
  rtm_Mallocs :: "64 word"
  rtm_Frees :: "64 word"
  rtm_PauseTotalNs :: "64 word"
  rtm_NumGC :: "32 word"

record monitor = MemStats +
  LiveObjects :: "64 word"
  m_NumGoroutine :: int

definition ListenAndServe :: "'e env_scheme \<Rightarrow> string \<Rightarrow> ('z world_scheme, unit) go" where
  "ListenAndServe env addr = bind (perform env (SysCall (ListenHTTP addr))) (\<lambda>_. stuck)"

definition monitor_turn :: "'e env_scheme \<Rightarrow> (call list \<Rightarrow> MemStats) \<Rightarrow> ('z world_scheme, monitor) go" where
  "monitor_turn env stats =
     bind (emit (TimeCall (TimerStart 10000000000))) (\<lambda>_.
     bind (emit (SysCall ReadMemStats)) (\<lambda>_.
     bind (gets (\<lambda>w. stats (hist w))) (\<lambda>rtm.
     bind (ask (int_of env) (SysCall NumGoroutine)) (\<lambda>n.
     ret (MemStats.extend rtm \<lparr>LiveObjects = rtm_Mallocs rtm - rtm_Frees rtm, m_NumGoroutine = n\<rparr>)))))"

fun monitor_loop :: "nat \<Rightarrow> 'e env_scheme \<Rightarrow> (call list \<Rightarrow> MemStats) \<Rightarrow> ('z world_scheme, unit) go" where
  "monitor_loop 0 env stats = stuck"
| "monitor_loop (Suc n) env stats = bind (monitor_turn env stats) (\<lambda>_. monitor_loop n env stats)"

definition MonitorTask_body :: "nat \<Rightarrow> 'e env_scheme \<Rightarrow> (call list \<Rightarrow> MemStats) \<Rightarrow> ('z world_scheme, unit) go" where
  "MonitorTask_body n env stats =
     bind (ignore (ListenAndServe env ''localhost:6060'')) (\<lambda>_. monitor_loop n env stats)"

definition systemMonitor :: "('z world_scheme) Rcn \<Rightarrow> ('z world_scheme, unit) go" where
  "systemMonitor r = (if r_debug r then spawn MonitorTask else ret ())"

text \<open>The arguments of the third goroutine are read when it is started.\<close>

definition Rcn_Start :: "'e ice_env_scheme \<Rightarrow> ('z cp_world_scheme) Rcn \<Rightarrow> ('z cp_world_scheme, unit) go" where
  "Rcn_Start env r =
     bind (ignore (ConfigureStunTurnConf env (r_cp r))) (\<lambda>_.
     bind (spawn WaitForRemoteConnTask) (\<lambda>_.
     bind (spawn ConnectSignalTask) (\<lambda>_.
     bind (deref (r_iface r)) (\<lambda>i.
     bind (spawn (ConnectSockTask (IP i) (CIDR i))) (\<lambda>_.
     systemMonitor r)))))"

definition Rcn_Stop :: "'e env_scheme \<Rightarrow> ('z cp_world_scheme) Rcn \<Rightarrow> ('z cp_world_scheme, unit) go" where
  "Rcn_Stop env r =
     bind (cp_Close env (r_cp r)) (\<lambda>_.
     bind (deref (r_iface r)) (\<lambda>i.
     RemoveIface env (Tun i)))"

section \<open>Lemmas\<close>

lemma NewRcn_run:
  "NewRcn conf nk ch debug w = (Ok \<lparr>r_cp = \<lparr>cp_signalClient = conf_SignalClient conf, cp_serverClient = conf_ServerClient conf,
       cp_nk = nk, cp_conf = conf, cp_ch = ch\<rparr>, r_serverClient = conf_ServerClient conf, r_conf = conf, r_iface = None,
       r_nk = nk, r_debug = debug\<rparr>, w\<lparr>peerConns := [], stconf := None, waitForRemoteConnCh := []\<rparr>)"
  by (simp add: NewRcn_def NewControlPlane_def modify_def bind_def ret_def)

lemma Setup_keeps: "Setup env r ip cidr w = (Ok (e, r'), w') \<Longrightarrow>
    r' = r\<lparr>r_iface := Some \<lparr>Tun = sp_TunName (conf_Spec (r_conf r)), WgPrivateKey = sp_WgPrivateKey (conf_Spec (r_conf r)),
       IP = ip, CIDR = cidr\<rparr>\<rparr>"
  by (auto simp: Setup_def createIface_def NewIface_def Let_def ret_def elim!: bind_OkE)

lemma keeps_Rcn_Start:
  assumes "cp_wired env sys (r_cp r)"
  shows "keeps (cp_ok nk) (Rcn_Start env r)"
  unfolding Rcn_Start_def systemMonitor_def spawn_def
  by (intro keeps_intros keeps_ConfigureStunTurn [OF assms])

lemma ListenAndServe_run:
  "ListenAndServe env a w = (case err_of env (hist w @ [SysCall (ListenHTTP a)]) of None \<Rightarrow> Stuck | Some e \<Rightarrow> Err e,
     w\<lparr>hist := hist w @ [SysCall (ListenHTTP a)]\<rparr>)"
  by (simp add: ListenAndServe_def bind_def perform_def stuck_def Let_def split: option.split)

lemma keeps_monitor_loop: "keeps (\<lambda>w. c \<in> set (hist w)) (monitor_loop n env stats)"
proof (induction n)
  case (Suc n)
  have "keeps (\<lambda>w. c \<in> set (hist w)) (monitor_turn env stats)"
    unfolding monitor_turn_def ask_def by (intro keeps_intros keeps_emit keeps_perform) simp_all
  with Suc show ?case unfolding monitor_loop.simps by (intro keeps_bind)
qed (simp add: keeps_stuck)

section \<open>Properties\<close>

text \<open>
  The memory monitor reports exactly when it cannot do its other work: while the server on port 6060
  runs no statistics are read, and when the port is taken they are read every ten seconds.
\<close>
theorem monitor_needs_broken_server:
  assumes "0 < n" "SysCall ReadMemStats \<notin> set (hist w)"
  shows "SysCall ReadMemStats \<in> set (hist (snd (MonitorTask_body n env stats w))) \<longleftrightarrow>
     err_of env (hist w @ [SysCall (ListenHTTP ''localhost:6060'')]) \<noteq> None"
proof (cases "err_of env (hist w @ [SysCall (ListenHTTP ''localhost:6060'')])")
  case None
  then show ?thesis using assms(2) by (simp add: MonitorTask_body_def ListenAndServe_run ignore_def attempt_def bind_def)
next
  case (Some e)
  let ?v = "w\<lparr>hist := hist w @ [SysCall (ListenHTTP ''localhost:6060'')]\<rparr>"
  obtain k where n: "n = Suc k" using assms(1) by (cases n) auto
  obtain m u where t: "monitor_turn env stats ?v = (Ok m, u)" "SysCall ReadMemStats \<in> set (hist u)"
    by (auto simp: monitor_turn_def emit_def ask_def gets_def bind_def ret_def Let_def)
  have "MonitorTask_body n env stats w = monitor_loop k env stats u"
    using Some t(1) by (simp add: MonitorTask_body_def ListenAndServe_run ignore_def attempt_def bind_def ret_def n)
  with keepsD [OF keeps_monitor_loop t(2)] Some show ?thesis by simp
qed

theorem monitor_needs_broken_server_witness:
  "SysCall ReadMemStats \<in> set (hist (snd (MonitorTask_body 1 (env0\<lparr>err_of := \<lambda>h. Some (ErrExt 98)\<rparr>)
      (\<lambda>h. \<lparr>rtm_Alloc = 1, rtm_TotalAlloc = 1, rtm_Sys = 1, rtm_Mallocs = 1, rtm_Frees = 2, rtm_PauseTotalNs = 0, rtm_NumGC = 0\<rparr>)
      world0)))"
  using monitor_needs_broken_server [of 1 world0 "env0\<lparr>err_of := \<lambda>h. Some (ErrExt 98)\<rparr>"
      "\<lambda>h. \<lparr>rtm_Alloc = 1, rtm_TotalAlloc = 1, rtm_Sys = 1, rtm_Mallocs = 1, rtm_Frees = 2, rtm_PauseTotalNs = 0, rtm_NumGC = 0\<rparr>"]
  by (simp add: world0_def)

lemma Stop_without_iface:
  assumes "r_iface r = None" "cp_Close env (r_cp r) w = (Ok (), w')"
  shows "Rcn_Stop env r w = (Panic ''nil pointer dereference'', w')"
  using assms by (simp add: Rcn_Stop_def deref_def panic_def)

text \<open>
  A node that is stopped without having been set up panics: closing its control plane, which
  has no peers, succeeds, and the interface to remove is a nil pointer.
\<close>
theorem Stop_before_Setup_panics:
  "NewRcn conf nk ch debug w = (Ok r, w1) \<Longrightarrow> Rcn_Stop env r w1 = (Panic ''nil pointer dereference'', w1)"
  by (rule Stop_without_iface) (auto simp: NewRcn_run cp_Close_def gets_def bind_def ret_def)

text \<open>
  C23. Starting a node that has been set up starts its goroutines in this order and returns, also
  when the STUN configuration cannot be fetched: the error only leaves it unset.
\<close>
theorem Start_starts_all:
  fixes w1 :: "'z cp_world_scheme"
  assumes "cp_wired env sys (r_cp r)" "Setup env r ip cidr w = (Ok (None, r'), w1)"
    "ConfigureStunTurnConf env (r_cp r) w1 = (c, w2)" "\<forall>s. c \<noteq> Panic s"
  shows "\<exists>w'. Rcn_Start env r' w1 = (Ok (), w') \<and>
    hist w' = hist w2 @ [Go WaitForRemoteConnTask, Go ConnectSignalTask, Go (ConnectSockTask ip cidr)]
      @ (if r_debug r then [Go MonitorTask] else []) \<and>
    (case c of Err e \<Rightarrow> stconf w' = stconf w1 | _ \<Rightarrow> True)"
proof -
  note r' = Setup_keeps [OF assms(2)]
  have c: "c \<noteq> Stuck"
  proof
    assume "c = Stuck"
    with assms(1,3) show False
      by (auto simp: cp_wired_def ConfigureStunTurnConf_def NewSignalClient_def SC_GetStunTurnConfig_def query_def gets_def
        perform_def parseStun_def parseTurn_def bind_def modify_def throw_def ret_def deref_def panic_def Let_def
        split: sum.splits option.splits)
  qed
  have st: "stconf w2 = stconf w1" if "c = Err e" for e
    using ConfigureStunTurn_Err [OF assms(1), of w1 e w2] assms(3) that by auto
  have "ignore (ConfigureStunTurnConf env (r_cp r)) w1 = (Ok (), w2)"
    using assms(3,4) c by (cases c) (auto simp: ignore_def attempt_def bind_def ret_def)
  with r' st show ?thesis
    by (cases c) (simp_all add: Rcn_Start_def deref_def systemMonitor_def spawn_def ret_def)
qed

section \<open>Witnesses\<close>

text \<open>A linux host without the kernel module, on which the interface is made in user space.\<close>

definition no_module :: "call \<Rightarrow> bool" where
  "no_module c \<longleftrightarrow> c \<in> {OsCall (OsStat ''/run/current-system/sw/bin/nixos-version''),
     ExecCall (ExecOutput [''modinfo'', ''wireguard'']), SignalCall RtcGetStunTurnConfig}"

definition rcn1 :: "cp_world Rcn" where
  "rcn1 = \<lparr>r_cp = cp1 no_module, r_serverClient = cp_serverClient (cp1 no_module), r_conf = cp_conf (cp1 no_module),
     r_iface = None, r_nk = ''me'', r_debug = False\<rparr>"

theorem Stop_before_Setup_panics_witness:
  "\<exists>r w1. NewRcn (cp_conf (cp1 no_module)) ''me'' None False cp_world0 = (Ok r, w1) \<and>
     Rcn_Stop (cp_env no_module) r w1 = (Panic ''nil pointer dereference'', w1)"
proof -
  obtain r w1 where "NewRcn (cp_conf (cp1 no_module)) ''me'' None False cp_world0 = (Ok r, w1)" by (simp add: NewRcn_run)
  with Stop_before_Setup_panics [OF this, of "cp_env no_module"] show ?thesis by blast
qed

lemma CreateIface_no_module:
  fixes w :: cp_world
  shows "\<exists>w'. CreateIface (cp_env no_module) \<lparr>Tun = [], WgPrivateKey = [], IP = ''10.0.0.1'', CIDR = ''24''\<rparr> w = (Ok (), w')"
proof -
  let ?env = "cp_env no_module"
  have cidr: "\<exists>n. ParseCIDR ''10.0.0.1/24'' = Some n"
  proof -
    have "ParseCIDR ''10.0.0.1/24'' \<noteq> None" by code_simp
    then show ?thesis by blast
  qed
  have fields: "Fields ''modinfo wireguard'' = [''modinfo'', ''wireguard'']" by code_simp
  have os: "goos ?env = ''linux''"
    by (simp add: cp_env_def sock_env1_def ice_env1_def ice_env.defs proxy_env.defs proxy_env1_def signal_env1_def
        signal_env.defs server_env1_def server_env.defs env1_def env.defs env0_def)
  from cidr obtain n where n: "ParseCIDR ''10.0.0.1/24'' = Some n" by blast
  show ?thesis
    by (simp add: CreateIface_def CreateIface_linux_def is_nixos_def isWireGuardModule_def ExecCmd_def fields os no_module_def
        createWithUserSpace_def CreateWithUserSpace_def getUAPI_def assignAddr_def ParseCIDR_go_def n addRoute_def
        configureDevice_def ParseKey_def query_def attempt_def ignore_def deferring_def deferred_def spawn_def
        bind_def ret_def perform_def emit_def gets_def Let_def)
qed

theorem Start_starts_all_witness:
  "\<exists>r' w1 w'. Setup (cp_env no_module) rcn1 ''10.0.0.1'' ''24'' cp_world0 = (Ok (None, r'), w1) \<and>
     Rcn_Start (cp_env no_module) r' w1 = (Ok (), w') \<and> last (hist w') = Go (ConnectSockTask ''10.0.0.1'' ''24'')"
proof -
  let ?env = "cp_env no_module"
  obtain w1 where "CreateIface ?env \<lparr>Tun = [], WgPrivateKey = [], IP = ''10.0.0.1'', CIDR = ''24''\<rparr> cp_world0 = (Ok (), w1)"
    using CreateIface_no_module by blast
  then obtain r' where s: "Setup ?env rcn1 ''10.0.0.1'' ''24'' cp_world0 = (Ok (None, r'), w1)"
    by (simp add: Setup_def createIface_def NewIface_def rcn1_def cp1_def NewSpec_def zero_SpecFields_def SpecFields.defs attempt_def
        bind_def ret_def Let_def)
  have c: "ConfigureStunTurnConf ?env (r_cp rcn1) w1 = (Err (ErrExt 14), w1\<lparr>hist := hist w1 @ [SignalCall RtcGetStunTurnConfig]\<rparr>)"
    by (simp add: rcn1_def ConfigureStunTurnConf_def NewSignalClient_def SC_GetStunTurnConfig_def query_def bind_def no_module_def
        perform_def Let_def)
  have wired: "cp_wired ?env sys1 (r_cp rcn1)" "\<not> r_debug rcn1" by (simp_all add: rcn1_def)
  from Start_starts_all [OF wired(1) s c] s wired(2) show ?thesis by auto
qed

end
