(* ===== verification/Engine.thy ===== *)
theory Engine
  imports Rcn_Sock Iface
begin

text \<open>
  \<open>engine/engine.go\<close> and \<open>engine/wonderwall/wonderwall.go\<close>: what \<open>runetale up\<close> runs. The engine and
  its wonder wall share the channel \<open>rootch\<close>, which only the wonder wall closes; the mutex
  that \<open>Start\<close> holds until it returns is the one \<open>Stop\<close> asks for. Calls from several goroutines are
  a step relation over the places of their bodies.
\<close>

section \<open>Wonder wall\<close>

record WonderWall =
  ww_ch :: "chan option"

definition NewWonderWall :: "chan option \<Rightarrow> WonderWall" where
  "NewWonderWall ch = \<lparr>ww_ch = ch\<rparr>"

definition dialRunetaleStatus :: "'e sock_env_scheme \<Rightarrow> ('z world_scheme, unit) go" where
  "dialRunetaleStatus env = bind (DialRunetaledStatus env) (\<lambda>ds. ret ())"

definition WonderWall_Start :: "'e sock_env_scheme \<Rightarrow> ('z world_scheme, unit) go" where
  "WonderWall_Start env = bind (attempt (dialRunetaleStatus env)) (\<lambda>r. case r of
       Inl _ \<Rightarrow> emit (Println ''please retry runetaled up'') | Inr _ \<Rightarrow> ret ())"

definition WonderWall_Stop :: "WonderWall \<Rightarrow> ('z world_scheme, unit) go" where
  "WonderWall_Stop ww = close_chan (ww_ch ww)"

section \<open>Engine\<close>

record engine =
  e_nk :: string
  e_tunName :: string
  e_ip :: string
  e_cidr :: string
  e_wgPrivKey :: string
  e_wgPort :: nat
  e_blackList :: "string list option"
  e_ww :: WonderWall
  e_rootch :: "chan option"

definition engine_mu :: mutex where "engine_mu = (''engine.mu'', 0)"

definition NewEngine :: "'e env_scheme \<Rightarrow> string \<Rightarrow> string \<Rightarrow> string \<Rightarrow> string \<Rightarrow> string \<Rightarrow> string list option
    \<Rightarrow> ('w, engine) go" where
  "NewEngine env tunName nk ip cidr wgPrivKey blackList =
     bind (ParseKey env wgPrivKey) (\<lambda>_.
     let ch = Some RootChan; ww = NewWonderWall ch
     in ret \<lparr>e_nk = nk, e_tunName = tunName, e_ip = ip, e_cidr = cidr, e_wgPrivKey = wgPrivKey,
          e_wgPort = nat WgPort, e_blackList = blackList, e_ww = ww, e_rootch = ch\<rparr>)"

definition engine_Stop :: "engine \<Rightarrow> ('z world_scheme, unit) go" where
  "engine_Stop d = with_lock engine_mu (WonderWall_Stop (e_ww d))"

definition engine_Start :: "'e sock_env_scheme \<Rightarrow> engine \<Rightarrow> ('z world_scheme, unit) go" where
  "engine_Start env d = with_lock engine_mu
     (bind (WonderWall_Start env) (\<lambda>_.
      bind (spawn EngineTask) (\<lambda>_.
      bind (recv_closed (e_rootch d)) (\<lambda>_.
      bind (engine_Stop d) (\<lambda>_. ret ())))))"

section \<open>Goroutines\<close>

text \<open>
  Calls of \<open>Start\<close> and \<open>Stop\<close> on one engine, from several goroutines: the place in the body of each,
  and what it does next. A call of \<open>Stop\<close> that panics releases the mutex, as its deferred unlock does.
\<close>

datatype engine_pc =
    Start_lock | Start_wonder | Start_spawn | Start_wait | Start_stop_lock | Start_stop_close | Start_stop_unlock
  | Start_unlock | Start_done
  | Stop_lock | Stop_close | Stop_unlock | Stop_done
  | Crashed

definition acquire :: "mutex \<Rightarrow> 't \<Rightarrow> 'z world_scheme \<Rightarrow> ('t \<times> 'z world_scheme) option" where
  "acquire m t w = (if m \<in> held w then None else Some (t, w\<lparr>held := insert m (held w)\<rparr>))"

definition release :: "mutex \<Rightarrow> 'z world_scheme \<Rightarrow> 'z world_scheme" where
  "release m w = w\<lparr>held := held w - {m}\<rparr>"

text \<open>A call inside the body: on to \<open>t\<close> when it returns, and no further when it blocks.\<close>

definition call_turn :: "('z world_scheme, unit) go \<Rightarrow> engine_pc \<Rightarrow> 'z world_scheme \<Rightarrow> (engine_pc \<times> 'z world_scheme) option" where
  "call_turn c t w = (case c w of
       (Ok _, w') \<Rightarrow> Some (t, w') | (Err _, w') \<Rightarrow> Some (t, w')
     | (Panic _, w') \<Rightarrow> Some (Crashed, release engine_mu w') | (Stuck, w') \<Rightarrow> None)"

fun engine_turn :: "'e sock_env_scheme \<Rightarrow> engine \<Rightarrow> engine_pc \<Rightarrow> 'z world_scheme
    \<Rightarrow> (engine_pc \<times> 'z world_scheme) option" where
  "engine_turn env d Start_lock w = acquire engine_mu Start_wonder w"
| "engine_turn env d Start_wonder w = call_turn (WonderWall_Start env) Start_spawn w"
| "engine_turn env d Start_spawn w = call_turn (spawn EngineTask) Start_wait w"
| "engine_turn env d Start_wait w = call_turn (recv_closed (e_rootch d)) Start_stop_lock w"
| "engine_turn env d Start_stop_lock w = acquire engine_mu Start_stop_close w"
| "engine_turn env d Start_stop_close w = call_turn (WonderWall_Stop (e_ww d)) Start_stop_unlock w"
| "engine_turn env d Start_stop_unlock w = Some (Start_unlock, release engine_mu w)"
| "engine_turn env d Start_unlock w = Some (Start_done, release engine_mu w)"
| "engine_turn env d Stop_lock w = acquire engine_mu Stop_close w"
| "engine_turn env d Stop_close w = call_turn (WonderWall_Stop (e_ww d)) Stop_unlock w"
| "engine_turn env d Stop_unlock w = Some (Stop_done, release engine_mu w)"
| "engine_turn env d _ w = None"

abbreviation engine_path :: "'e sock_env_scheme \<Rightarrow> engine \<Rightarrow> nat list \<Rightarrow> 'z world_scheme \<times> engine_pc list
    \<Rightarrow> 'z world_scheme \<times> engine_pc list \<Rightarrow> bool" where
  "engine_path env d \<equiv> run_path (interleave (engine_turn env d))"

section \<open>Lemmas\<close>

lemma DialRunetaledStatus_returns:
  fixes w :: "'z world_scheme"
  shows "\<exists>r h. attempt (dialRunetaleStatus env) w = (Ok r, w\<lparr>hist := h\<rparr>)"
  by (auto simp: dialRunetaleStatus_def DialRunetaledStatus_def deferring_def deferred_def ignore_def attempt_def bind_def
      query_def gets_def perform_def ret_def Let_def split: option.splits)

lemma WonderWall_Start_returns: "\<exists>h. WonderWall_Start env w = (Ok (), w\<lparr>hist := h\<rparr>)"
proof -
  obtain r h where "attempt (dialRunetaleStatus env) w = (Ok r, w\<lparr>hist := h\<rparr>)"
    using DialRunetaledStatus_returns by blast
  then show ?thesis by (cases r) (auto simp: WonderWall_Start_def ret_def)
qed

lemma engine_Stop_blocked: "engine_mu \<in> held w \<Longrightarrow> engine_Stop d w = (Stuck, w)"
  by (simp add: engine_Stop_def with_lock_def)

lemma engine_Start_run:
  fixes w :: "'z world_scheme"
  assumes "engine_mu \<notin> held w"
  obtains h where "WonderWall_Start env (w\<lparr>held := insert engine_mu (held w)\<rparr>) = (Ok (), w\<lparr>hist := h, held := insert engine_mu (held w)\<rparr>)"
    "engine_Start env d w = (Stuck, w\<lparr>hist := h @ [Go EngineTask], held := insert engine_mu (held w)\<rparr>)"
proof -
  let ?w = "w\<lparr>held := insert engine_mu (held w)\<rparr>"
  obtain h where h: "WonderWall_Start env ?w = (Ok (), ?w\<lparr>hist := h\<rparr>)" using WonderWall_Start_returns by blast
  have wait: "bind (recv_closed (e_rootch d)) (\<lambda>_. bind (engine_Stop d) (\<lambda>_. ret ())) v = (Stuck, v)"
    if "engine_mu \<in> held v" for v :: "'z world_scheme"
    using that by (auto simp: recv_closed_def bind_def engine_Stop_blocked split: option.splits)
  show thesis
    by (rule that [of h]) (use assms h wait in \<open>simp_all add: engine_Start_def with_lock_def spawn_def\<close>)
qed

lemma engine_Start_blocked:
  "\<exists>w'. engine_Start env d w = (Stuck, w') \<and> engine_mu \<in> held w' \<and>
    (\<forall>h. engine_Stop d (w'\<lparr>hist := h\<rparr>) = (Stuck, w'\<lparr>hist := h\<rparr>))"
proof (cases "engine_mu \<in> held w")
  case True
  then show ?thesis by (simp add: engine_Start_def with_lock_def engine_Stop_blocked)
next
  case False
  then obtain h where
    "engine_Start env d w = (Stuck, w\<lparr>hist := h @ [Go EngineTask], held := insert engine_mu (held w)\<rparr>)"
    using engine_Start_run by blast
  then show ?thesis by (simp add: engine_Stop_blocked)
qed

section \<open>The mutex\<close>

text \<open>The places at which a goroutine holds the mutex, and those \<open>Start\<close> reaches with it.\<close>

definition in_Start :: "engine_pc \<Rightarrow> bool" where
  "in_Start t \<longleftrightarrow> t \<in> {Start_wonder, Start_spawn, Start_wait, Start_stop_lock}"

definition holds_mu :: "engine_pc \<Rightarrow> bool" where
  "holds_mu t \<longleftrightarrow> in_Start t \<or> t \<in> {Stop_close, Stop_unlock}"

definition past_Stop :: "engine_pc \<Rightarrow> bool" where
  "past_Stop t \<longleftrightarrow> t \<in> {Start_stop_close, Start_stop_unlock, Start_unlock, Start_done}"

text \<open>One goroutine at most holds the mutex, and \<open>Start\<close> never gets behind its call of \<open>Stop\<close>.\<close>

definition mutex_inv :: "'z world_scheme \<times> engine_pc list \<Rightarrow> bool" where
  "mutex_inv s \<longleftrightarrow> (\<forall>t \<in> set (snd s). \<not> past_Stop t) \<and>
     (\<forall>i < length (snd s). holds_mu (snd s ! i) \<longrightarrow> engine_mu \<in> held (fst s) \<and>
        (\<forall>j < length (snd s). holds_mu (snd s ! j) \<longrightarrow> j = i))"

lemma recv_closed_same: "recv_closed c w = (r, w') \<Longrightarrow> w' = w \<and> r \<in> {Ok (), Stuck}"
  by (auto simp: recv_closed_def split: option.splits if_splits)

text \<open>What a turn does to the mutex.\<close>

lemmas pc_defs = holds_mu_def in_Start_def past_Stop_def

lemma engine_turn_mutex:
  fixes w :: "'z world_scheme"
  assumes "engine_turn env d t w = Some (t', w')" "holds_mu t \<longrightarrow> engine_mu \<in> held w" "\<not> past_Stop t"
  shows "(holds_mu t \<or> engine_mu \<notin> held w) \<and> \<not> past_Stop t' \<and> (holds_mu t' \<longrightarrow> engine_mu \<in> held w') \<and>
    (in_Start t \<longrightarrow> in_Start t')"
proof (cases t)
  case Start_wonder
  obtain h where "WonderWall_Start env w = (Ok (), w\<lparr>hist := h\<rparr>)" using WonderWall_Start_returns by blast
  with Start_wonder assms show ?thesis by (auto simp: call_turn_def pc_defs)
next
  case Start_wait
  obtain r v where r: "recv_closed (e_rootch d) w = (r, v)" by (metis surj_pair)
  with Start_wait assms recv_closed_same [OF r] show ?thesis by (auto simp: call_turn_def pc_defs)
next
  case Stop_close
  obtain r v where r: "WonderWall_Stop (e_ww d) w = (r, v)" by (metis surj_pair)
  then have "held v = held w"
    by (cases "ww_ch (e_ww d)") (auto simp: WonderWall_Stop_def close_chan_def panic_def split: if_splits)
  with r Stop_close assms show ?thesis by (cases r) (auto simp: call_turn_def pc_defs)
qed (use assms in \<open>auto simp: acquire_def call_turn_def spawn_def pc_defs split: if_splits\<close>)

lemma mutex_inv_others:
  assumes "mutex_inv (w, ts)" "i < length ts" "holds_mu (ts ! i) \<or> engine_mu \<notin> held w" "j < length ts" "j \<noteq> i"
  shows "\<not> holds_mu (ts ! j)"
proof
  assume j: "holds_mu (ts ! j)"
  with assms(1,4) have "engine_mu \<in> held w" by (simp add: mutex_inv_def)
  with assms(3) have "holds_mu (ts ! i)" by simp
  with assms(1,2,4,5) j show False by (simp add: mutex_inv_def)
qed

lemma mutex_inv_update:
  assumes "mutex_inv (w, ts)" "i < length ts" "holds_mu (ts ! i) \<or> engine_mu \<notin> held w" "\<not> past_Stop t"
    "holds_mu t \<longrightarrow> engine_mu \<in> held w'"
  shows "mutex_inv (w', ts[i := t])"
proof -
  note others = mutex_inv_others [OF assms(1-3)]
  have "\<not> past_Stop t'" if "t' \<in> set (ts[i := t])" for t'
    using that assms(1,4) set_update_subset_insert [of ts i t] by (auto simp: mutex_inv_def)
  moreover have "j = i \<and> engine_mu \<in> held w'" if "j < length ts" "holds_mu (ts[i := t] ! j)" for j
    using that others [of j] assms(5) by (cases "j = i") auto
  ultimately show ?thesis by (simp add: mutex_inv_def) blast
qed

lemma mutex_inv_step:
  assumes "interleave (engine_turn env d) i s s'" "mutex_inv s"
  shows "mutex_inv s'"
  using assms(1)
proof (cases rule: interleave.cases)
  case (interleave_at ts w t w')
  have "holds_mu (ts ! i) \<longrightarrow> engine_mu \<in> held w" "\<not> past_Stop (ts ! i)"
    using assms(2) interleave_at(1,3) by (auto simp: mutex_inv_def)
  from engine_turn_mutex [OF interleave_at(4) this] assms(2) interleave_at(1-3) show ?thesis
    by (auto intro: mutex_inv_update)
qed

text \<open>While one goroutine is in \<open>Start\<close> no other one moves.\<close>

definition only_moves :: "nat \<Rightarrow> engine_pc list \<Rightarrow> 'z world_scheme \<times> engine_pc list \<Rightarrow> bool" where
  "only_moves i ts s \<longleftrightarrow> mutex_inv s \<and> length (snd s) = length ts \<and> in_Start (snd s ! i) \<and>
     (\<forall>j < length ts. j \<noteq> i \<longrightarrow> snd s ! j = ts ! j)"

lemma only_moves_held: "only_moves i ts s \<Longrightarrow> i < length ts \<Longrightarrow> engine_mu \<in> held (fst s)"
  by (simp add: only_moves_def mutex_inv_def holds_mu_def)

lemma only_moves_step:
  assumes "interleave (engine_turn env d) j s s'" "only_moves i ts s" "i < length ts"
  shows "only_moves i ts s'"
  using assms(1)
proof (cases rule: interleave.cases)
  case (interleave_at us w t w')
  have inv: "mutex_inv (w, us)" and i: "i < length us" "in_Start (us ! i)"
    using assms(2,3) interleave_at(1) by (auto simp: only_moves_def)
  have at: "holds_mu (us ! j) \<longrightarrow> engine_mu \<in> held w" "\<not> past_Stop (us ! j)"
    using inv interleave_at(3) by (auto simp: mutex_inv_def)
  note turn = engine_turn_mutex [OF interleave_at(4) at]
  have "engine_mu \<in> held w" "holds_mu (us ! i)" using inv i by (auto simp: mutex_inv_def holds_mu_def)
  with turn have "holds_mu (us ! j)" by simp
  with mutex_inv_others [OF inv i(1) _ interleave_at(3)] \<open>holds_mu (us ! i)\<close> have "j = i" by blast
  with turn i assms(2) interleave_at(1,2) mutex_inv_step [OF assms(1)] show ?thesis
    by (auto simp: only_moves_def)
qed

section \<open>Properties\<close>

text \<open>
  \<open>Start\<close> never returns, whatever the outside answers, and keeps the mutex of the engine for
  ever: it waits for a channel that only \<open>Stop\<close> closes, which waits for that mutex, and even
  with the channel closed \<open>Start\<close> waits for itself in its own call of \<open>Stop\<close>.
\<close>
theorem engine_Start_never_returns:
  "\<exists>w'. engine_Start env d w = (Stuck, w') \<and> engine_mu \<in> held w' \<and>
    (\<forall>h. engine_Stop d (w'\<lparr>hist := h\<rparr>) = (Stuck, w'\<lparr>hist := h\<rparr>))"
  by (rule engine_Start_blocked)

text \<open>
  C37. However calls of \<open>Start\<close> and \<open>Stop\<close> on an engine interleave, no \<open>Start\<close> ever returns; and from
  the moment one has the mutex it keeps it, and no other goroutine of the engine moves again.
\<close>
theorem engine_deadlock:
  assumes "engine_mu \<notin> held w0" "set ts0 \<subseteq> {Start_lock, Stop_lock}" "engine_path env d as (w0, ts0) (w, ts)"
  shows "Start_done \<notin> set ts \<and> (\<forall>i < length ts. in_Start (ts ! i) \<longrightarrow>
    (\<forall>bs w' ts'. engine_path env d bs (w, ts) (w', ts') \<longrightarrow> engine_mu \<in> held w' \<and>
       (\<forall>j < length ts. j \<noteq> i \<longrightarrow> ts' ! j = ts ! j)))"
proof -
  have "\<forall>t \<in> set ts0. \<not> past_Stop t \<and> \<not> holds_mu t" using assms(2) by (auto simp: pc_defs)
  then have "mutex_inv (w0, ts0)" by (simp add: mutex_inv_def)
  with assms(3) have inv: "mutex_inv (w, ts)" by (rule run_path_keeps [where I = mutex_inv]) (rule mutex_inv_step)
  have "engine_mu \<in> held w' \<and> (\<forall>j < length ts. j \<noteq> i \<longrightarrow> ts' ! j = ts ! j)"
    if i: "i < length ts" "in_Start (ts ! i)" and p: "engine_path env d bs (w, ts) (w', ts')" for i bs w' ts'
  proof -
    have "only_moves i ts (w, ts)" using inv i by (simp add: only_moves_def)
    with p have "only_moves i ts (w', ts')"
      by (rule run_path_keeps [where I = "only_moves i ts"]) (rule only_moves_step [OF _ _ i(1)])
    with only_moves_held [OF this i(1)] show ?thesis by (simp add: only_moves_def)
  qed
  moreover have "Start_done \<notin> set ts" using inv by (auto simp: mutex_inv_def past_Stop_def)
  ultimately show ?thesis by blast
qed

text \<open>
  Alone, a goroutine does what the operation does: \<open>Stop\<close> runs to its end, and \<open>Start\<close> to the place
  where it waits for ever.
\<close>
theorem Stop_alone:
  assumes "engine_Stop d w = (Ok (), w')"
  shows "engine_path env d [0, 0, 0] (w, [Stop_lock]) (w', [Stop_done])"
proof -
  let ?w = "w\<lparr>held := insert engine_mu (held w)\<rparr>"
  have free: "engine_mu \<notin> held w" using assms by (auto simp: engine_Stop_def with_lock_def split: if_splits)
  obtain r v where r: "WonderWall_Stop (e_ww d) ?w = (r, v)" by (metis surj_pair)
  with assms free have v: "r = Ok ()" "w' = release engine_mu v"
    by (auto simp: engine_Stop_def with_lock_def release_def split: prod.splits res.splits if_splits)
  have "interleave (engine_turn env d) 0 (w, [Stop_lock]) (?w, [Stop_close])"
    using interleave_at [of 0 "[Stop_lock]" "engine_turn env d" w Stop_close ?w] free by (simp add: acquire_def)
  moreover have "interleave (engine_turn env d) 0 (?w, [Stop_close]) (v, [Stop_unlock])"
    using interleave_at [of 0 "[Stop_close]" "engine_turn env d" ?w Stop_unlock v] r v by (simp add: call_turn_def)
  moreover have "interleave (engine_turn env d) 0 (v, [Stop_unlock]) (w', [Stop_done])"
    using interleave_at [of 0 "[Stop_unlock]" "engine_turn env d" v Stop_done w'] v by simp
  ultimately show ?thesis unfolding run_path_simps by blast
qed

theorem Start_alone:
  fixes w :: "'z world_scheme"
  assumes "engine_mu \<notin> held w"
  shows "\<exists>as w' t. engine_path env d as (w, [Start_lock]) (w', [t]) \<and> engine_turn env d t w' = None \<and>
    engine_Start env d w = (Stuck, w')"
proof -
  let ?w = "w\<lparr>held := insert engine_mu (held w)\<rparr>"
  obtain h where h: "WonderWall_Start env ?w = (Ok (), w\<lparr>hist := h, held := insert engine_mu (held w)\<rparr>)"
    "engine_Start env d w = (Stuck, w\<lparr>hist := h @ [Go EngineTask], held := insert engine_mu (held w)\<rparr>)"
    using engine_Start_run [OF assms] by blast
  let ?v = "w\<lparr>hist := h, held := insert engine_mu (held w)\<rparr>"
  let ?u = "w\<lparr>hist := h @ [Go EngineTask], held := insert engine_mu (held w)\<rparr>"
  have "interleave (engine_turn env d) 0 (w, [Start_lock]) (?w, [Start_wonder])"
    using interleave_at [of 0 "[Start_lock]" "engine_turn env d" w Start_wonder ?w] assms by (simp add: acquire_def)
  moreover have "interleave (engine_turn env d) 0 (?w, [Start_wonder]) (?v, [Start_spawn])"
    using interleave_at [of 0 "[Start_wonder]" "engine_turn env d" ?w Start_spawn ?v] h by (simp add: call_turn_def)
  moreover have "interleave (engine_turn env d) 0 (?v, [Start_spawn]) (?u, [Start_wait])"
    using interleave_at [of 0 "[Start_spawn]" "engine_turn env d" ?v Start_wait ?u] by (simp add: call_turn_def spawn_def)
  ultimately have p: "engine_path env d [0, 0, 0] (w, [Start_lock]) (?u, [Start_wait])"
    unfolding run_path_simps by blast
  show ?thesis
  proof (cases "engine_turn env d Start_wait ?u")
    case None
    with p h show ?thesis by blast
  next
    case (Some r)
    then have "engine_turn env d Start_wait ?u = Some (Start_stop_lock, ?u)"
      by (auto simp: call_turn_def recv_closed_def split: option.splits if_splits)
    then have "interleave (engine_turn env d) 0 (?u, [Start_wait]) (?u, [Start_stop_lock])"
      using interleave_at [of 0 "[Start_wait]" "engine_turn env d" ?u Start_stop_lock ?u] by simp
    with p have "engine_path env d ([0, 0, 0] @ [0]) (w, [Start_lock]) (?u, [Start_stop_lock])"
      unfolding run_path_append by (intro exI [of _ "(?u, [Start_wait])"]) simp
    moreover have "engine_turn env d Start_stop_lock ?u = None" by (simp add: acquire_def)
    ultimately show ?thesis using h by blast
  qed
qed

text \<open>
  An engine that is not running can be stopped once; the second \<open>Stop\<close> closes the channel
  again and panics, having released the mutex.
\<close>
theorem engine_Stop_twice_panics:
  assumes "NewEngine env tunName nk ip cidr pk bl w0 = (Ok d, w0')" "engine_mu \<notin> held w" "RootChan \<notin> closed w"
  shows "\<exists>w1. engine_Stop d w = (Ok (), w1) \<and> RootChan \<in> closed w1 \<and> held w1 = held w \<and>
    (\<exists>w2. engine_Stop d w1 = (Panic ''close of closed channel'', w2) \<and> held w2 = held w)"
proof -
  have "ww_ch (e_ww d) = Some RootChan"
    using assms(1) by (auto simp: NewEngine_def ParseKey_def NewWonderWall_def Let_def throw_def ret_def split: sum.splits)
  with assms(2,3) show ?thesis
    by (simp add: engine_Stop_def with_lock_def WonderWall_Stop_def close_chan_def)
qed

theorem engine_Stop_twice_panics_witness:
  "\<exists>d w1 w2. NewEngine env1 ''rt0'' ''nk'' ''10.0.0.1'' ''24'' ''p'' None world0 = (Ok d, world0) \<and>
     engine_Stop d world0 = (Ok (), w1) \<and> engine_Stop d w1 = (Panic ''close of closed channel'', w2)"
proof -
  have "\<exists>d. NewEngine env1 ''rt0'' ''nk'' ''10.0.0.1'' ''24'' ''p'' None world0 = (Ok d, world0)"
    by (simp add: NewEngine_def ParseKey_def env1_def env0_def ret_def Let_def)
  then obtain d where d: "NewEngine env1 ''rt0'' ''nk'' ''10.0.0.1'' ''24'' ''p'' None world0 = (Ok d, world0)" by blast
  from engine_Stop_twice_panics [OF d, of world0] d show ?thesis by (auto simp: world0_def)
qed

theorem engine_deadlock_witness:
  "\<exists>d w ts. NewEngine env1 ''rt0'' ''nk'' ''10.0.0.1'' ''24'' ''p'' None world0 = (Ok d, world0) \<and>
     engine_path (sock_env1 \<lparr>MessageType = 0, dial_status = None\<rparr>) d [0] (world0, [Start_lock, Stop_lock]) (w, ts) \<and>
     (\<forall>bs w' ts'. engine_path (sock_env1 \<lparr>MessageType = 0, dial_status = None\<rparr>) d bs (w, ts) (w', ts') \<longrightarrow> ts' ! 1 = Stop_lock)"
proof -
  let ?env = "sock_env1 \<lparr>MessageType = 0, dial_status = None\<rparr>"
  have "\<exists>d. NewEngine env1 ''rt0'' ''nk'' ''10.0.0.1'' ''24'' ''p'' None world0 = (Ok d, world0)"
    by (simp add: NewEngine_def ParseKey_def env1_def env0_def ret_def Let_def)
  then obtain d where d: "NewEngine env1 ''rt0'' ''nk'' ''10.0.0.1'' ''24'' ''p'' None world0 = (Ok d, world0)" by blast
  let ?w = "world0\<lparr>held := {engine_mu}\<rparr>"
  have free: "engine_mu \<notin> held world0" by (simp add: world0_def)
  have "interleave (engine_turn ?env d) 0 (world0, [Start_lock, Stop_lock]) (?w, [Start_wonder, Stop_lock])"
    using interleave_at [of 0 "[Start_lock, Stop_lock]" "engine_turn ?env d" world0 Start_wonder ?w]
    by (simp add: acquire_def world0_def)
  then have p: "engine_path ?env d [0] (world0, [Start_lock, Stop_lock]) (?w, [Start_wonder, Stop_lock])" by simp
  have s: "set [Start_lock, Stop_lock] \<subseteq> {Start_lock, Stop_lock}" by simp
  have i: "0 < length [Start_wonder, Stop_lock]" "in_Start ([Start_wonder, Stop_lock] ! 0)" by (simp_all add: in_Start_def)
  note dead = conjunct2 [OF engine_deadlock [OF free s p], rule_format, OF i]
  have "\<forall>bs w' ts'. engine_path ?env d bs (?w, [Start_wonder, Stop_lock]) (w', ts') \<longrightarrow> ts' ! 1 = Stop_lock"
    using dead [THEN conjunct2, rule_format, of _ _ _ 1] by simp
  with d p show ?thesis by blast
qed

end
