(* ===== verification/Daemon_Systemd.thy ===== *)
theory Daemon_Systemd
  imports Fs
begin

text \<open>
  \<open>daemon/daemon_linux_systemd.go\<close>: the daemon as a service of systemd. The unit file, the
  binary and its temporary copy are files of the world; systemctl answers through the
  environment, whose output need not agree with what was done before, and what it does to the
  files is a parameter as well (\<open>ctl_files\<close>). The two patterns the code searches for are written
  out as functions on strings.
\<close>

section \<open>Files of the daemon\<close>

definition os_Stat :: "'e env_scheme \<Rightarrow> string \<Rightarrow> ('z world_scheme, unit) go" where
  "os_Stat env p = os_do env (OsStat p) (\<lambda>fs. if fs p = None then Inl ErrNotExist else Inr fs)"

definition os_Create :: "'e env_scheme \<Rightarrow> string \<Rightarrow> ('z world_scheme, unit) go" where
  "os_Create env p = os_do env (OsCreate p) (\<lambda>fs. Inr (fs(p \<mapsto> [])))"

definition os_Open :: "'e env_scheme \<Rightarrow> string \<Rightarrow> ('z world_scheme, unit) go" where
  "os_Open env p = os_do env (OsOpen p) (\<lambda>fs. if fs p = None then Inl ErrNotExist else Inr fs)"

definition contents :: "string \<Rightarrow> 'z world_scheme \<Rightarrow> string" where
  "contents p w = (case files w p of None \<Rightarrow> [] | Some s \<Rightarrow> s)"

text \<open>A copy that fails may have written a part.\<close>

definition io_Copy :: "'e env_scheme \<Rightarrow> string \<Rightarrow> string \<Rightarrow> ('z world_scheme, unit) go" where
  "io_Copy env dst src w = (let h = hist w @ [OsCall (IoCopy dst src)] in case err_of env h of
       None \<Rightarrow> (Ok (), w\<lparr>hist := h, files := (files w)(dst \<mapsto> contents src w)\<rparr>)
     | Some e \<Rightarrow> (Err e, w\<lparr>hist := h, files := (files w)(dst \<mapsto> take (nat (int_of env h)) (contents src w))\<rparr>))"

definition os_Close :: "'e env_scheme \<Rightarrow> string \<Rightarrow> ('z world_scheme, unit) go" where
  "os_Close env p = perform env (OsCall (OsClose p))"

section \<open>Commands\<close>

text \<open>\<open>out, err := exec.Command(args).CombinedOutput()\<close>; on an error the code prints \<open>mes\<close>.\<close>

definition combined :: "'e env_scheme \<Rightarrow> string list \<Rightarrow> ('z world_scheme, err + string) go" where
  "combined env args = attempt (query env (str_of env) (ExecCall (ExecCombined args)))"

definition run_or_print :: "'e env_scheme \<Rightarrow> string list \<Rightarrow> string \<Rightarrow> ('z world_scheme, unit) go" where
  "run_or_print env args mes = bind (combined env args) (\<lambda>r. case r of
       Inl e \<Rightarrow> bind (emit (Println mes)) (\<lambda>_. throw e)
     | Inr _ \<Rightarrow> ret ())"

text \<open>The same for a command of systemctl, which may change files, also when it fails.\<close>

definition systemctl :: "'e env_scheme \<Rightarrow> string list \<Rightarrow> string \<Rightarrow> ('z world_scheme, unit) go" where
  "systemctl env args mes = bind (combined env (''systemctl'' # args)) (\<lambda>r.
     bind (modify (\<lambda>w. w\<lparr>files := ctl_files env (hist w) (files w)\<rparr>)) (\<lambda>_. case r of
       Inl e \<Rightarrow> bind (emit (Println mes)) (\<lambda>_. throw e)
     | Inr _ \<Rightarrow> ret ()))"

text \<open>\<open>pre([0-9]+)post\<close>: the digits of the leftmost match.\<close>

definition is_digit :: "char \<Rightarrow> bool" where
  "is_digit c \<longleftrightarrow> digit_val c \<noteq> None"

definition digits_after :: "string \<Rightarrow> string \<Rightarrow> string \<Rightarrow> string option" where
  "digits_after pre post s =
     (let ds = takeWhile is_digit (drop (length pre) s) in
      if HasPrefix s pre \<and> ds \<noteq> [] \<and> HasPrefix (drop (length pre + length ds) s) post then Some ds else None)"

fun find_digits :: "string \<Rightarrow> string \<Rightarrow> string \<Rightarrow> string option" where
  "find_digits pre post [] = digits_after pre post []"
| "find_digits pre post (c # s) = (case digits_after pre post (c # s) of
       Some ds \<Rightarrow> Some ds | None \<Rightarrow> find_digits pre post s)"

section \<open>The record and its questions\<close>

record daemon_record =
  binPath :: string
  serviceName :: string
  daemonFilePath :: string
  systemConfig :: string

definition running :: string where "running = CHR 0x09 # ''['' @ CHR 0x1B # ''[32mRUNNING'' @ CHR 0x1B # ''[0m]''"
definition failed :: string where "failed = CHR 0x09 # ''['' @ CHR 0x1B # ''[31mFAILED'' @ CHR 0x1B # ''[0m]''"
definition nonroot :: string where "nonroot = CHR 0x09 # ''['' @ CHR 0x1B # ''[31mNON_ROOT'' @ CHR 0x1B # ''[0m]''"
definition notinstalled :: string where
  "notinstalled = CHR 0x09 # ''['' @ CHR 0x1B # ''[31mNOT_INSTALLED'' @ CHR 0x1B # ''[0m]''"
definition notrunning :: string where
  "notrunning = CHR 0x09 # ''['' @ CHR 0x1B # ''[31mNOT_RUNNING'' @ CHR 0x1B # ''[0m]''"

definition checkPrivileges :: "'e env_scheme \<Rightarrow> ('z world_scheme, unit) go" where
  "checkPrivileges env = bind (combined env [''id'', ''-g'']) (\<lambda>r. case r of
       Inl _ \<Rightarrow> throw (ErrNew ''unsupport system'')
     | Inr out \<Rightarrow> (case ParseUint (TrimSpace out) 32 of
           Inl _ \<Rightarrow> throw (ErrNew ''unsupport system'')
         | Inr gid \<Rightarrow> if gid = 0 then ret () else throw (ErrNew ''run with root privileges'')))"

definition isInstalled :: "'e env_scheme \<Rightarrow> daemon_record \<Rightarrow> ('z world_scheme, bool) go" where
  "isInstalled env s = bind (attempt (os_Stat env (daemonFilePath s))) (\<lambda>r. ret (\<not> isl r))"

definition isRunnning :: "'e env_scheme \<Rightarrow> daemon_record \<Rightarrow> ('z world_scheme, string \<times> bool) go" where
  "isRunnning env s =
     bind (attempt (query env (str_of env) (ExecCall (ExecOutput [''systemctl'', ''status'', serviceName s @ ''.service''])))) (\<lambda>r.
     ret (case r of
       Inl _ \<Rightarrow> (serviceName s @ '' is stopped'', False)
     | Inr output \<Rightarrow>
         if Contains output ''Active: active'' then
           (case find_digits ''Main PID: '' [] output of
              Some pid \<Rightarrow> (serviceName s @ '' is running on pid: '' @ pid, True)
            | None \<Rightarrow> (serviceName s @ '' is running. but cannot get pid. please report it'', True))
         else (serviceName s @ '' is stopped'', False)))"

section \<open>Starting and stopping\<close>

definition Load :: "'e env_scheme \<Rightarrow> daemon_record \<Rightarrow> ('z world_scheme, unit) go" where
  "Load env s =
     bind (checkPrivileges env) (\<lambda>_.
     bind (systemctl env [''daemon-reload''] ''failed to running systemctl daemon-reload'') (\<lambda>_.
     systemctl env [''enable'', serviceName s @ ''.service''] ''failed to running systemctl daemon-reload''))"

definition Unload :: "'e env_scheme \<Rightarrow> daemon_record \<Rightarrow> ('z world_scheme, unit) go" where
  "Unload env s =
     bind (checkPrivileges env) (\<lambda>_.
     bind (isInstalled env s) (\<lambda>inst. if \<not> inst then throw (ErrNew ''not installed'') else
     bind (isRunnning env s) (\<lambda>(_, isRunning). if \<not> isRunning then throw (ErrNew ''not running'') else
     systemctl env [''disable'', serviceName s @ ''.service''] ''failed to disable systemctl'')))"

definition start :: "'e env_scheme \<Rightarrow> daemon_record \<Rightarrow> ('z world_scheme, unit) go" where
  "start env s =
     bind (checkPrivileges env) (\<lambda>_.
     bind (isRunnning env s) (\<lambda>(_, isRunning). if isRunning then throw (ErrNew ''already running'') else
     systemctl env [''start'', serviceName s @ ''.service''] ''failed to running systemctl daemon-reload''))"

definition daemon_Stop :: "'e env_scheme \<Rightarrow> daemon_record \<Rightarrow> ('z world_scheme, unit) go" where
  "daemon_Stop env s =
     bind (checkPrivileges env) (\<lambda>_.
     bind (isInstalled env s) (\<lambda>inst. if \<not> inst then throw (ErrNew ''not installed'') else
     bind (isRunnning env s) (\<lambda>(mes, isRunning). if \<not> isRunning then throw (ErrNew mes) else
     systemctl env [''stop'', serviceName s @ ''.service''] ''failed to stop systemctl'')))"

definition Status :: "'e env_scheme \<Rightarrow> daemon_record \<Rightarrow> ('z world_scheme, string \<times> bool) go" where
  "Status env s =
     bind (attempt (checkPrivileges env)) (\<lambda>r. case r of Inl _ \<Rightarrow> ret (nonroot, False) | Inr _ \<Rightarrow>
     bind (isInstalled env s) (\<lambda>inst. if \<not> inst then ret (notinstalled, False) else
     bind (isRunnning env s) (\<lambda>(_, isRunning). if \<not> isRunning then ret (notrunning, False)
       else ret (running, True))))"

section \<open>Uninstall and Install\<close>

text \<open>The end of \<open>Uninstall\<close>: the error of the first \<open>Remove\<close> is read only for \<open>IsNotExist\<close>.\<close>

definition remove_files :: "'e env_scheme \<Rightarrow> daemon_record \<Rightarrow> ('z world_scheme, unit) go" where
  "remove_files env s =
     bind (attempt (os_Remove env (daemonFilePath s))) (\<lambda>r.
     if r = Inl ErrNotExist then ret () else
     bind (attempt (os_Remove env (binPath s))) (\<lambda>r. case r of
       Inr _ \<Rightarrow> ret () | Inl e \<Rightarrow> if e = ErrNotExist then ret () else throw e))"

definition Uninstall :: "'e env_scheme \<Rightarrow> daemon_record \<Rightarrow> ('z world_scheme, unit) go" where
  "Uninstall env s =
     bind (checkPrivileges env) (\<lambda>_.
     bind (isRunnning env s) (\<lambda>(_, isRunning).
     bind (if isRunning then bind (Unload env s) (\<lambda>_. daemon_Stop env s) else ret ()) (\<lambda>_.
     remove_files env s)))"

text \<open>The executable that runs is copied beside the binary and moved into its place.\<close>

definition copy_binary :: "'e env_scheme \<Rightarrow> daemon_record \<Rightarrow> ('z world_scheme, unit) go" where
  "copy_binary env s = (let tmpBin = binPath s @ ''.tmp'' in
     bind (perform env (OsCall (OsMkdirAll (Dir (binPath s)) 493))) (\<lambda>_.
     bind (query env (str_of env) (OsCall OsExecutable)) (\<lambda>exePath.
     bind (os_Create env tmpBin) (\<lambda>_.
     bind (attempt (os_Open env exePath)) (\<lambda>r. case r of
       Inl e \<Rightarrow> bind (ignore (os_Close env tmpBin)) (\<lambda>_. throw e)
     | Inr _ \<Rightarrow>
     bind (attempt (io_Copy env tmpBin exePath)) (\<lambda>r.
     bind (ignore (os_Close env exePath)) (\<lambda>_. case r of
       Inl e \<Rightarrow> bind (ignore (os_Close env tmpBin)) (\<lambda>_. throw e)
     | Inr _ \<Rightarrow>
     bind (os_Close env tmpBin) (\<lambda>_.
     bind (perform env (OsCall (OsChmod tmpBin 493))) (\<lambda>_.
     Rename env tmpBin (binPath s))))))))))"

text \<open>The deferred function of \<open>Install\<close>, which reads the user id also when there is no error.\<close>

definition sudo_hint :: "'e env_scheme \<Rightarrow> ('z world_scheme, unit) go \<Rightarrow> ('z world_scheme, unit) go" where
  "sudo_hint env m w = (case m w of
       (Stuck, w1) \<Rightarrow> (Stuck, w1)
     | (r, w1) \<Rightarrow> (let h = hist w1 @ [OsCall OsGetuid]; w2 = w1\<lparr>hist := h\<rparr> in
         case r of
           Err e \<Rightarrow> (Err (if int_of env h \<noteq> 0 then ErrText ''run it again with sudo privileges: '' e else e), w2)
         | _ \<Rightarrow> (r, w2)))"

definition Install_body :: "'e env_scheme \<Rightarrow> daemon_record \<Rightarrow> ('z world_scheme, unit) go" where
  "Install_body env s =
     bind (checkPrivileges env) (\<lambda>_.
     bind (isInstalled env s) (\<lambda>inst. if inst then ret () else
     bind (copy_binary env s) (\<lambda>_.
     bind (Uninstall env s) (\<lambda>_.
     bind (os_WriteFile env (daemonFilePath s) (systemConfig s) 448) (\<lambda>_.
     bind (Load env s) (\<lambda>_.
     start env s))))))"

definition Install :: "'e env_scheme \<Rightarrow> daemon_record \<Rightarrow> ('z world_scheme, unit) go" where
  "Install env s = sudo_hint env (Install_body env s)"

section \<open>What the operations do\<close>

lemma files_hist: "w\<lparr>files := f, hist := h\<rparr> = w\<lparr>hist := h, files := f\<rparr>" for w :: "'z world_scheme"
  by simp

lemma attempt_Ok: "m w = (Ok x, w') \<Longrightarrow> attempt m w = (Ok (Inr x), w')"
  by (simp add: attempt_def)

lemma attempt_Err: "m w = (Err e, w') \<Longrightarrow> attempt m w = (Ok (Inl e), w')"
  by (simp add: attempt_def)

lemma ignore_Ok: "m w = (Ok x, w') \<Longrightarrow> ignore m w = (Ok (), w')"
  by (simp add: ignore_def attempt_Ok ret_def)

text \<open>The operations on files when the call succeeds.\<close>

lemma files_calm:
  "err_of env (hist w @ [OsCall (OsCreate p)]) = None \<Longrightarrow>
     os_Create env p w = (Ok (), w\<lparr>hist := hist w @ [OsCall (OsCreate p)], files := (files w)(p \<mapsto> [])\<rparr>)"
  "err_of env (hist w @ [OsCall (OsOpen p)]) = None \<Longrightarrow> files w p = Some d \<Longrightarrow>
     os_Open env p w = (Ok (), w\<lparr>hist := hist w @ [OsCall (OsOpen p)]\<rparr>)"
  "err_of env (hist w @ [OsCall (IoCopy q p)]) = None \<Longrightarrow>
     io_Copy env q p w = (Ok (), w\<lparr>hist := hist w @ [OsCall (IoCopy q p)], files := (files w)(q \<mapsto> contents p w)\<rparr>)"
  "err_of env (hist w @ [OsCall (OsClose p)]) = None \<Longrightarrow>
     os_Close env p w = (Ok (), w\<lparr>hist := hist w @ [OsCall (OsClose p)]\<rparr>)"
  "err_of env (hist w @ [OsCall (OsWriteFile p perm)]) = None \<Longrightarrow>
     os_WriteFile env p data perm w = (Ok (), w\<lparr>hist := hist w @ [OsCall (OsWriteFile p perm)], files := (files w)(p \<mapsto> data)\<rparr>)"
  by (simp_all add: os_Create_def os_Open_def io_Copy_def os_Close_def os_WriteFile_def os_do_def Let_def)


definition id_call :: call where "id_call = ExecCall (ExecCombined [''id'', ''-g''])"

definition status_call :: "daemon_record \<Rightarrow> call" where
  "status_call s = ExecCall (ExecOutput [''systemctl'', ''status'', serviceName s @ ''.service''])"

text \<open>The program runs as root; the service is active at the next question.\<close>

definition is_root :: "'e env_scheme \<Rightarrow> call list \<Rightarrow> bool" where
  "is_root env h \<longleftrightarrow> err_of env (h @ [id_call]) = None \<and>
     ParseUint (TrimSpace (str_of env (h @ [id_call]))) 32 = Inr 0"

definition is_active :: "'e env_scheme \<Rightarrow> daemon_record \<Rightarrow> call list \<Rightarrow> bool" where
  "is_active env s h \<longleftrightarrow> err_of env (h @ [status_call s]) = None \<and>
     Contains (str_of env (h @ [status_call s])) ''Active: active''"

lemma combined_run:
  "combined env args w = (let h = hist w @ [ExecCall (ExecCombined args)] in
     (Ok (case err_of env h of Some e \<Rightarrow> Inl e | None \<Rightarrow> Inr (str_of env h)), w\<lparr>hist := h\<rparr>))"
  by (simp add: combined_def attempt_def query_def bind_def perform_def gets_def Let_def split: option.splits)

lemma checkPrivileges_root [simp]:
  "is_root env (hist w) \<Longrightarrow> checkPrivileges env w = (Ok (), w\<lparr>hist := hist w @ [id_call]\<rparr>)"
  by (simp add: checkPrivileges_def combined_run bind_def is_root_def id_call_def ret_def Let_def)

lemma checkPrivileges_denied:
  assumes "\<not> is_root env (hist w)"
  shows "\<exists>e. checkPrivileges env w = (Err e, w\<lparr>hist := hist w @ [id_call]\<rparr>)"
  using assms
  by (auto simp: checkPrivileges_def combined_run bind_def is_root_def id_call_def throw_def Let_def
      split: option.splits sum.splits)

lemma os_Stat_run:
  "os_Stat env p w = (let h = hist w @ [OsCall (OsStat p)] in
     (case err_of env h of Some e \<Rightarrow> Err e | None \<Rightarrow> if files w p = None then Err ErrNotExist else Ok (),
      w\<lparr>hist := h\<rparr>))"
  by (simp add: os_Stat_def os_do_def bind_def perform_def Let_def split: option.splits)

lemma isInstalled_run [simp]:
  "isInstalled env s w = (let h = hist w @ [OsCall (OsStat (daemonFilePath s))] in
     (Ok (err_of env h = None \<and> files w (daemonFilePath s) \<noteq> None), w\<lparr>hist := h\<rparr>))"
  by (simp add: isInstalled_def os_Stat_run attempt_def bind_def ret_def Let_def split: option.splits)

definition status_mes :: "'e env_scheme \<Rightarrow> daemon_record \<Rightarrow> call list \<Rightarrow> string" where
  "status_mes env s h = (if \<not> is_active env s h then serviceName s @ '' is stopped''
     else case find_digits ''Main PID: '' [] (str_of env (h @ [status_call s])) of
         Some pid \<Rightarrow> serviceName s @ '' is running on pid: '' @ pid
       | None \<Rightarrow> serviceName s @ '' is running. but cannot get pid. please report it'')"

lemma isRunnning_run [simp]:
  "isRunnning env s w = (Ok (status_mes env s (hist w), is_active env s (hist w)), w\<lparr>hist := hist w @ [status_call s]\<rparr>)"
  by (cases "err_of env (hist w @ [status_call s])")
     (auto simp: isRunnning_def is_active_def status_mes_def status_call_def attempt_def query_def bind_def gets_def ret_def
       split: option.splits)

lemma run_or_print_calm [simp]:
  "err_of env (hist w @ [ExecCall (ExecCombined args)]) = None \<Longrightarrow>
   run_or_print env args mes w = (Ok (), w\<lparr>hist := hist w @ [ExecCall (ExecCombined args)]\<rparr>)"
  by (simp add: run_or_print_def combined_run bind_def ret_def Let_def)

text \<open>
  What systemctl is documented to do to the files: enabling a service whose unit asks for it
  links the unit into the directory of the target, disabling it removes the link, and to
  reload, start or stop changes no link. The contents of a link stand for its target.
\<close>

definition ctl :: "string list \<Rightarrow> call" where
  "ctl args = ExecCall (ExecCombined (''systemctl'' # args))"

definition enable_link :: "daemon_record \<Rightarrow> string" where
  "enable_link s = ''/etc/systemd/system/multi-user.target.wants/'' @ serviceName s @ ''.service''"

definition wants_start :: "string \<Rightarrow> bool" where
  "wants_start unit = Contains unit ''WantedBy=multi-user.target''"

definition systemd_files :: "daemon_record \<Rightarrow> call \<Rightarrow> (string \<Rightarrow> string option) \<Rightarrow> string \<Rightarrow> string option" where
  "systemd_files s c fs =
     (if c = ctl [''enable'', serviceName s @ ''.service''] then
        (case fs (daemonFilePath s) of
           Some u \<Rightarrow> if wants_start u then fs(enable_link s \<mapsto> daemonFilePath s) else fs
         | None \<Rightarrow> fs)
      else if c = ctl [''disable'', serviceName s @ ''.service''] then fs(enable_link s := None)
      else fs)"

definition systemctl_links :: "'e env_scheme \<Rightarrow> daemon_record \<Rightarrow> bool" where
  "systemctl_links env s \<longleftrightarrow> (\<forall>h c. ctl_files env (h @ [c]) = systemd_files s c)"

lemma systemctl_calm:
  assumes "systemctl_links env s" "err_of env (hist w @ [ctl args]) = None"
  shows "systemctl env args mes w =
    (Ok (), w\<lparr>hist := hist w @ [ctl args], files := systemd_files s (ctl args) (files w)\<rparr>)"
  using assms by (simp add: systemctl_def combined_run ctl_def systemctl_links_def bind_def modify_def ret_def Let_def)

lemma systemd_files_simps [simp]:
  "systemd_files s (ctl [''daemon-reload'']) fs = fs"
  "systemd_files s (ctl [''start'', u]) fs = fs" "systemd_files s (ctl [''stop'', u]) fs = fs"
  "systemd_files s (ctl [''disable'', serviceName s @ ''.service'']) fs = fs(enable_link s := None)"
  "fs (daemonFilePath s) = Some u \<Longrightarrow> systemd_files s (ctl [''enable'', serviceName s @ ''.service'']) fs =
     (if wants_start u then fs(enable_link s \<mapsto> daemonFilePath s) else fs)"
  by (simp_all add: systemd_files_def ctl_def)

lemma sudo_hint_Ok: "m w = (Ok (), w1) \<Longrightarrow> sudo_hint env m w = (Ok (), w1\<lparr>hist := hist w1 @ [OsCall OsGetuid]\<rparr>)"
  by (simp add: sudo_hint_def Let_def)

text \<open>None of the questions touches a file.\<close>

definition files_are :: "(string \<Rightarrow> string option) \<Rightarrow> 'z world_scheme \<Rightarrow> bool" where
  "files_are fs w \<longleftrightarrow> files w = fs"

lemma files_are_hist [simp]: "files_are fs (w\<lparr>hist := h\<rparr>) = files_are fs w"
  by (simp add: files_are_def)

lemma keeps_files_perform [keeps_intros]: "keeps (files_are fs) (perform env c)"
  by (rule keeps_perform) simp

lemma keeps_files_emit [keeps_intros]: "keeps (files_are fs) (emit c)"
  by (rule keeps_emit) simp

lemma keeps_files_combined [keeps_intros]: "keeps (files_are fs) (combined env args)"
  unfolding combined_def by (intro keeps_intros)

lemma keeps_files_run_or_print [keeps_intros]: "keeps (files_are fs) (run_or_print env args mes)"
  unfolding run_or_print_def by (intro keeps_intros)

lemma keeps_files_checkPrivileges [keeps_intros]: "keeps (files_are fs) (checkPrivileges env)"
  unfolding checkPrivileges_def by (intro keeps_intros)

lemma keeps_files_isInstalled [keeps_intros]: "keeps (files_are fs) (isInstalled env s)"
  by (rule keepsI) (simp add: Let_def)

lemma keeps_files_isRunnning [keeps_intros]: "keeps (files_are fs) (isRunnning env s)"
  unfolding isRunnning_def by (intro keeps_intros)

lemma keeps_files_Status: "keeps (files_are fs) (Status env s)"
  unfolding Status_def by (intro keeps_intros)

section \<open>Properties\<close>

text \<open>
  Without root privileges no operation of the daemon has an effect: each fails after the one
  question for the group (\<open>Status\<close> answers so), makes no other call but for the user id in
  \<open>Install\<close>, and leaves every file as it was.
\<close>
theorem unprivileged_changes_nothing:
  assumes "\<not> is_root env (hist w)" "w1 = w\<lparr>hist := hist w @ [id_call]\<rparr>"
  shows "(\<forall>m \<in> {Load, Unload, start, daemon_Stop, Uninstall}. \<exists>e. m env s w = (Err e, w1)) \<and>
    Status env s w = (Ok (nonroot, False), w1) \<and>
    (\<exists>e. Install env s w = (Err e, w1\<lparr>hist := hist w1 @ [OsCall OsGetuid]\<rparr>))"
proof -
  obtain e where e: "checkPrivileges env w = (Err e, w1)"
    using checkPrivileges_denied [OF assms(1)] assms(2) by auto
  then show ?thesis
    by (simp add: Load_def Unload_def start_def daemon_Stop_def Uninstall_def Status_def Install_def Install_body_def sudo_hint_def
        attempt_def bind_def ret_def Let_def)
qed

lemma remove_files_both:
  assumes "\<forall>h. err_of env h = None" "files w (daemonFilePath s) \<noteq> None" "files w (binPath s) \<noteq> None"
    "binPath s \<noteq> daemonFilePath s"
  shows "\<exists>h. remove_files env s w = (Ok (), w\<lparr>hist := h, files := (files w)(daemonFilePath s := None, binPath s := None)\<rparr>)"
  using assms by (auto simp: remove_files_def Remove_run attempt_def bind_def ret_def Let_def)

lemma remove_files_no_unit:
  assumes "err_of env (hist w @ [OsCall (OsRemove (daemonFilePath s))]) = None" "files w (daemonFilePath s) = None"
  shows "remove_files env s w = (Ok (), w\<lparr>hist := hist w @ [OsCall (OsRemove (daemonFilePath s))]\<rparr>)"
  using assms by (simp add: remove_files_def Remove_run attempt_def bind_def ret_def Let_def)

text \<open>The service is taken out of its target only when it runs.\<close>

definition unlinked :: "bool \<Rightarrow> daemon_record \<Rightarrow> (string \<Rightarrow> string option) \<Rightarrow> string \<Rightarrow> string option" where
  "unlinked b s fs = (if b then fs(enable_link s := None) else fs)"

lemma Uninstall_run:
  assumes "\<forall>h. err_of env h = None" "\<forall>h. is_root env h" "\<forall>h. is_active env s h = b" "systemctl_links env s"
    "files w (daemonFilePath s) \<noteq> None" "enable_link s \<noteq> daemonFilePath s"
  shows "\<exists>h. Uninstall env s w = remove_files env s (w\<lparr>hist := h, files := unlinked b s (files w)\<rparr>)"
proof -
  obtain u where u: "files w (daemonFilePath s) = Some u" using assms(5) by blast
  have "\<exists>h. (if b then bind (Unload env s) (\<lambda>_. daemon_Stop env s) else ret ()) (v\<lparr>hist := k\<rparr>) =
      (Ok (), v\<lparr>hist := h, files := unlinked b s (files v)\<rparr>)"
    if "files v (daemonFilePath s) = Some u" for k and v :: "'b world_scheme"
    using assms(1-3,6) that
    by (cases b) (auto simp: Unload_def daemon_Stop_def unlinked_def systemctl_calm [OF assms(4)] ret_def Let_def)
  from this [OF u, of "hist w @ [id_call, status_call s]"] obtain h where
    h: "(if b then bind (Unload env s) (\<lambda>_. daemon_Stop env s) else ret ()) (w\<lparr>hist := hist w @ [id_call, status_call s]\<rparr>) =
      (Ok (), w\<lparr>hist := h, files := unlinked b s (files w)\<rparr>)" by blast
  from assms(1-3) show ?thesis by (intro exI [of _ h]) (simp add: Uninstall_def h)
qed

text \<open>
  An uninstallation as root in which every call succeeds and systemd answers consistently
  removes the unit file and the binary and, when the service runs, the link of its target;
  nothing else changes.
\<close>
theorem Uninstall_removes:
  assumes "\<forall>h. err_of env h = None" "\<forall>h. is_root env h" "\<forall>h. is_active env s h = b" "systemctl_links env s"
    "files w (daemonFilePath s) \<noteq> None" "files w (binPath s) \<noteq> None"
    "distinct [binPath s, daemonFilePath s, enable_link s]"
  shows "\<exists>w'. Uninstall env s w = (Ok (), w') \<and>
    files w' = unlinked b s ((files w)(daemonFilePath s := None, binPath s := None))"
proof -
  have neq: "enable_link s \<noteq> daemonFilePath s" "binPath s \<noteq> daemonFilePath s" "enable_link s \<noteq> binPath s" using assms(7) by auto
  let ?fs = "unlinked b s (files w)"
  obtain h where "Uninstall env s w = remove_files env s (w\<lparr>hist := h, files := ?fs\<rparr>)"
    using Uninstall_run [OF assms(1-5) neq(1)] by blast
  moreover have "?fs (daemonFilePath s) \<noteq> None" "?fs (binPath s) \<noteq> None" using assms(5,6) neq by (simp_all add: unlinked_def)
  then obtain h' where "remove_files env s (w\<lparr>hist := h, files := ?fs\<rparr>) =
      (Ok (), w\<lparr>hist := h', files := ?fs(daemonFilePath s := None, binPath s := None)\<rparr>)"
    using remove_files_both [of env "w\<lparr>hist := h, files := ?fs\<rparr>" s] assms(1) neq by auto
  ultimately show ?thesis using neq by (simp add: unlinked_def fun_upd_twist)
qed

text \<open>
  A unit file that cannot be removed is passed over in silence: when its removal fails for
  any other reason than its absence, the binary is removed all the same and the
  uninstallation reports success, with the unit still enabled and its binary gone.
\<close>
theorem Uninstall_hides_failure:
  assumes "is_root env (hist w)" "h = hist w @ [id_call]" "\<not> is_active env s h"
    "h1 = h @ [status_call s, OsCall (OsRemove (daemonFilePath s))]" "err_of env h1 = Some e" "e \<noteq> ErrNotExist"
    "err_of env (h1 @ [OsCall (OsRemove (binPath s))]) = None" "files w (binPath s) \<noteq> None"
  shows "Uninstall env s w = (Ok (), w\<lparr>hist := h1 @ [OsCall (OsRemove (binPath s))], files := (files w)(binPath s := None)\<rparr>)"
proof -
  obtain d where "files w (binPath s) = Some d" using assms(8) by blast
  with assms(1-7) show ?thesis
    by (simp add: Uninstall_def remove_files_def Remove_run attempt_def ret_def Let_def)
qed

text \<open>An outside in which every call succeeds, the program is root and runs from \<open>exe\<close>.\<close>

definition root_outside :: "'e env_scheme \<Rightarrow> string \<Rightarrow> bool" where
  "root_outside env exe \<longleftrightarrow> (\<forall>h. err_of env h = None \<and> is_root env h \<and> str_of env (h @ [OsCall OsExecutable]) = exe)"

lemma copy_binary_run:
  assumes "root_outside env exe" "files w exe = Some d" "exe \<noteq> binPath s @ ''.tmp''"
  shows "\<exists>h. copy_binary env s w =
    (Ok (), w\<lparr>hist := h, files := (files w)(binPath s @ ''.tmp'' := None, binPath s \<mapsto> d)\<rparr>)"
proof -
  define tmp where "tmp = binPath s @ ''.tmp''"
  have "exe \<noteq> tmp" "binPath s \<noteq> tmp" using assms(3) by (simp_all add: tmp_def)
  moreover have "str_of env (hist w @ [c, OsCall OsExecutable]) = exe" for c
    using assms(1) by (metis root_outside_def append.assoc append_Cons append_Nil)
  ultimately show ?thesis
    unfolding copy_binary_def tmp_def [symmetric]
    using assms(1,2) by (simp add: root_outside_def query_def gets_def files_calm contents_def attempt_Ok ignore_Ok Rename_run Let_def)
       blast
qed

text \<open>The files after a first installation.\<close>

definition installed_files :: "daemon_record \<Rightarrow> string \<Rightarrow> (string \<Rightarrow> string option) \<Rightarrow> string \<Rightarrow> string option" where
  "installed_files s d fs =
     (let fs1 = fs(binPath s @ ''.tmp'' := None, binPath s \<mapsto> d, daemonFilePath s \<mapsto> systemConfig s) in
      if wants_start (systemConfig s) then fs1(enable_link s \<mapsto> daemonFilePath s) else fs1)"

lemma Install_fresh_run:
  assumes "root_outside env exe" "\<forall>h. \<not> is_active env s h" "files w exe = Some d" "exe \<noteq> binPath s @ ''.tmp''"
    "files w (daemonFilePath s) = None" "daemonFilePath s \<notin> {binPath s, binPath s @ ''.tmp''}" "systemctl_links env s"
  shows "\<exists>h. Install env s w = (Ok (),
    w\<lparr>hist := h @ map ctl [[''daemon-reload''], [''enable'', serviceName s @ ''.service'']]
         @ [id_call, status_call s, ctl [''start'', serviceName s @ ''.service''], OsCall OsGetuid],
       files := installed_files s d (files w)\<rparr>)"
proof -
  have env: "\<forall>h. err_of env h = None" "\<forall>h. is_root env h" using assms(1) by (simp_all add: root_outside_def)
  let ?w1 = "w\<lparr>hist := hist w @ [id_call, OsCall (OsStat (daemonFilePath s))]\<rparr>"
  let ?fs = "(files w)(binPath s @ ''.tmp'' := None, binPath s \<mapsto> d)"
  from copy_binary_run [OF assms(1), of ?w1 d s] assms(3,4) obtain h where
    c: "copy_binary env s ?w1 = (Ok (), w\<lparr>hist := h, files := ?fs\<rparr>)" by auto
  have u: "Uninstall env s (w\<lparr>hist := h, files := ?fs\<rparr>) =
      (Ok (), w\<lparr>hist := h @ [id_call, status_call s, OsCall (OsRemove (daemonFilePath s))], files := ?fs\<rparr>)"
    using env assms(2,5,6) by (simp add: Uninstall_def ret_def remove_files_no_unit)
  have inst: "isInstalled env s (w\<lparr>hist := hist w @ [id_call]\<rparr>) = (Ok False, ?w1)"
    using assms(5) by (simp add: Let_def)
  have "Install_body env s w =
    (Ok (), w\<lparr>hist := h @ [id_call, status_call s, OsCall (OsRemove (daemonFilePath s)), OsCall (OsWriteFile (daemonFilePath s) 448),
       id_call, ctl [''daemon-reload''], ctl [''enable'', serviceName s @ ''.service''], id_call, status_call s,
       ctl [''start'', serviceName s @ ''.service'']],
       files := installed_files s d (files w)\<rparr>)"
    using env assms(2,5)
    by (simp add: Install_body_def bind_Ok [where m = "isInstalled env s", OF inst] c u files_calm Load_def start_def
        systemctl_calm [OF assms(7)] installed_files_def Let_def)
  from sudo_hint_Ok [where m = "Install_body env s" and env = env, OF this] show ?thesis
    by (intro exI [of _ "h @ [id_call, status_call s, OsCall (OsRemove (daemonFilePath s)), OsCall (OsWriteFile (daemonFilePath s) 448), id_call]"])
       (simp add: Install_def)
qed


text \<open>
  Installing again changes nothing: once the unit file exists \<open>Install\<close> reports success and
  touches no file, so a newer executable never replaces the installed one.
\<close>
theorem Install_again_changes_nothing:
  assumes "is_root env (hist w)" "files w (daemonFilePath s) \<noteq> None"
    "err_of env (hist w @ [id_call, OsCall (OsStat (daemonFilePath s))]) = None"
  shows "Install env s w = (Ok (), w\<lparr>hist := hist w @ [id_call, OsCall (OsStat (daemonFilePath s)), OsCall OsGetuid]\<rparr>)"
  using assms by (simp add: Install_def Install_body_def sudo_hint_def ret_def Let_def)


section \<open>Witnesses\<close>

text \<open>A host on which the program is root (or not), runs from \<open>/exe\<close>, and the service is stopped;
  the calls that \<open>bad\<close> holds of fail.\<close>

definition daemon1 :: daemon_record where
  "daemon1 = \<lparr>binPath = ''/bin/r'', serviceName = ''r'', daemonFilePath = ''/etc/r.service'', systemConfig = ''WantedBy=multi-user.target''\<rparr>"

definition host_env :: "string \<Rightarrow> (call \<Rightarrow> bool) \<Rightarrow> env" where
  "host_env gid bad = env1\<lparr>err_of := \<lambda>h. if bad (last h) then Some (ErrExt 13) else None,
     str_of := \<lambda>h. if last h = OsCall OsExecutable then ''/exe'' else if last h = id_call then gid else ''Active: inactive'',
     ctl_files := \<lambda>h. systemd_files daemon1 (last h)\<rparr>"

text \<open>The same host for root, with the service running.\<close>

definition running_host :: env where
  "running_host = (host_env ''0'' (\<lambda>_. False))\<lparr>str_of := \<lambda>h. if last h = OsCall OsExecutable then ''/exe''
     else if last h = id_call then ''0'' else ''Active: active''\<rparr>"

definition host_world :: "bool \<Rightarrow> world" where
  "host_world inst = world0\<lparr>files := (\<lambda>_. None)(''/exe'' \<mapsto> ''ELF'',
     ''/bin/r'' := if inst then Some ''old'' else None, ''/etc/r.service'' := if inst then Some ''unit'' else None)\<rparr>"

lemma host_simps [simp]:
  "binPath daemon1 = ''/bin/r''" "daemonFilePath daemon1 = ''/etc/r.service''" "serviceName daemon1 = ''r''"
  "systemConfig daemon1 = ''WantedBy=multi-user.target''"
  "hist (host_world inst) = []" "files (host_world inst) = (\<lambda>_. None)(''/exe'' \<mapsto> ''ELF'',
     ''/bin/r'' := if inst then Some ''old'' else None, ''/etc/r.service'' := if inst then Some ''unit'' else None)"
  by (simp_all add: daemon1_def host_world_def world0_def)

lemma host_facts [simp]:
  "err_of (host_env gid bad) h = (if bad (last h) then Some (ErrExt 13) else None)"
  "\<not> is_active (host_env gid bad) daemon1 h"
  "\<not> bad id_call \<Longrightarrow> is_root (host_env ''0'' bad) h" "\<not> is_root (host_env ''1000'' bad) h"
  "root_outside (host_env ''0'' (\<lambda>_. False)) ''/exe''" "systemctl_links (host_env gid bad) daemon1"
proof -
  have a: "\<not> Contains ''Active: inactive'' ''Active: active''" by code_simp
  have 0: "ParseUint (TrimSpace ''0'') 32 = Inr 0" "ParseUint (TrimSpace ''1000'') 32 = Inr 1000" by code_simp+
  show "err_of (host_env gid bad) h = (if bad (last h) then Some (ErrExt 13) else None)"
    "\<not> is_active (host_env gid bad) daemon1 h"
    "\<not> bad id_call \<Longrightarrow> is_root (host_env ''0'' bad) h" "\<not> is_root (host_env ''1000'' bad) h"
    "root_outside (host_env ''0'' (\<lambda>_. False)) ''/exe''" "systemctl_links (host_env gid bad) daemon1"
    using a 0 by (simp_all add: host_env_def is_active_def is_root_def root_outside_def status_call_def id_call_def systemctl_links_def)
qed

lemma running_host_facts:
  "root_outside running_host ''/exe''" "is_active running_host daemon1 h" "systemctl_links running_host daemon1"
proof -
  have "Contains ''Active: active'' ''Active: active''" "ParseUint (TrimSpace ''0'') 32 = Inr 0" by (code_simp, code_simp)
  then show "root_outside running_host ''/exe''" "is_active running_host daemon1 h" "systemctl_links running_host daemon1"
    by (simp_all add: running_host_def host_env_def is_active_def is_root_def root_outside_def status_call_def id_call_def
        systemctl_links_def)
qed

lemma daemon1_link [simp]:
  "enable_link daemon1 = ''/etc/systemd/system/multi-user.target.wants/r.service''" "wants_start ''WantedBy=multi-user.target''"
  by (simp add: enable_link_def) code_simp

theorem unprivileged_changes_nothing_witness:
  "\<exists>e w'. Uninstall (host_env ''1000'' (\<lambda>_. False)) daemon1 (host_world True) = (Err e, w') \<and> files w' = files (host_world True)"
  using unprivileged_changes_nothing [of "host_env ''1000'' (\<lambda>_. False)" "host_world True" _ daemon1, OF _ refl] by auto

theorem Uninstall_removes_witness:
  "\<exists>w'. Uninstall (host_env ''0'' (\<lambda>_. False)) daemon1 (host_world True) = (Ok (), w') \<and>
     files w' ''/bin/r'' = None \<and> files w' ''/etc/r.service'' = None \<and> files w' ''/exe'' = Some ''ELF''"
  using Uninstall_removes [of "host_env ''0'' (\<lambda>_. False)" daemon1 False "host_world True"]
  by (auto simp: unlinked_def)

theorem Uninstall_hides_failure_witness:
  "\<exists>w'. Uninstall (host_env ''0'' (\<lambda>c. c = OsCall (OsRemove ''/etc/r.service''))) daemon1 (host_world True) = (Ok (), w') \<and>
     files w' ''/bin/r'' = None \<and> files w' ''/etc/r.service'' = Some ''unit''"
  using Uninstall_hides_failure [of "host_env ''0'' (\<lambda>c. c = OsCall (OsRemove ''/etc/r.service''))" "host_world True" _ daemon1 _ "ErrExt 13",
      OF _ refl _ refl]
  by (auto simp: id_call_def)


theorem Install_again_changes_nothing_witness:
  "\<exists>w'. Install (host_env ''0'' (\<lambda>_. False)) daemon1 (host_world True) = (Ok (), w') \<and> files w' ''/bin/r'' = Some ''old''"
  using Install_again_changes_nothing [of "host_env ''0'' (\<lambda>_. False)" "host_world True" daemon1]
  by simp


end
