(* ===== verification/Daemon_Darwin.thy ===== *)
theory Daemon_Darwin
  imports Daemon_Systemd
begin

text \<open>
  \<open>daemon/daemon_darwin.go\<close>: the daemon as a service of launchd. The record, the answers of the
  status and the copying of the binary are those of the other file, word for word; the
  installation here begins with an uninstallation.
\<close>

section \<open>Patterns\<close>

text \<open>A regular expression of plain characters and dots, as the names of the services are, at the
  beginning of a text and anywhere in it.\<close>

fun match_here :: "string \<Rightarrow> string \<Rightarrow> bool" where
  "match_here [] s = True"
| "match_here (p # ps) [] = False"
| "match_here (p # ps) (c # s) = ((if p = CHR ''.'' then c \<noteq> CHR 0x0A else c = p) \<and> match_here ps s)"

fun MatchString :: "string \<Rightarrow> string \<Rightarrow> bool" where
  "MatchString p [] = match_here p []"
| "MatchString p (c # s) = (match_here p (c # s) \<or> MatchString p s)"

section \<open>Operations\<close>

definition darwin_checkPrivileges :: "'e env_scheme \<Rightarrow> ('z world_scheme, unit) go" where
  "darwin_checkPrivileges env = bind (combined env [''id'', ''-g'']) (\<lambda>r. case r of
       Inl _ \<Rightarrow> throw (ErrNew ''unsupport system'')
     | Inr out \<Rightarrow> (case ParseUint (TrimSpace out) 32 of
           Inl _ \<Rightarrow> throw (ErrNew ''unsupport system'')
         | Inr gid \<Rightarrow> if gid = 0 then ret () else throw (ErrNew ''run with root privileges'')))"

definition darwin_isInstalled :: "'e env_scheme \<Rightarrow> daemon_record \<Rightarrow> ('z world_scheme, bool) go" where
  "darwin_isInstalled env d = bind (attempt (os_Stat env (daemonFilePath d))) (\<lambda>r. ret (\<not> isl r))"

definition darwin_isRunnning :: "'e env_scheme \<Rightarrow> daemon_record \<Rightarrow> ('z world_scheme, string \<times> bool) go" where
  "darwin_isRunnning env d = bind (combined env [''launchctl'', ''list'', serviceName d]) (\<lambda>r.
     ret (case r of
       Inl _ \<Rightarrow> (serviceName d @ '' is stopped'', False)
     | Inr out \<Rightarrow>
         if MatchString (serviceName d) out then
           (case find_digits (''PID'' @ CHR 0x22 # '' = '') '';'' out of
              Some pid \<Rightarrow> (serviceName d @ '' is running on pid: '' @ pid, True)
            | None \<Rightarrow> (serviceName d @ '' is running. but cannot get pid. please report it'', True))
         else (serviceName d @ '' is stopped'', False)))"

definition darwin_load :: "'e env_scheme \<Rightarrow> daemon_record \<Rightarrow> ('z world_scheme, unit) go" where
  "darwin_load env d =
     bind (darwin_checkPrivileges env) (\<lambda>_.
     run_or_print env [''launchctl'', ''load'', daemonFilePath d] ''failed to running launchctl load'')"

definition darwin_unload :: "'e env_scheme \<Rightarrow> daemon_record \<Rightarrow> ('z world_scheme, unit) go" where
  "darwin_unload env d =
     bind (darwin_checkPrivileges env) (\<lambda>_.
     bind (darwin_isInstalled env d) (\<lambda>inst. if \<not> inst then throw (ErrNew ''not installed'') else
     bind (darwin_isRunnning env d) (\<lambda>(mes, isRunning). if \<not> isRunning then throw (ErrNew mes) else
     run_or_print env [''launchctl'', ''unload'', daemonFilePath d] ''failed to launchctl unload'')))"

definition darwin_start :: "'e env_scheme \<Rightarrow> daemon_record \<Rightarrow> ('z world_scheme, unit) go" where
  "darwin_start env d =
     bind (darwin_checkPrivileges env) (\<lambda>_.
     bind (darwin_isRunnning env d) (\<lambda>(status, isRunning). if isRunning then throw (ErrNew status) else
     run_or_print env [''launchctl'', ''start'', serviceName d] ''failed to running launchctl start''))"

definition darwin_Stop :: "'e env_scheme \<Rightarrow> daemon_record \<Rightarrow> ('z world_scheme, unit) go" where
  "darwin_Stop env d =
     bind (darwin_checkPrivileges env) (\<lambda>_.
     bind (darwin_isInstalled env d) (\<lambda>inst. if \<not> inst then throw (ErrNew ''not installed'') else
     bind (darwin_isRunnning env d) (\<lambda>(mes, isRunning). if \<not> isRunning then throw (ErrNew mes) else
     run_or_print env [''launchctl'', ''stop'', serviceName d] ''failed to launchctl stop'')))"

definition darwin_Status :: "'e env_scheme \<Rightarrow> daemon_record \<Rightarrow> ('z world_scheme, string \<times> bool) go" where
  "darwin_Status env d =
     bind (attempt (darwin_checkPrivileges env)) (\<lambda>r. case r of Inl _ \<Rightarrow> ret (nonroot, False) | Inr _ \<Rightarrow>
     bind (darwin_isInstalled env d) (\<lambda>inst. if \<not> inst then ret (notinstalled, False) else
     bind (darwin_isRunnning env d) (\<lambda>(_, isRunning). if \<not> isRunning then ret (notrunning, False)
       else ret (running, True))))"

definition darwin_Uninstall :: "'e env_scheme \<Rightarrow> daemon_record \<Rightarrow> ('z world_scheme, unit) go" where
  "darwin_Uninstall env d =
     bind (darwin_checkPrivileges env) (\<lambda>_.
     bind (darwin_isRunnning env d) (\<lambda>(_, isRunning).
     bind (if isRunning then bind (darwin_Stop env d) (\<lambda>_. darwin_unload env d) else ret ()) (\<lambda>_.
     bind (attempt (os_Remove env (daemonFilePath d))) (\<lambda>r.
     if r = Inl ErrNotExist then ret () else
     bind (attempt (os_Remove env (binPath d))) (\<lambda>r. case r of
       Inr _ \<Rightarrow> ret () | Inl e \<Rightarrow> if e = ErrNotExist then ret () else throw e)))))"

definition darwin_copy_binary :: "'e env_scheme \<Rightarrow> daemon_record \<Rightarrow> ('z world_scheme, unit) go" where
  "darwin_copy_binary env d = (let tmpBin = binPath d @ ''.tmp'' in
     bind (perform env (OsCall (OsMkdirAll (Dir (binPath d)) 493))) (\<lambda>_.
     bind (query env (str_of env) (OsCall OsExecutable)) (\<lambda>exePath.
     bind (os_Create env tmpBin) (\<lambda>_.
     bind (attempt (os_Open env exePath)) (\<lambda>r. case r of
       Inl e \<Rightarrow> bind (ignore (os_Close env tmpBin)) (\<lambda>_. throw e)
     | Inr _ \<Rightarrow>
     bind (attempt (io_Copy env tmpBin exePath)) (\<lambda>r.
     bind (ignore (os_Close env exePath)) (\<lambda>_. case r of
       Inl e \<Rightarrow> bind (ignore (os_Close env tmpBin)) (\<lambda>_. throw e)
     | Inr _ \<Rightarrow>
     bind (os_Close env tmpBin) (\<lambda>_.
     bind (perform env (OsCall (OsChmod tmpBin 493))) (\<lambda>_.
     Rename env tmpBin (binPath d))))))))))"

definition darwin_Install_body :: "'e env_scheme \<Rightarrow> daemon_record \<Rightarrow> ('z world_scheme, unit) go" where
  "darwin_Install_body env d =
     bind (darwin_Uninstall env d) (\<lambda>_.
     bind (darwin_copy_binary env d) (\<lambda>_.
     bind (os_WriteFile env (daemonFilePath d) (systemConfig d) 493) (\<lambda>_.
     darwin_load env d)))"

definition darwin_Install :: "'e env_scheme \<Rightarrow> daemon_record \<Rightarrow> ('z world_scheme, unit) go" where
  "darwin_Install env d = sudo_hint env (darwin_Install_body env d)"

section \<open>The questions and the files are those of the other system\<close>

lemma darwin_same [simp]:
  "darwin_checkPrivileges env = checkPrivileges env" "darwin_isInstalled env d = isInstalled env d"
  "darwin_copy_binary env d = copy_binary env d"
  by (simp_all add: darwin_checkPrivileges_def checkPrivileges_def darwin_isInstalled_def isInstalled_def
      darwin_copy_binary_def copy_binary_def)

definition list_call :: "daemon_record \<Rightarrow> call" where
  "list_call d = ExecCall (ExecCombined [''launchctl'', ''list'', serviceName d])"

text \<open>The service is listed at the next question.\<close>

definition is_listed :: "'e env_scheme \<Rightarrow> daemon_record \<Rightarrow> call list \<Rightarrow> bool" where
  "is_listed env d h \<longleftrightarrow> err_of env (h @ [list_call d]) = None \<and>
     MatchString (serviceName d) (str_of env (h @ [list_call d]))"

definition list_mes :: "'e env_scheme \<Rightarrow> daemon_record \<Rightarrow> call list \<Rightarrow> string" where
  "list_mes env d h = (if \<not> is_listed env d h then serviceName d @ '' is stopped''
     else case find_digits (''PID'' @ CHR 0x22 # '' = '') '';'' (str_of env (h @ [list_call d])) of
         Some pid \<Rightarrow> serviceName d @ '' is running on pid: '' @ pid
       | None \<Rightarrow> serviceName d @ '' is running. but cannot get pid. please report it'')"

lemma darwin_running [simp]:
  "darwin_isRunnning env d w = (Ok (list_mes env d (hist w), is_listed env d (hist w)), w\<lparr>hist := hist w @ [list_call d]\<rparr>)"
  by (cases "err_of env (hist w @ [list_call d])")
     (auto simp: darwin_isRunnning_def combined_run is_listed_def list_mes_def list_call_def bind_def ret_def Let_def
       split: option.splits)

lemma darwin_Uninstall_run:
  assumes "\<forall>h. err_of env h = None" "\<forall>h. is_root env h" "\<forall>h. is_listed env d h = b"
    "files w (daemonFilePath d) = Some u"
  shows "\<exists>h. darwin_Uninstall env d w = remove_files env d (w\<lparr>hist := h\<rparr>)"
proof -
  have "\<exists>h. (if b then bind (darwin_Stop env d) (\<lambda>_. darwin_unload env d) else ret ()) (v\<lparr>hist := k\<rparr>) = (Ok (), v\<lparr>hist := h\<rparr>)"
    if "files v (daemonFilePath d) = Some u" for k and v :: "'b world_scheme"
    using assms(1-3) that by (cases b) (auto simp: darwin_unload_def darwin_Stop_def ret_def Let_def)
  from this [OF assms(4), of "hist w @ [id_call, list_call d]"] assms(1-3) show ?thesis
    by (auto simp: darwin_Uninstall_def remove_files_def)
qed

section \<open>Properties\<close>

text \<open>
  C40. Installing again from the installed binary destroys it: the installation first removes
  the service file and the binary it runs from, then cannot open that binary for the copy
  and fails, leaving neither of the two and an empty temporary file.
\<close>
theorem darwin_reinstall_destroys:
  assumes "root_outside env (binPath d)" "\<forall>h. is_listed env d h = b" "files w (daemonFilePath d) = Some u"
    "files w (binPath d) = Some x" "binPath d \<noteq> daemonFilePath d" "\<forall>h. int_of env h = 0"
  shows "\<exists>w'. darwin_Install env d w = (Err ErrNotExist, w') \<and>
    files w' = (files w)(daemonFilePath d := None, binPath d := None, binPath d @ ''.tmp'' \<mapsto> [])"
proof -
  have env: "\<forall>h. err_of env h = None" "\<forall>h. is_root env h" using assms(1) by (simp_all add: root_outside_def)
  define fs where "fs = (files w)(daemonFilePath d := None, binPath d := None)"
  obtain h0 where h0: "darwin_Uninstall env d w = remove_files env d (w\<lparr>hist := h0\<rparr>)"
    using darwin_Uninstall_run [OF env assms(2,3)] by blast
  from remove_files_both [OF env(1), of "w\<lparr>hist := h0\<rparr>" d] assms(3-5) h0 obtain h where
    un: "darwin_Uninstall env d w = (Ok (), w\<lparr>hist := h, files := fs\<rparr>)" by (auto simp: fs_def)
  define tmp where "tmp = binPath d @ ''.tmp''"
  have neq: "binPath d \<noteq> tmp" by (simp add: tmp_def)
  have exe: "str_of env (h @ [c, OsCall OsExecutable]) = binPath d" for c
    using assms(1) by (metis root_outside_def append.assoc append_Cons append_Nil)
  have miss: "os_Open env (binPath d) v = (Err ErrNotExist, v\<lparr>hist := hist v @ [OsCall (OsOpen (binPath d))]\<rparr>)"
    if "files v (binPath d) = None" for v :: "'b world_scheme"
    using env that by (simp add: os_Open_def os_do_def)
  have "\<exists>h'. copy_binary env d (w\<lparr>hist := h, files := fs\<rparr>) = (Err ErrNotExist, w\<lparr>hist := h', files := fs(tmp \<mapsto> [])\<rparr>)"
    using env(1) neq unfolding copy_binary_def tmp_def [symmetric]
    by (simp add: query_def gets_def files_calm exe attempt_Err [OF miss] ignore_Ok throw_def Let_def fs_def files_hist) blast
  then obtain h' where "copy_binary env d (w\<lparr>hist := h, files := fs\<rparr>) = (Err ErrNotExist, w\<lparr>hist := h', files := fs(tmp \<mapsto> [])\<rparr>)"
    by blast
  then have "darwin_Install_body env d w = (Err ErrNotExist, w\<lparr>hist := h', files := fs(tmp \<mapsto> [])\<rparr>)"
    by (simp add: darwin_Install_body_def un)
  then show ?thesis
    using assms(6) by (simp add: darwin_Install_def sudo_hint_def Let_def fs_def tmp_def)
qed

text \<open>
  From any other place, an installation on darwin replaces an installed binary and service
  file, whether the service runs or not, and touches nothing else.
\<close>
theorem darwin_Install_replaces:
  assumes "root_outside env exe" "\<forall>h. is_listed env d h = b" "files w (daemonFilePath d) = Some u"
    "files w (binPath d) = Some x" "files w exe = Some y" "exe \<notin> {binPath d, daemonFilePath d, binPath d @ ''.tmp''}"
    "binPath d \<noteq> daemonFilePath d" "daemonFilePath d \<noteq> binPath d @ ''.tmp''"
  shows "\<exists>w'. darwin_Install env d w = (Ok (), w') \<and>
    files w' = (files w)(binPath d @ ''.tmp'' := None, binPath d \<mapsto> y, daemonFilePath d \<mapsto> systemConfig d)"
proof -
  have env: "\<forall>h. err_of env h = None" "\<forall>h. is_root env h" using assms(1) by (simp_all add: root_outside_def)
  define fs where "fs = (files w)(daemonFilePath d := None, binPath d := None)"
  obtain h0 where h0: "darwin_Uninstall env d w = remove_files env d (w\<lparr>hist := h0\<rparr>)"
    using darwin_Uninstall_run [OF env assms(2,3)] by blast
  from remove_files_both [OF env(1), of "w\<lparr>hist := h0\<rparr>" d] assms(3,4,7) h0 obtain h where
    un: "darwin_Uninstall env d w = (Ok (), w\<lparr>hist := h, files := fs\<rparr>)" by (auto simp: fs_def)
  have "files (w\<lparr>hist := h, files := fs\<rparr>) exe = Some y" using assms(5,6) by (simp add: fs_def)
  from copy_binary_run [OF assms(1) this, of d] assms(6) obtain h' where
    "copy_binary env d (w\<lparr>hist := h, files := fs\<rparr>) =
      (Ok (), w\<lparr>hist := h', files := fs(binPath d @ ''.tmp'' := None, binPath d \<mapsto> y)\<rparr>)" by auto
  then have "\<exists>h''. darwin_Install_body env d w = (Ok (), w\<lparr>hist := h'',
      files := fs(binPath d @ ''.tmp'' := None, binPath d \<mapsto> y, daemonFilePath d \<mapsto> systemConfig d)\<rparr>)"
    using env by (simp add: darwin_Install_body_def un files_calm darwin_load_def files_hist) blast
  then obtain h'' where "darwin_Install_body env d w = (Ok (), w\<lparr>hist := h'',
      files := fs(binPath d @ ''.tmp'' := None, binPath d \<mapsto> y, daemonFilePath d \<mapsto> systemConfig d)\<rparr>)" by blast
  from sudo_hint_Ok [where m = "darwin_Install_body env d" and env = env, OF this] show ?thesis
    using assms(7,8) by (auto simp: darwin_Install_def fs_def fun_eq_iff)
qed

section \<open>Witnesses\<close>

text \<open>A host on which the program is root and runs from \<open>exe\<close>.\<close>

definition mac_env :: "string \<Rightarrow> env" where
  "mac_env exe = env1\<lparr>int_of := \<lambda>h. 0, str_of := \<lambda>h. if last h = OsCall OsExecutable then exe else ''0''\<rparr>"

lemma mac_facts [simp]:
  "root_outside (mac_env exe) exe" "\<not> is_listed (mac_env exe) daemon1 h" "int_of (mac_env exe) h = 0"
proof -
  have 0: "ParseUint (TrimSpace ''0'') 32 = Inr 0" "\<not> MatchString ''r'' ''0''" by code_simp+
  show "root_outside (mac_env exe) exe" "\<not> is_listed (mac_env exe) daemon1 h" "int_of (mac_env exe) h = 0"
    using 0 by (simp_all add: mac_env_def root_outside_def is_listed_def is_root_def id_call_def list_call_def env1_def env0_def daemon1_def)
qed

theorem darwin_reinstall_destroys_witness:
  "\<exists>w'. darwin_Install (mac_env ''/bin/r'') daemon1 (host_world True) = (Err ErrNotExist, w') \<and>
     files w' ''/bin/r'' = None \<and> files w' ''/etc/r.service'' = None"
  using darwin_reinstall_destroys [of "mac_env ''/bin/r''" daemon1 False "host_world True" "''unit''" "''old''"] by auto

theorem darwin_Install_replaces_witness:
  "\<exists>w'. darwin_Install (mac_env ''/exe'') daemon1 (host_world True) = (Ok (), w') \<and> files w' ''/bin/r'' = Some ''ELF''"
  using darwin_Install_replaces [of "mac_env ''/exe''" "''/exe''" daemon1 False "host_world True" "''unit''" "''old''" "''ELF''"] by auto

end
