(* ===== verification/Daemon.thy ===== *)
theory Daemon
  imports Daemon_Darwin
begin

text \<open>
  \<open>daemon/daemon.go\<close>, \<open>daemon_linux.go\<close> and the constants of \<open>daemon/runetale\<close> and
  \<open>daemon/runetaled\<close>: which init system the daemon is a service of, the init systems without
  support, whose operations do nothing, and the interface the commands use. The locale
  \<open>daemon_service\<close> is the contract of that interface.
\<close>

section \<open>Init systems without support\<close>

text \<open>\<open>daemon_linux_systemv.go\<close>. The deferred function of \<open>Install\<close> reads the user id.\<close>

definition systemv_Install :: "'e env_scheme \<Rightarrow> daemon_record \<Rightarrow> ('z world_scheme, unit) go" where
  "systemv_Install env d = sudo_hint env (ret ())"

definition systemv_Uninstall :: "daemon_record \<Rightarrow> ('w, unit) go" where "systemv_Uninstall d = ret ()"
definition systemv_Load :: "daemon_record \<Rightarrow> ('w, unit) go" where "systemv_Load d = ret ()"
definition systemv_Unload :: "daemon_record \<Rightarrow> ('w, unit) go" where "systemv_Unload d = ret ()"
definition systemv_Start :: "daemon_record \<Rightarrow> ('w, unit) go" where "systemv_Start d = ret ()"
definition systemv_Stop :: "daemon_record \<Rightarrow> ('w, unit) go" where "systemv_Stop d = ret ()"
definition systemv_Status :: "daemon_record \<Rightarrow> ('w, string \<times> bool) go" where "systemv_Status d = ret ([], False)"
definition systemv_IsInstalled :: "daemon_record \<Rightarrow> ('w, bool) go" where "systemv_IsInstalled d = ret False"
definition systemv_IsRunnning :: "daemon_record \<Rightarrow> ('w, string \<times> bool) go" where "systemv_IsRunnning d = ret ([], False)"

text \<open>\<open>daemon_linux_upstart.go\<close>.\<close>

definition upstart_Install :: "'e env_scheme \<Rightarrow> daemon_record \<Rightarrow> ('z world_scheme, unit) go" where
  "upstart_Install env d = sudo_hint env (ret ())"

definition upstart_Uninstall :: "daemon_record \<Rightarrow> ('w, unit) go" where "upstart_Uninstall d = ret ()"
definition upstart_Load :: "daemon_record \<Rightarrow> ('w, unit) go" where "upstart_Load d = ret ()"
definition upstart_Unload :: "daemon_record \<Rightarrow> ('w, unit) go" where "upstart_Unload d = ret ()"
definition upstart_Start :: "daemon_record \<Rightarrow> ('w, unit) go" where "upstart_Start d = ret ()"
definition upstart_Stop :: "daemon_record \<Rightarrow> ('w, unit) go" where "upstart_Stop d = ret ()"
definition upstart_Status :: "daemon_record \<Rightarrow> ('w, string \<times> bool) go" where "upstart_Status d = ret ([], False)"
definition upstart_IsInstalled :: "daemon_record \<Rightarrow> ('w, bool) go" where "upstart_IsInstalled d = ret False"
definition upstart_IsRunnning :: "daemon_record \<Rightarrow> ('w, string \<times> bool) go" where "upstart_IsRunnning d = ret ([], False)"

section \<open>The interface\<close>

datatype Daemon = SystemD daemon_record | Upstart daemon_record | SystemV daemon_record | Launchd daemon_record

definition newDaemon_linux :: "'e env_scheme \<Rightarrow> daemon_record \<Rightarrow> ('z world_scheme, Daemon) go" where
  "newDaemon_linux env d =
     bind (attempt (perform env (OsCall (OsStat ''/run/systemd/system'')))) (\<lambda>r. case r of
       Inr _ \<Rightarrow> ret (SystemD d)
     | Inl _ \<Rightarrow>
     bind (attempt (perform env (OsCall (OsStat ''/sbin/initctl'')))) (\<lambda>r. case r of
       Inr _ \<Rightarrow> ret (Upstart d)
     | Inl _ \<Rightarrow> ret (SystemV d)))"

definition newDaemon_darwin :: "daemon_record \<Rightarrow> ('w, Daemon) go" where
  "newDaemon_darwin d = ret (Launchd d)"

definition NewDaemon :: "'e env_scheme \<Rightarrow> daemon_record \<Rightarrow> ('z world_scheme, Daemon) go" where
  "NewDaemon env d = (if goos env = ''darwin'' then newDaemon_darwin d else newDaemon_linux env d)"

definition Daemon_Install :: "'e env_scheme \<Rightarrow> Daemon \<Rightarrow> ('z world_scheme, unit) go" where
  "Daemon_Install env d = (case d of SystemD s \<Rightarrow> Install env s | Upstart s \<Rightarrow> upstart_Install env s
     | SystemV s \<Rightarrow> systemv_Install env s | Launchd s \<Rightarrow> darwin_Install env s)"

definition Daemon_Uninstall :: "'e env_scheme \<Rightarrow> Daemon \<Rightarrow> ('z world_scheme, unit) go" where
  "Daemon_Uninstall env d = (case d of SystemD s \<Rightarrow> Uninstall env s | Upstart s \<Rightarrow> upstart_Uninstall s
     | SystemV s \<Rightarrow> systemv_Uninstall s | Launchd s \<Rightarrow> darwin_Uninstall env s)"

definition Daemon_Status :: "'e env_scheme \<Rightarrow> Daemon \<Rightarrow> ('z world_scheme, string \<times> bool) go" where
  "Daemon_Status env d = (case d of SystemD s \<Rightarrow> Status env s | Upstart s \<Rightarrow> upstart_Status s
     | SystemV s \<Rightarrow> systemv_Status s | Launchd s \<Rightarrow> darwin_Status env s)"

section \<open>The constants of the two programs\<close>

definition unlines :: "string list \<Rightarrow> string" where
  "unlines ls = concat (map (\<lambda>l. l @ [CHR 0x0A]) ls)"

definition runetaled_linux :: daemon_record where
  "runetaled_linux = \<lparr>binPath = ''/usr/bin/runetaled'', serviceName = ''runetaled'',
     daemonFilePath = ''/etc/systemd/system/runetaled.service'',
     systemConfig = unlines [''[Unit]'', ''Description=runetale daemon'', ''Requires=NetworkManager.service'',
       ''After=network-online.target'', ''Wants=network-online.target systemd-networkd-wait-online.service'', [],
       ''[Service]'', ''User=root'', ''Type=simple'', ''ExecStart=/usr/bin/runetaled up -daemon=false'',
       ''Restart=on-failure'', ''RestartSec=15s'', [], ''[Install]'', ''WantedBy=multi-user.target'']\<rparr>"

definition runetale_linux :: daemon_record where
  "runetale_linux = \<lparr>binPath = ''/usr/bin/runetale'', serviceName = ''runetale'',
     daemonFilePath = ''/etc/systemd/system/runetale.service'',
     systemConfig = unlines [''[Unit]'', ''Description=runetale daemon'', ''Requires=NetworkManager.service'',
       ''After=network-online.target'', ''Wants=network-online.target systemd-networkd-wait-online.service'', [],
       ''[Service]'', ''User=root'', ''Type=simple'', ''ExecStart=/usr/bin/runetale up'',
       ''Restart=on-failure'', ''RestartSec=15s'', [], ''[Install]'', ''WantedBy=multi-user.target'']\<rparr>"

definition runetaled_darwin :: daemon_record where
  "runetaled_darwin = \<lparr>binPath = ''/usr/local/bin/runetaled'', serviceName = ''com.runetale.runetaled'',
     daemonFilePath = ''/Library/LaunchDaemons/com.runetale.runetaled.plist'',
     systemConfig = unlines [[], ''<?xml version=\"1.0\" encoding=\"UTF-8\"?>'',
       ''<!DOCTYPE plist PUBLIC \"-//Apple//DTD PLIST 1.0//EN\" \"http://www.apple.com/DTDs/PropertyList-1.0.dtd\">'',
       ''<plist version=\"1.0\">'', ''<dict>'', [], ''  <key>Label</key>'', ''  <string>com.runetale.runetaled</string>'', [],
       ''  <key>ProgramArguments</key>'', ''  <array>'', ''    <string>/usr/local/bin/runetaled</string>'',
       ''    <string>up</string>'', ''    <string>-daemon=false</string>'', ''  </array>'', [],
       ''  <key>RunAtLoad</key>'', ''  <true/>'', [], ''  <key>KeepAlive</key>'', ''  <true/>'', [],
       ''  <key>StartInterval</key>'', ''    <integer>5</integer>'', [],
       ''  <key>StandardErrorPath</key>'', ''  <string>/usr/local/var/log/runetaled.err</string>'',
       ''  <key>StandardOutPath</key>'', ''  <string>/usr/local/var/log/runetaled.log</string>'', [],
       ''</dict>'', ''</plist>'']\<rparr>"

definition runetale_darwin :: daemon_record where
  "runetale_darwin = \<lparr>binPath = ''/usr/local/bin/runetale'', serviceName = ''com.runetale.runetale'',
     daemonFilePath = ''/Library/LaunchDaemons/com.runetale.runetale.plist'',
     systemConfig = unlines [[], ''<?xml version=\"1.0\" encoding=\"UTF-8\"?>'',
       ''<!DOCTYPE plist PUBLIC \"-//Apple//DTD PLIST 1.0//EN\" \"http://www.apple.com/DTDs/PropertyList-1.0.dtd\">'',
       ''<plist version=\"1.0\">'', ''<dict>'', [], ''  <key>Label</key>'', ''  <string>com.runetale.runetale</string>'', [],
       ''  <key>ProgramArguments</key>'', ''  <array>'', ''    <string>/usr/local/bin/runetale</string>'',
       ''    <string>up</string>'', ''  </array>'', [], ''  <key>RunAtLoad</key><true/>'',
       ''  <key>StartInterval</key>'', ''  <integer>5</integer>'', [],
       ''  <key>StandardErrorPath</key>'', ''  <string>/usr/local/var/log/runetale.err</string>'',
       ''  <key>StandardOutPath</key>'', ''  <string>/usr/local/var/log/runetale.log</string>'',
       ''</dict>'', ''</plist>'']\<rparr>"

text \<open>The package \<open>daemon/runetaled\<close> of the system the program is built for.\<close>

definition dd :: "'e env_scheme \<Rightarrow> daemon_record" where
  "dd env = (if goos env = ''darwin'' then runetaled_darwin else runetaled_linux)"

text \<open>Both units ask systemd to start the service with the system, and neither is a link.\<close>

lemma Contains_suffix: "Contains t p \<Longrightarrow> Contains (s @ t) p"
  by (induction s) auto

lemma Contains_prefix: "HasPrefix s p \<Longrightarrow> Contains s p"
  by (cases s) (auto simp: HasPrefix_def)

lemma wants_start_unlines:
  assumes "''WantedBy=multi-user.target'' \<in> set ls"
  shows "wants_start (unlines ls)"
proof -
  obtain xs ys where "ls = xs @ ''WantedBy=multi-user.target'' # ys" using assms by (meson split_list)
  then have "unlines ls = unlines xs @ ''WantedBy=multi-user.target'' @ CHR 0x0A # unlines ys" by (simp add: unlines_def)
  then show ?thesis
    unfolding wants_start_def by (metis Contains_suffix Contains_prefix HasPrefix_append)
qed

lemma runetaled_wants_start:
  "wants_start (systemConfig runetaled_linux)" "wants_start (systemConfig runetale_linux)"
  "distinct [binPath runetaled_linux, daemonFilePath runetaled_linux, enable_link runetaled_linux]"
  by (simp_all add: runetaled_linux_def runetale_linux_def wants_start_unlines enable_link_def)

section \<open>The contract\<close>

text \<open>How a command reports an operation of the service that succeeded.\<close>

definition report :: "('z world_scheme, unit) go \<Rightarrow> string \<Rightarrow> ('z world_scheme, unit) go" where
  "report m mes = bind m (\<lambda>_. emit (Println mes))"

text \<open>The three operations return, asking for the status touches no file, and without root
  privileges none of them does.\<close>

locale daemon_service =
  fixes install :: "('z world_scheme, unit) go"
    and uninstall :: "('z world_scheme, unit) go"
    and status :: "('z world_scheme, string \<times> bool) go"
    and root :: "call list \<Rightarrow> bool"
  assumes status_files: "keeps (files_are fs) status"
    and install_denied: "\<not> root (hist w) \<Longrightarrow> files (snd (install w)) = files w"
    and uninstall_denied: "\<not> root (hist w) \<Longrightarrow> files (snd (uninstall w)) = files w"
    and status_Ok: "\<exists>s w'. status w = (Ok s, w')"
begin

lemma report_denied:
  assumes "\<not> root (hist w)" "m = install \<or> m = uninstall"
  shows "files (snd (report m mes w)) = files w"
proof -
  obtain r w' where m: "m w = (r, w')" by (cases "m w")
  with assms install_denied [of w] uninstall_denied [of w] have "files w' = files w" by auto
  with m show ?thesis by (cases r) (simp_all add: report_def)
qed

lemma status_same: "files (snd (status w)) = files w"
  using keepsD [OF status_files, of "files w" w] by (simp add: files_are_def)

end

lemma Install_denied: "\<not> is_root env (hist w) \<Longrightarrow> files (snd (Install env s w)) = files w"
  using checkPrivileges_denied [of env w] by (auto simp: Install_def Install_body_def sudo_hint_def Let_def)

lemma Uninstall_denied: "\<not> is_root env (hist w) \<Longrightarrow> files (snd (Uninstall env s w)) = files w"
  using checkPrivileges_denied [of env w] by (auto simp: Uninstall_def)

lemma darwin_denied:
  "\<not> is_root env (hist w) \<Longrightarrow> files (snd (darwin_Install env s w)) = files w"
  "\<not> is_root env (hist w) \<Longrightarrow> files (snd (darwin_Uninstall env s w)) = files w"
  using checkPrivileges_denied [of env w]
  by (auto simp: darwin_Install_def darwin_Install_body_def darwin_Uninstall_def sudo_hint_def Let_def)

lemma Status_run: "\<exists>s w'. Status env d w = (Ok s, w')"
  by (cases "is_root env (hist w)")
     (auto simp: Status_def attempt_Ok attempt_Err ret_def Let_def dest!: checkPrivileges_denied)

lemma darwin_Status_run: "\<exists>s w'. darwin_Status env d w = (Ok s, w')"
  by (cases "is_root env (hist w)")
     (auto simp: darwin_Status_def attempt_Ok attempt_Err ret_def Let_def dest!: checkPrivileges_denied)

lemma keeps_files_darwin_running [keeps_intros]: "keeps (files_are fs) (darwin_isRunnning env d)"
  by (rule keepsI) simp

lemma keeps_files_darwin_Status: "keeps (files_are fs) (darwin_Status env d)"
  unfolding darwin_Status_def darwin_same by (intro keeps_intros)

lemma stub_files:
  "files (snd (sudo_hint env (ret ()) w)) = files w" "files (snd (ret () w)) = files w"
  by (simp_all add: sudo_hint_def ret_def Let_def)

lemmas stub_defs = upstart_Install_def systemv_Install_def upstart_Uninstall_def systemv_Uninstall_def
  upstart_Status_def systemv_Status_def

interpretation dsv: daemon_service "Daemon_Install env d" "Daemon_Uninstall env d" "Daemon_Status env d" "is_root env" for env d
proof
  show "keeps (files_are fs) (Daemon_Status env d)" for fs
    by (cases d) (simp_all add: Daemon_Status_def stub_defs keeps_files_Status keeps_files_darwin_Status keeps_ret)
  show "\<not> is_root env (hist w) \<Longrightarrow> files (snd (Daemon_Install env d w)) = files w"
    "\<not> is_root env (hist w) \<Longrightarrow> files (snd (Daemon_Uninstall env d w)) = files w" for w
    by (cases d; simp add: Daemon_Install_def Daemon_Uninstall_def stub_defs stub_files Install_denied Uninstall_denied darwin_denied)+
  show "\<exists>s w'. Daemon_Status env d w = (Ok s, w')" for w
    using Status_run darwin_Status_run by (cases d) (simp_all add: Daemon_Status_def stub_defs ret_def, blast+)
qed

section \<open>Properties\<close>

text \<open>
  On a linux system with neither systemd nor upstart, and on one with upstart, installing the
  daemon reports success and installs nothing, and the status says that it does not run.
\<close>
theorem unsupported_init_installs_nothing:
  assumes "goos env \<noteq> ''darwin''" "err_of env (hist w @ [OsCall (OsStat ''/run/systemd/system'')]) \<noteq> None"
  shows "\<exists>d w1 w2. NewDaemon env (dd env) w = (Ok d, w1) \<and> Daemon_Install env d w1 = (Ok (), w2) \<and> files w2 = files w \<and>
    Daemon_Status env d w2 = (Ok ([], False), w2)"
proof -
  let ?h = "hist w @ [OsCall (OsStat ''/run/systemd/system''), OsCall (OsStat ''/sbin/initctl'')]"
  let ?d = "if err_of env ?h = None then Upstart (dd env) else SystemV (dd env)"
  have 1: "NewDaemon env (dd env) w = (Ok ?d, w\<lparr>hist := ?h\<rparr>)"
    using assms by (auto simp: NewDaemon_def newDaemon_linux_def attempt_def bind_def perform_def ret_def Let_def split: option.splits)
  have 2: "Daemon_Install env ?d v = (Ok (), v\<lparr>hist := hist v @ [OsCall OsGetuid]\<rparr>)" for v :: "'b world_scheme"
    by (simp add: Daemon_Install_def stub_defs sudo_hint_def ret_def Let_def)
  have 3: "Daemon_Status env ?d v = (Ok ([], False), v)" for v :: "'b world_scheme"
    by (simp add: Daemon_Status_def stub_defs ret_def)
  show ?thesis
    using 1 2 [of "w\<lparr>hist := ?h\<rparr>"] 3 by (intro exI [of _ ?d]) auto
qed

theorem unsupported_init_installs_nothing_witness:
  "\<exists>d w1 w2. NewDaemon env0 (dd env0) world0 = (Ok d, w1) \<and> Daemon_Install env0 d w1 = (Ok (), w2) \<and> files w2 = files world0"
  using unsupported_init_installs_nothing [of env0 world0] by (auto simp: env0_def)

end
