(* ===== verification/Flags.thy ===== *)
theory Flags
  imports Flag_Port Fs
begin

text \<open>
  The variables of the commands in \<open>cmd/runetale/cmd\<close> and \<open>cmd/runetaled/cmd\<close> and the flags
  bound to them with the standard library's \<open>flag\<close>. A flag has a name, a default, which is
  stored when the package is initialised, and a function that stores a value. Which command and
  which flags a command line names is found by \<open>ffcli\<close>, which is not part of the repository:
  the commands get its answer, a list of flags with their values in the order given.
\<close>

section \<open>Flags\<close>

datatype flag_value = StringV string | Int64V "64 word" | BoolV bool

record 'g flag =
  f_name :: string
  f_default :: flag_value
  f_set :: "flag_value \<Rightarrow> 'g \<Rightarrow> 'g"

definition StringVar :: "(string \<Rightarrow> 'g \<Rightarrow> 'g) \<Rightarrow> string \<Rightarrow> string \<Rightarrow> 'g flag" where
  "StringVar p name d = \<lparr>f_name = name, f_default = StringV d, f_set = \<lambda>v g. case v of StringV s \<Rightarrow> p s g | _ \<Rightarrow> g\<rparr>"

definition Int64Var :: "(64 word \<Rightarrow> 'g \<Rightarrow> 'g) \<Rightarrow> string \<Rightarrow> 64 word \<Rightarrow> 'g flag" where
  "Int64Var p name d = \<lparr>f_name = name, f_default = Int64V d, f_set = \<lambda>v g. case v of Int64V n \<Rightarrow> p n g | _ \<Rightarrow> g\<rparr>"

definition BoolVar :: "(bool \<Rightarrow> 'g \<Rightarrow> 'g) \<Rightarrow> string \<Rightarrow> bool \<Rightarrow> 'g flag" where
  "BoolVar p name d = \<lparr>f_name = name, f_default = BoolV d, f_set = \<lambda>v g. case v of BoolV b \<Rightarrow> p b g | _ \<Rightarrow> g\<rparr>"

definition declare_flags :: "'g flag list \<Rightarrow> 'g \<Rightarrow> 'g" where
  "declare_flags fs = fold (\<lambda>f. f_set f (f_default f)) fs"

text \<open>A name that is no flag of the command is refused by the parser and never arrives here.\<close>

fun assign_flag :: "'g flag list \<Rightarrow> string \<times> flag_value \<Rightarrow> 'g \<Rightarrow> 'g" where
  "assign_flag fs (n, v) = (case find (\<lambda>f. f_name f = n) fs of None \<Rightarrow> id | Some f \<Rightarrow> f_set f v)"

definition assign_flags :: "'g flag list \<Rightarrow> (string \<times> flag_value) list \<Rightarrow> 'g \<Rightarrow> 'g" where
  "assign_flags fs vs = fold (assign_flag fs) vs"

section \<open>Variables\<close>

record common_args =
  logFile :: string
  logLevel :: string
  debug :: bool

record host_args = common_args +
  serverHost :: string
  serverPort :: "64 word"
  signalHost :: string
  signalPort :: "64 word"

record node_args = host_args +
  clientPath :: string

record up_args = node_args +
  accessToken :: string      \<comment> \<open>of \<open>runetale up\<close> and \<open>runetale login\<close>\<close>

record daemon_up_args = node_args +
  asDaemon :: bool           \<comment> \<open>of \<open>runetaled up\<close>\<close>

record runetaled_vars =
  upArgs :: daemon_up_args
  downArgs :: host_args
  daemonArgs :: common_args
  statusArgs :: common_args

record runetale_vars =
  r_upArgs :: up_args
  r_loginArgs :: up_args
  r_downArgs :: common_args

text \<open>The zero values before the package is initialised.\<close>

definition zero_common :: common_args where "zero_common = \<lparr>logFile = [], logLevel = [], debug = False\<rparr>"

definition zero_host :: host_args where
  "zero_host = common_args.extend zero_common (host_args.fields [] 0 [] 0)"

definition zero_node :: node_args where "zero_node = host_args.extend zero_host (node_args.fields [])"

definition runetaled_zero :: runetaled_vars where
  "runetaled_zero = \<lparr>upArgs = node_args.extend zero_node (daemon_up_args.fields False), downArgs = zero_host,
     daemonArgs = zero_common, statusArgs = zero_common\<rparr>"

definition runetale_zero :: runetale_vars where
  "runetale_zero = \<lparr>r_upArgs = node_args.extend zero_node (up_args.fields []),
     r_loginArgs = node_args.extend zero_node (up_args.fields []), r_downArgs = zero_common\<rparr>"

section \<open>The flags of runetaled\<close>

abbreviation set_to :: "(('a \<Rightarrow> 'a) \<Rightarrow> 'r \<Rightarrow> 'r) \<Rightarrow> (('r \<Rightarrow> 'r) \<Rightarrow> 'g \<Rightarrow> 'g) \<Rightarrow> 'a \<Rightarrow> 'g \<Rightarrow> 'g" where
  "set_to fld var v \<equiv> var (fld (\<lambda>_. v))"

definition server_url :: string where "server_url = ''https://api.caterpie.runetale.com''"
definition signal_url :: string where "signal_url = ''https://signal.caterpie.runetale.com''"
definition server_port :: "64 word" where "server_port = ucast DefaultServerPort"
definition signal_port :: "64 word" where "signal_port = ucast DefaultSignalingServerPort"

definition upCmd_flags :: "runetaled_vars flag list" where
  "upCmd_flags = [
     StringVar (set_to clientPath_update upArgs_update) ''path'' DefaultClientConfigFile,
     StringVar (set_to serverHost_update upArgs_update) ''server-host'' server_url,
     Int64Var (set_to serverPort_update upArgs_update) ''server-port'' server_port,
     StringVar (set_to signalHost_update upArgs_update) ''signal-host'' signal_url,
     Int64Var (set_to signalPort_update upArgs_update) ''signal-port'' signal_port,
     StringVar (set_to logFile_update upArgs_update) ''logfile'' DefaultRunetaledLogFile,
     StringVar (set_to logLevel_update upArgs_update) ''loglevel'' ''debug'',
     BoolVar (set_to debug_update upArgs_update) ''debug'' False,
     BoolVar (set_to asDaemon_update upArgs_update) ''daemon'' True]"

text \<open>The flags of \<open>runetaled down\<close> for the hosts are bound to the variables of \<open>runetaled up\<close>.\<close>

definition downCmd_flags :: "runetaled_vars flag list" where
  "downCmd_flags = [
     StringVar (set_to serverHost_update upArgs_update) ''server-host'' server_url,
     Int64Var (set_to serverPort_update upArgs_update) ''server-port'' server_port,
     StringVar (set_to signalHost_update upArgs_update) ''signal-host'' signal_url,
     Int64Var (set_to signalPort_update upArgs_update) ''signal-port'' signal_port,
     StringVar (set_to logFile_update downArgs_update) ''logfile'' DefaultRunetaledLogFile,
     StringVar (set_to logLevel_update downArgs_update) ''loglevel'' ''info'',
     BoolVar (set_to debug_update downArgs_update) ''debug'' False]"

definition daemonCmd_flags :: "runetaled_vars flag list" where
  "daemonCmd_flags = [
     StringVar (set_to logFile_update daemonArgs_update) ''logfile'' DefaultClientLogFile,
     StringVar (set_to logLevel_update daemonArgs_update) ''loglevel'' ''info'',
     BoolVar (set_to debug_update daemonArgs_update) ''debug'' False]"

section \<open>The flags of runetale\<close>

definition r_upCmd_flags :: "runetale_vars flag list" where
  "r_upCmd_flags = [
     StringVar (set_to clientPath_update r_upArgs_update) ''path'' DefaultClientConfigFile,
     StringVar (set_to serverHost_update r_upArgs_update) ''server-host'' server_url,
     StringVar (set_to accessToken_update r_upArgs_update) ''access-token'' [],
     Int64Var (set_to serverPort_update r_upArgs_update) ''server-port'' server_port,
     StringVar (set_to signalHost_update r_upArgs_update) ''signal-host'' signal_url,
     Int64Var (set_to signalPort_update r_upArgs_update) ''signal-port'' signal_port,
     StringVar (set_to logFile_update r_upArgs_update) ''logfile'' DefaultClientLogFile,
     StringVar (set_to logLevel_update r_upArgs_update) ''loglevel'' ''debug'',
     BoolVar (set_to debug_update r_upArgs_update) ''debug'' False]"

definition loginCmd_flags :: "runetale_vars flag list" where
  "loginCmd_flags = [
     StringVar (set_to accessToken_update r_loginArgs_update) ''access-token'' [],
     StringVar (set_to clientPath_update r_loginArgs_update) ''path'' DefaultClientConfigFile,
     StringVar (set_to serverHost_update r_loginArgs_update) ''server-host'' server_url,
     Int64Var (set_to serverPort_update r_loginArgs_update) ''server-port'' server_port,
     StringVar (set_to signalHost_update r_loginArgs_update) ''signal-host'' signal_url,
     Int64Var (set_to signalPort_update r_loginArgs_update) ''signal-port'' signal_port,
     StringVar (set_to logFile_update r_loginArgs_update) ''logfile'' DefaultClientLogFile,
     StringVar (set_to logLevel_update r_loginArgs_update) ''loglevel'' ''info'',
     BoolVar (set_to debug_update r_loginArgs_update) ''debug'' False]"

definition r_downCmd_flags :: "runetale_vars flag list" where
  "r_downCmd_flags = [
     StringVar (set_to logFile_update r_downArgs_update) ''logfile'' DefaultClientLogFile,
     StringVar (set_to logLevel_update r_downArgs_update) ''loglevel'' ''info'',
     BoolVar (set_to debug_update r_downArgs_update) ''debug'' False]"

section \<open>Commands\<close>

datatype runetaled_cmd = Root_Cmd | Daemon_Cmd | Install_Cmd | Uninstall_Cmd | Up_Cmd | Down_Cmd | StatusDaemon_Cmd
  | Version_Cmd "string list"

datatype runetale_cmd = RRoot_Cmd | RUp_Cmd | RLogin_Cmd | RVersion_Cmd "string list"

text \<open>The flags a command reads: those of \<open>runetaled daemon\<close> are its subcommands' as well.\<close>

fun runetaled_flags :: "runetaled_cmd \<Rightarrow> runetaled_vars flag list" where
  "runetaled_flags Daemon_Cmd = daemonCmd_flags"
| "runetaled_flags Install_Cmd = daemonCmd_flags"
| "runetaled_flags Uninstall_Cmd = daemonCmd_flags"
| "runetaled_flags Up_Cmd = upCmd_flags"
| "runetaled_flags Down_Cmd = downCmd_flags"
| "runetaled_flags Root_Cmd = []"
| "runetaled_flags StatusDaemon_Cmd = []"
| "runetaled_flags (Version_Cmd _) = []"

fun runetale_flags :: "runetale_cmd \<Rightarrow> runetale_vars flag list" where
  "runetale_flags RUp_Cmd = r_upCmd_flags"
| "runetale_flags RLogin_Cmd = loginCmd_flags"
| "runetale_flags RRoot_Cmd = []"
| "runetale_flags (RVersion_Cmd _) = []"

text \<open>The package is initialised file by file.\<close>

definition runetaled_init :: runetaled_vars where
  "runetaled_init = declare_flags upCmd_flags (declare_flags downCmd_flags (declare_flags daemonCmd_flags runetaled_zero))"

definition runetale_init :: runetale_vars where
  "runetale_init = declare_flags r_upCmd_flags (declare_flags loginCmd_flags (declare_flags r_downCmd_flags runetale_zero))"

text \<open>The variables when a command is run with these flags.\<close>

definition runetaled_parsed :: "runetaled_cmd \<Rightarrow> (string \<times> flag_value) list \<Rightarrow> runetaled_vars" where
  "runetaled_parsed c vs = assign_flags (runetaled_flags c) vs runetaled_init"

definition runetale_parsed :: "runetale_cmd \<Rightarrow> (string \<times> flag_value) list \<Rightarrow> runetale_vars" where
  "runetale_parsed c vs = assign_flags (runetale_flags c) vs runetale_init"

section \<open>Lemmas\<close>

lemmas flag_defs = StringVar_def Int64Var_def BoolVar_def

text \<open>What every flag of a command leaves alone, no command line of it changes.\<close>

lemma assign_flags_keep:
  assumes "\<And>f v g. f \<in> set fs \<Longrightarrow> P g \<Longrightarrow> P (f_set f v g)" "P g"
  shows "P (assign_flags fs vs g)"
proof -
  have "P (assign_flag fs nv g)" if "P g" for nv g
  proof (cases nv)
    case (Pair n v)
    show ?thesis
    proof (cases "find (\<lambda>f. f_name f = n) fs")
      case (Some f)
      then have "f \<in> set fs" by (auto simp: find_Some_iff)
      with assms(1) that Some Pair show ?thesis by simp
    qed (use that Pair in simp)
  qed
  then show ?thesis
    using assms(2) unfolding assign_flags_def by (induction vs arbitrary: g) simp_all
qed

lemma runetaled_init_fields:
  "downArgs runetaled_init = common_args.extend
     \<lparr>logFile = DefaultRunetaledLogFile, logLevel = ''info'', debug = False\<rparr> (host_args.fields [] 0 [] 0)"
  "statusArgs runetaled_init = zero_common"
  "daemonArgs runetaled_init = \<lparr>logFile = DefaultClientLogFile, logLevel = ''info'', debug = False\<rparr>"
  by (simp_all add: runetaled_init_def declare_flags_def upCmd_flags_def downCmd_flags_def daemonCmd_flags_def flag_defs
      runetaled_zero_def zero_common_def zero_host_def common_args.defs host_args.defs)

lemma statusArgs_parsed: "statusArgs (runetaled_parsed c vs) = zero_common"
  unfolding runetaled_parsed_def
  by (rule assign_flags_keep [where P = "\<lambda>g. statusArgs g = zero_common"])
    (cases c; auto simp: upCmd_flags_def downCmd_flags_def daemonCmd_flags_def flag_defs runetaled_init_fields
      split: flag_value.splits)+

lemma downArgs_parsed:
  "serverHost (downArgs (runetaled_parsed c vs)) = [] \<and> serverPort (downArgs (runetaled_parsed c vs)) = 0 \<and>
   signalHost (downArgs (runetaled_parsed c vs)) = [] \<and> signalPort (downArgs (runetaled_parsed c vs)) = 0"
  unfolding runetaled_parsed_def
  by (rule assign_flags_keep [where P = "\<lambda>g. serverHost (downArgs g) = [] \<and> serverPort (downArgs g) = 0 \<and>
        signalHost (downArgs g) = [] \<and> signalPort (downArgs g) = 0"])
    (cases c; auto simp: upCmd_flags_def downCmd_flags_def daemonCmd_flags_def flag_defs runetaled_init_fields
      common_args.defs host_args.defs split: flag_value.splits)+

section \<open>What a command line sets\<close>

fun str_value :: "flag_value \<Rightarrow> string option" where
  "str_value (StringV s) = Some s" | "str_value (Int64V _) = None" | "str_value (BoolV _) = None"

fun int_value :: "flag_value \<Rightarrow> 64 word option" where
  "int_value (StringV _) = None" | "int_value (Int64V n) = Some n" | "int_value (BoolV _) = None"

fun bool_value :: "flag_value \<Rightarrow> bool option" where
  "bool_value (StringV _) = None" | "bool_value (Int64V _) = None" | "bool_value (BoolV b) = Some b"

text \<open>The last value given for a name, or the default.\<close>

definition given :: "(flag_value \<Rightarrow> 'a option) \<Rightarrow> string \<Rightarrow> (string \<times> flag_value) list \<Rightarrow> 'a list" where
  "given rd n vs = List.map_filter (\<lambda>(m, v). if m = n then rd v else None) vs"

definition last_value :: "(flag_value \<Rightarrow> 'a option) \<Rightarrow> string \<Rightarrow> 'a \<Rightarrow> (string \<times> flag_value) list \<Rightarrow> 'a" where
  "last_value rd n d vs = (if given rd n vs = [] then d else last (given rd n vs))"

lemma last_value_simps [simp]:
  "last_value rd n d [] = d"
  "last_value rd n d ((m, v) # vs) =
     last_value rd n (if m = n then (case rd v of None \<Rightarrow> d | Some x \<Rightarrow> x) else d) vs"
  by (auto simp: last_value_def given_def map_filter_simps split: option.splits)

text \<open>The flag \<open>n\<close> of the set, and no other, stores what \<open>rd\<close> reads of a value where \<open>get\<close> looks.\<close>

definition binds :: "'g flag list \<Rightarrow> string \<Rightarrow> (flag_value \<Rightarrow> 'a option) \<Rightarrow> ('g \<Rightarrow> 'a) \<Rightarrow> bool" where
  "binds fs n rd get = ((\<exists>f \<in> set fs. f_name f = n) \<and> (\<forall>f \<in> set fs. \<forall>v g.
     get (f_set f v g) = (if f_name f = n then (case rd v of None \<Rightarrow> get g | Some x \<Rightarrow> x) else get g)))"

lemma assign_flags_last:
  assumes "binds fs n rd get"
  shows "get (assign_flags fs vs g) = last_value rd n (get g) vs"
proof -
  have step: "get (assign_flag fs (m, v) g) = (if m = n then (case rd v of None \<Rightarrow> get g | Some x \<Rightarrow> x) else get g)" for m v g
  proof (cases "find (\<lambda>f. f_name f = m) fs")
    case None
    then have "m \<noteq> n" using assms by (auto simp: binds_def find_None_iff)
    with None show ?thesis by simp
  next
    case (Some f)
    then have "f \<in> set fs" "f_name f = m" by (auto simp: find_Some_iff)
    with Some assms show ?thesis by (simp add: binds_def)
  qed
  have c: "assign_flags fs (nv # vs) g = assign_flags fs vs (assign_flag fs nv g)" for nv vs g
    by (simp add: assign_flags_def)
  show ?thesis
  proof (induction vs arbitrary: g)
    case (Cons nv vs)
    then show ?case using step by (cases nv) (simp only: c last_value_simps)
  qed (simp add: assign_flags_def)
qed

lemma upArgs_init:
  "upArgs runetaled_init = node_args.extend (host_args.extend (common_args.extend
     \<lparr>logFile = DefaultRunetaledLogFile, logLevel = ''debug'', debug = False\<rparr>
     (host_args.fields server_url server_port signal_url signal_port)) (node_args.fields DefaultClientConfigFile))
     (daemon_up_args.fields True)"
  by (simp add: runetaled_init_def declare_flags_def upCmd_flags_def downCmd_flags_def daemonCmd_flags_def flag_defs
      runetaled_zero_def zero_common_def zero_host_def zero_node_def common_args.defs host_args.defs node_args.defs
      daemon_up_args.defs)

lemmas upArgs_default = upArgs_init common_args.defs host_args.defs node_args.defs daemon_up_args.defs

lemma upCmd_binds:
  "binds upCmd_flags ''server-host'' str_value (serverHost \<circ> upArgs)"
  "binds upCmd_flags ''server-port'' int_value (serverPort \<circ> upArgs)"
  "binds upCmd_flags ''signal-host'' str_value (signalHost \<circ> upArgs)"
  "binds upCmd_flags ''signal-port'' int_value (signalPort \<circ> upArgs)"
  "binds upCmd_flags ''path'' str_value (clientPath \<circ> upArgs)"
  "binds upCmd_flags ''logfile'' str_value (logFile \<circ> upArgs)"
  "binds upCmd_flags ''loglevel'' str_value (logLevel \<circ> upArgs)"
  "binds upCmd_flags ''debug'' bool_value (debug \<circ> upArgs)"
  "binds upCmd_flags ''daemon'' bool_value (asDaemon \<circ> upArgs)"
  by (simp_all add: binds_def upCmd_flags_def flag_defs split: flag_value.split)

text \<open>
  C39. Every variable of \<open>runetaled up\<close> holds what its flag was given last on the command line,
  or its default: no flag writes the variable of another, and a value of another type is not
  stored.
\<close>
theorem up_flags:
  "let a = upArgs (runetaled_parsed Up_Cmd vs) in
    serverHost a = last_value str_value ''server-host'' server_url vs \<and>
    serverPort a = last_value int_value ''server-port'' 443 vs \<and>
    signalHost a = last_value str_value ''signal-host'' signal_url vs \<and>
    signalPort a = last_value int_value ''signal-port'' 443 vs \<and>
    clientPath a = last_value str_value ''path'' DefaultClientConfigFile vs \<and>
    logFile a = last_value str_value ''logfile'' DefaultRunetaledLogFile vs \<and>
    logLevel a = last_value str_value ''loglevel'' ''debug'' vs \<and>
    debug a = last_value bool_value ''debug'' False vs \<and>
    asDaemon a = last_value bool_value ''daemon'' True vs"
  using upCmd_binds [THEN assign_flags_last, of vs runetaled_init]
  by (simp add: Let_def runetaled_parsed_def upArgs_default server_port_def signal_port_def DefaultServerPort_def
      DefaultSignalingServerPort_def)

end
