(* ===== verification/Commands.thy ===== *)
theory Commands
  imports Rcn Engine Daemon Flags
begin

text \<open>
  The programs \<open>cmd/runetale\<close> and \<open>cmd/runetaled\<close>. The package that parses the command line is not
  part of the repository: its answer, a command with the values of its flags, is a parameter of
  \<open>Run\<close>. \<open>log.Fatalf\<close>, which ends the process, is a panic of that name; what is printed is a
  \<open>Println\<close> with the fixed beginning of the text. A goroutine that waits for a signal closes
  the channel its command waits on.
\<close>

section \<open>The command line\<close>

definition ErrHelp :: err where "ErrHelp = ErrNew ''flag: help requested''"

definition version_args :: "string list \<Rightarrow> string list" where
  "version_args args =
     (if length args = 1 \<and> (args ! 0 = ''-V'' \<or> args ! 0 = ''--version'' \<or> args ! 0 = ''-v'') then [''version''] else args)"

definition Run :: "(string list \<Rightarrow> err + 'c) \<Rightarrow> ('c \<Rightarrow> ('w, unit) go) \<Rightarrow> string list \<Rightarrow> ('w, unit) go" where
  "Run parse exec args = (case parse (version_args args) of
       Inl err \<Rightarrow> throw err
     | Inr cmd \<Rightarrow> bind (attempt (exec cmd)) (\<lambda>r. case r of
           Inr _ \<Rightarrow> ret () | Inl err \<Rightarrow> if err = ErrHelp then ret () else throw err))"

text \<open>\<open>main\<close>: the exit status; the text of the error on the standard error is left out.\<close>

definition main_exit :: "unit res \<Rightarrow> nat option" where
  "main_exit r = (case r of Ok _ \<Rightarrow> Some 0 | Err _ \<Rightarrow> Some 1 | Panic s \<Rightarrow> Some (if s = ''log.Fatalf'' then 1 else 2) | Stuck \<Rightarrow> None)"

section \<open>Shared parts\<close>

definition execVersion :: "string list \<Rightarrow> ('z world_scheme, unit) go" where
  "execVersion args = (if length args > 0 then panic ''log.Fatalf'' else emit (Println ''dev''))"

definition args_NewConf :: "nat \<Rightarrow> 'e signal_env_scheme \<Rightarrow> string \<Rightarrow> 'a host_args_scheme
    \<Rightarrow> ('z signal_world_scheme, ('z signal_world_scheme) Conf) go" where
  "args_NewConf fuel env path a = NewConf fuel env path (debug a) (serverHost a) (serverPort a) (signalHost a) (signalPort a)"

text \<open>The goroutine of a command that waits for an interrupt; the context is never cancelled.\<close>

definition SignalTask_body :: "chan \<Rightarrow> ('z world_scheme, unit) go" where
  "SignalTask_body ch = bind (emit (SysCall WaitSignal)) (\<lambda>_. close_chan (Some ch))"

section \<open>runetaled\<close>

definition runetaled_wait :: "'e env_scheme \<Rightarrow> ('z cp_world_scheme) Rcn \<Rightarrow> ('z cp_world_scheme, unit) go" where
  "runetaled_wait env r =
     bind (recv_closed (Some RootChan)) (\<lambda>_.
     bind (ignore (Rcn_Stop env r)) (\<lambda>_. ret ()))"

definition runetaled_up :: "nat \<Rightarrow> 'e signal_env_scheme \<Rightarrow> daemon_up_args \<Rightarrow> ('z cp_world_scheme, unit) go" where
  "runetaled_up fuel env a =
     bind (attempt (NewRunelog env ''runetaled up'' (logLevel a) (logFile a) (debug a))) (\<lambda>r. case r of
       Inl _ \<Rightarrow> emit (Println ''failed to initialize logger. because '')
     | Inr _ \<Rightarrow>
     bind (attempt (args_NewConf fuel env (clientPath a) a)) (\<lambda>r. case r of
       Inl e \<Rightarrow> bind (emit (Println ''failed to create client conf, because '')) (\<lambda>_. throw e)
     | Inr conf \<Rightarrow>
     bind (attempt (sv_LoginNode (conf_ServerClient conf) (NodePubKey conf) (sp_WgPrivateKey (conf_Spec conf)))) (\<lambda>r. case r of
       Inl _ \<Rightarrow> ret ()
     | Inr res \<Rightarrow>
     bind (NewRcn conf (NodePubKey conf) (Some RootChan) (debug a)) (\<lambda>r.
     if asDaemon a then
       bind (NewDaemon env (dd env)) (\<lambda>d. Daemon_Install env d)
     else
       bind (Setup env r (Ip res) (Cidr res)) (\<lambda>(err, r). case err of
         Some e \<Rightarrow> throw e
       | None \<Rightarrow>
       bind (spawn RcnStartTask) (\<lambda>_.
       bind (spawn SignalTask) (\<lambda>_.
       runetaled_wait env r)))))))"

definition runetaled_down :: "nat \<Rightarrow> 'e signal_env_scheme \<Rightarrow> host_args \<Rightarrow> ('z cp_world_scheme, unit) go" where
  "runetaled_down fuel env a =
     bind (attempt (NewRunelog env ''runetaled down'' (logLevel a) (logFile a) (debug a))) (\<lambda>r. case r of
       Inl _ \<Rightarrow> emit (Println ''failed to initialize logger'')
     | Inr _ \<Rightarrow>
     bind (NewDaemon env (dd env)) (\<lambda>d.
     bind (Daemon_Status env d) (\<lambda>(_, isInstalled).
     if \<not> isInstalled then emit (Println ''already terminated'') else
     bind (attempt (args_NewConf fuel env DefaultClientConfigFile a)) (\<lambda>r. case r of
       Inl _ \<Rightarrow> emit (Println ''failed to create client conf, because '')
     | Inr conf \<Rightarrow>
     bind (NewRcn conf (NodePubKey conf) None (debug a)) (\<lambda>r.
     bind (attempt (Rcn_Stop env r)) (\<lambda>e. case e of
       Inl _ \<Rightarrow> emit (Println ''failed to uninstall runetale'')
     | Inr _ \<Rightarrow>
     bind (attempt (Daemon_Uninstall env d)) (\<lambda>e. case e of
       Inl _ \<Rightarrow> emit (Println ''failed to uninstall runetale'')
     | Inr _ \<Rightarrow> ret ())))))))"

definition installDaemon :: "'e env_scheme \<Rightarrow> common_args \<Rightarrow> ('z world_scheme, unit) go" where
  "installDaemon env a =
     bind (attempt (NewRunelog env ''runetaled daemon'' (logLevel a) (logFile a) (debug a))) (\<lambda>r. case r of
       Inl _ \<Rightarrow> emit (Println ''failed to initialize logger: '')
     | Inr _ \<Rightarrow>
     bind (NewDaemon env (dd env)) (\<lambda>d. report (Daemon_Install env d) ''success in install''))"

definition uninstallDaemon :: "'e env_scheme \<Rightarrow> common_args \<Rightarrow> ('z world_scheme, unit) go" where
  "uninstallDaemon env a =
     bind (attempt (NewRunelog env ''runetaled daemon'' (logLevel a) (logFile a) (debug a))) (\<lambda>r. case r of
       Inl _ \<Rightarrow> emit (Println ''failed to initialize logger: '')
     | Inr _ \<Rightarrow>
     bind (NewDaemon env (dd env)) (\<lambda>d. report (Daemon_Uninstall env d) ''uninstall succesfull''))"

definition statusDaemon :: "'e env_scheme \<Rightarrow> common_args \<Rightarrow> ('z world_scheme, unit) go" where
  "statusDaemon env a =
     bind (attempt (NewRunelog env ''runetaled status'' (logLevel a) (logFile a) (debug a))) (\<lambda>r. case r of
       Inl _ \<Rightarrow> panic ''log.Fatalf''
     | Inr _ \<Rightarrow>
     bind (NewDaemon env (dd env)) (\<lambda>d.
     bind (Daemon_Status env d) (\<lambda>(status, _). emit (Println status))))"

definition runetaled_exec :: "nat \<Rightarrow> 'e signal_env_scheme \<Rightarrow> runetaled_vars \<Rightarrow> runetaled_cmd
    \<Rightarrow> ('z cp_world_scheme, unit) go" where
  "runetaled_exec fuel env g c = (case c of
       Daemon_Cmd \<Rightarrow> throw ErrHelp | Root_Cmd \<Rightarrow> throw ErrHelp
     | Install_Cmd \<Rightarrow> installDaemon env (daemonArgs g) | Uninstall_Cmd \<Rightarrow> uninstallDaemon env (daemonArgs g)
     | Up_Cmd \<Rightarrow> runetaled_up fuel env (upArgs g) | Down_Cmd \<Rightarrow> runetaled_down fuel env (downArgs g)
     | StatusDaemon_Cmd \<Rightarrow> statusDaemon env (statusArgs g) | Version_Cmd args \<Rightarrow> execVersion args)"

text \<open>The command with its flags, as the parser finds them, run on the variables the flags leave.\<close>

definition runetaled_Run :: "nat \<Rightarrow> 'e signal_env_scheme \<Rightarrow> (string list \<Rightarrow> err + runetaled_cmd \<times> (string \<times> flag_value) list)
    \<Rightarrow> string list \<Rightarrow> ('z cp_world_scheme, unit) go" where
  "runetaled_Run fuel env parse = Run parse (\<lambda>(c, vs). runetaled_exec fuel env (runetaled_parsed c vs) c)"

section \<open>runetale\<close>

definition loginNode :: "string \<Rightarrow> string \<Rightarrow> string \<Rightarrow> ('z world_scheme) ServerClientImpl
    \<Rightarrow> ('z world_scheme, string \<times> string) go" where
  "loginNode token nk wgPrivKey client =
     (if token \<noteq> [] then
        bind (sv_ComposeNode client token nk wgPrivKey) (\<lambda>res. ret (compose_Ip res, compose_Cidr res))
      else
        bind (sv_LoginNode client nk wgPrivKey) (\<lambda>res. ret (Ip res, Cidr res)))"

definition upEngine :: "'e sock_env_scheme \<Rightarrow> string \<Rightarrow> string \<Rightarrow> string \<Rightarrow> string \<Rightarrow> string \<Rightarrow> string list option
    \<Rightarrow> ('z world_scheme, unit) go" where
  "upEngine env tunName mPubKey ip cidr wgPrivKey blackList =
     bind (NewEngine env tunName mPubKey ip cidr wgPrivKey blackList) (\<lambda>engine. engine_Start env engine)"

definition isInstallRunetaledDaemon :: "'e env_scheme \<Rightarrow> ('z world_scheme, bool) go" where
  "isInstallRunetaledDaemon env =
     bind (NewDaemon env (dd env)) (\<lambda>d.
     bind (Daemon_Status env d) (\<lambda>(_, isInstalled). ret isInstalled))"

definition isRunningRunetaledProcess :: "'e env_scheme \<Rightarrow> ('z world_scheme, bool) go" where
  "isRunningRunetaledProcess env = process_GetRunetaledProcess env"

definition runetale_up :: "nat \<Rightarrow> 'e sock_env_scheme \<Rightarrow> up_args \<Rightarrow> ('z signal_world_scheme, unit) go" where
  "runetale_up fuel env a =
     bind (attempt (NewRunelog env ''runetale up'' (logLevel a) (logFile a) (debug a))) (\<lambda>r. case r of
       Inl _ \<Rightarrow> emit (Println ''failed to initialize logger. because '')
     | Inr _ \<Rightarrow>
     bind (attempt (args_NewConf fuel env (clientPath a) a)) (\<lambda>r. case r of
       Inl e \<Rightarrow> bind (emit (Println ''failed to create client conf, because '')) (\<lambda>_. throw e)
     | Inr c \<Rightarrow>
     bind (isInstallRunetaledDaemon env) (\<lambda>inst.
     bind (if inst then ret True else isRunningRunetaledProcess env) (\<lambda>ready.
     if \<not> ready then ret () else
     bind (attempt (loginNode (accessToken a) (NodePubKey c) (sp_WgPrivateKey (conf_Spec c)) (conf_ServerClient c))) (\<lambda>r. case r of
       Inl e \<Rightarrow> bind (emit (Println ''failed to login '')) (\<lambda>_. throw e)
     | Inr (ip, cidr) \<Rightarrow>
     bind (upEngine env (sp_TunName (conf_Spec c)) (NodePubKey c) ip cidr (sp_WgPrivateKey (conf_Spec c))
             (sp_BlackList (conf_Spec c))) (\<lambda>_.
     bind (spawn SignalTask) (\<lambda>_.
     bind (recv_closed (Some StopChan)) (\<lambda>_.
     ret ()))))))))"

definition runetale_login :: "nat \<Rightarrow> 'e signal_env_scheme \<Rightarrow> up_args \<Rightarrow> ('z signal_world_scheme, unit) go" where
  "runetale_login fuel env a =
     bind (attempt (NewRunelog env ''runetale login'' (logLevel a) (logFile a) (debug a))) (\<lambda>r. case r of
       Inl _ \<Rightarrow> emit (Println ''failed to initialize logger. because '')
     | Inr _ \<Rightarrow>
     bind (attempt (args_NewConf fuel env (clientPath a) a)) (\<lambda>r. case r of
       Inl _ \<Rightarrow> emit (Println ''failed to create client conf, because '')
     | Inr c \<Rightarrow>
     bind (attempt (loginNode (accessToken a) (NodePubKey c) (sp_WgPrivateKey (conf_Spec c)) (conf_ServerClient c))) (\<lambda>r. case r of
       Inl e \<Rightarrow> bind (emit (Println ''failed to login '')) (\<lambda>_. throw e)
     | Inr _ \<Rightarrow> ret ())))"

text \<open>\<open>runetale down\<close> has a command of its own, which the root command does not list.\<close>

definition runetale_down :: "'e env_scheme \<Rightarrow> common_args \<Rightarrow> ('z world_scheme, unit) go" where
  "runetale_down env a =
     bind (attempt (NewRunelog env ''runetale up'' (logLevel a) (logFile a) (debug a))) (\<lambda>r. case r of
       Inl _ \<Rightarrow> emit (Println ''failed to initialize logger. because '') | Inr _ \<Rightarrow> ret ())"

definition runetale_exec :: "nat \<Rightarrow> 'e sock_env_scheme \<Rightarrow> runetale_vars \<Rightarrow> runetale_cmd
    \<Rightarrow> ('z signal_world_scheme, unit) go" where
  "runetale_exec fuel env g c = (case c of
       RUp_Cmd \<Rightarrow> runetale_up fuel env (r_upArgs g) | RLogin_Cmd \<Rightarrow> runetale_login fuel env (r_loginArgs g)
     | RVersion_Cmd args \<Rightarrow> execVersion args | RRoot_Cmd \<Rightarrow> throw ErrHelp)"

definition runetale_Run :: "nat \<Rightarrow> 'e sock_env_scheme \<Rightarrow> (string list \<Rightarrow> err + runetale_cmd \<times> (string \<times> flag_value) list)
    \<Rightarrow> string list \<Rightarrow> ('z signal_world_scheme, unit) go" where
  "runetale_Run fuel env parse = Run parse (\<lambda>(c, vs). runetale_exec fuel env (runetale_parsed c vs) c)"

definition runetale_main :: "nat \<Rightarrow> 'e sock_env_scheme \<Rightarrow> (string list \<Rightarrow> err + runetale_cmd \<times> (string \<times> flag_value) list)
    \<Rightarrow> string list \<Rightarrow> 'z signal_world_scheme \<Rightarrow> nat option \<times> 'z signal_world_scheme" where
  "runetale_main fuel env parse args w = (case runetale_Run fuel env parse args w of (r, w') \<Rightarrow> (main_exit r, w'))"

section \<open>What a configuration stores\<close>

lemma CreateSpec_writes:
  assumes "CreateSpec env s w = (Ok s', w')"
  shows "\<exists>k t sh gh bl w1. writeSpec env s k t sh (sp_ServerPort s) gh (sp_SignalPort s) bl [] w1 = (Ok s', w')"
  using assms
  by (auto simp: CreateSpec_def Let_def panic_def elim!: bind_OkE split: sum.splits if_splits) blast+

lemma keeps_file_GetPublicKey:
  "keeps (file_is p c :: 'z signal_world_scheme \<Rightarrow> bool) (GetPublicKey env (FileStore_manager env) cs)"
proof -
  have "keeps (file_is p c :: 'z signal_world_scheme \<Rightarrow> bool) (ReadState s k)" for s k
    unfolding ReadState_def by (intro keeps_with_lock keeps_intros) (auto simp: lock_free_def file_is_def)
  then show ?thesis
    unfolding GetPublicKey_def get_key_def FileStore_manager_def
    by (intro keeps_intros) simp_all
qed

lemma NewConf_stores:
  fixes w :: "'z signal_world_scheme"
  assumes "NewConf fuel env path isDev sh sp gh gp w = (Ok c, w')" "fresh_temps env path"
  shows "files w' path = Some (marshal_spec (SpecFields.truncate (conf_Spec c))) \<and>
    sp_ServerPort (conf_Spec c) = sp \<and> sp_SignalPort (conf_Spec c) = gp"
proof -
  let ?s = "NewSpec path sh sp gh gp isDev"
  from assms(1) obtain cs spec sys sv sc w2 w3 w4 w5 w6 cs' pk where
    3: "CreateSpec env ?s w2 = (Ok spec, w3)" and
    4: "NewSysInfo fuel env w3 = (Ok sys, w4)" and
    5: "setupGrpcServerClient env sys (GetServerHost spec) (NewGrpcDialOption isDev) w4 = (Ok sv, w5)" and
    6: "setupGrpcSignalClient env sys (GetSignalHost spec) (NewGrpcDialOption isDev) w5 = (Ok sc, w6)" and
    7: "GetPublicKey env (FileStore_manager env) cs w6 = (Ok (pk, cs'), w')" and c: "conf_Spec c = spec"
    by (auto simp: NewConf_def Let_def throw_def ret_def elim!: bind_OkE split: option.splits)
  from CreateSpec_writes [OF 3] obtain k t h1 h2 bl w1 where
    "writeSpec env ?s k t h1 (sp_ServerPort ?s) h2 (sp_SignalPort ?s) bl [] w1 = (Ok spec, w3)" by blast
  from writeSpec_Ok [OF this] assms(2) have spec: "files w3 path = Some (marshal_spec (SpecFields.truncate spec))"
    "sp_ServerPort spec = sp" "sp_SignalPort spec = gp" by (simp_all add: NewSpec_def zero_SpecFields_def SpecFields.defs)
  let ?I = "file_is path (files w3 path) :: 'z signal_world_scheme \<Rightarrow> bool"
  have si: "keeps ?I (NewSysInfo fuel env)" by (rule keeps_NewSysInfo) (rule keeps_intros)+
  have "?I w3" by (simp add: file_is_def)
  then have "?I w4" by (rule keeps_run [where I = ?I, OF si 4])
  from keeps_run [OF keeps_file_GetPublicKey 7 keeps_run [OF setup_keeps_file(2) 6 keeps_run [OF setup_keeps_file(1) 5 this]]]
  have "files w' path = files w3 path" by (simp add: file_is_def)
  with spec c show ?thesis by simp
qed

section \<open>Properties\<close>

text \<open>
  \<open>runetaled status daemon\<close> never tells a status: the level of its logger has no flag and is
  empty, which is no level, and the command ends with a fatal error before it asks anything.
\<close>
theorem status_command_is_fatal:
  "runetaled_Run fuel env (\<lambda>_. Inr (StatusDaemon_Cmd, vs)) args w = (Panic ''log.Fatalf'', w)"
  by (simp add: runetaled_Run_def Run_def runetaled_exec_def statusDaemon_def statusArgs_parsed zero_common_def NewRunelog_def initRunelog_def log_level_of_def attempt_def
      bind_def throw_def panic_def)

lemma logger_cases: "NewRunelog env name lv f d w = (r, w') \<Longrightarrow> files w' = files w"
  by (auto simp: NewRunelog_def initRunelog_def ignore_def attempt_def bind_def throw_def panic_def ret_def perform_def emit_def Let_def
      split: if_splits option.splits)

lemma NewDaemon_returns: "\<exists>d h. NewDaemon env s w = (Ok d, w\<lparr>hist := h\<rparr>)"
proof (cases "goos env = ''darwin''")
  case True
  then have "NewDaemon env s w = (Ok (Launchd s), w\<lparr>hist := hist w\<rparr>)"
    by (simp add: NewDaemon_def newDaemon_darwin_def ret_def)
  then show ?thesis by blast
next
  case False
  then show ?thesis
    by (auto simp: NewDaemon_def newDaemon_linux_def attempt_def bind_def ret_def perform_def Let_def split: option.splits)
qed

lemma down_run:
  fixes w :: "'z cp_world_scheme"
  assumes "NewRunelog env ''runetaled down'' (logLevel c) (logFile c) (debug c) w = (Ok (), w1)"
    "NewDaemon env (dd env) w1 = (Ok d, w2)" "Daemon_Status env d w2 = (Ok (s, runs), w3)"
    "args_NewConf fuel env DefaultClientConfigFile c w3 = (r, w4)"
  shows "\<exists>w'. runetaled_down fuel env c w =
      (if \<not> runs then Ok () else case r of Ok _ \<Rightarrow> Panic ''nil pointer dereference'' | Err _ \<Rightarrow> Ok ()
         | Panic p \<Rightarrow> Panic p | Stuck \<Rightarrow> Stuck, w') \<and>
    files w' = files (if runs then w4 else w)"
proof -
  have f: "files w3 = files w"
    using logger_cases [OF assms(1)] NewDaemon_returns [of env "dd env" w1] assms(2) dsv.status_same [of env d w2] assms(3)
    by auto
  have stop: "Rcn_Stop env x (v\<lparr>peerConns := [], stconf := None, waitForRemoteConnCh := []\<rparr>) =
      (Panic ''nil pointer dereference'', v\<lparr>peerConns := [], stconf := None, waitForRemoteConnCh := []\<rparr>)"
    if "r_iface x = None" for x and v :: "'z cp_world_scheme"
    by (rule Stop_without_iface [OF that]) (simp add: cp_Close_def gets_def bind_def ret_def)
  show ?thesis
    using assms f
    by (cases r) (simp_all add: runetaled_down_def attempt_def NewRcn_run stop Let_def)
qed

text \<open>
  C34. \<open>runetaled down\<close> never takes the daemon down. When the service runs and the configuration
  is made, stopping a node that was never set up dereferences its nil interface; in every
  other case the command returns success. It removes no file: all that touches files is the
  making of the configuration.
\<close>
theorem down_never_uninstalls:
  fixes w :: "'z cp_world_scheme"
  assumes "NewRunelog env ''runetaled down'' (logLevel c) (logFile c) (debug c) w = (Ok (), w1)"
    "NewDaemon env (dd env) w1 = (Ok d, w2)" "Daemon_Status env d w2 = (Ok (s, runs), w3)"
    "args_NewConf fuel env DefaultClientConfigFile c w3 = (r, w4)"
  shows "\<exists>w'. runetaled_down fuel env c w =
      (if \<not> runs then Ok () else case r of Ok _ \<Rightarrow> Panic ''nil pointer dereference'' | Err _ \<Rightarrow> Ok ()
         | Panic p \<Rightarrow> Panic p | Stuck \<Rightarrow> Stuck, w') \<and>
    files w' = files (if runs then w4 else w)"
  using assms by (rule down_run)

text \<open>
  C35. \<open>runetaled down\<close>, with any flags, on a host on which the daemon runs: when the
  configuration can be made the command writes the ports 0 into the file that the daemon
  reads, before it panics: its flags for hosts and ports are bound to the variables of another
  command.
\<close>
theorem down_erases_ports:
  fixes w :: "'z cp_world_scheme"
  assumes "parse (version_args args) = Inr (Down_Cmd, vs)" "a = downArgs (runetaled_parsed Down_Cmd vs)"
    "NewRunelog env ''runetaled down'' (logLevel a) (logFile a) (debug a) w = (Ok (), w1)"
    "NewDaemon env (dd env) w1 = (Ok d, w2)" "Daemon_Status env d w2 = (Ok (s, True), w3)"
    "args_NewConf fuel env DefaultClientConfigFile a w3 = (Ok conf, w4)" "fresh_temps env DefaultClientConfigFile"
  shows "\<exists>w' sp. runetaled_Run fuel env parse args w = (Panic ''nil pointer dereference'', w') \<and>
    files w' DefaultClientConfigFile = Some (marshal_spec sp) \<and> sp_ServerPort sp = 0 \<and> sp_SignalPort sp = 0"
proof -
  obtain w' where w': "runetaled_down fuel env a w = (Panic ''nil pointer dereference'', w')" "files w' = files w4"
    using down_run [OF assms(3-6)] by auto
  have "NewConf fuel env DefaultClientConfigFile (debug a) [] 0 [] 0 w3 = (Ok conf, w4)"
    using assms(2,6) downArgs_parsed [of Down_Cmd vs] by (simp add: args_NewConf_def)
  from NewConf_stores [OF this assms(7)] w' show ?thesis
    by (intro exI [of _ w'] exI [of _ "SpecFields.truncate (conf_Spec conf)"])
       (simp add: runetaled_Run_def Run_def runetaled_exec_def attempt_def bind_def assms(1,2) SpecFields.defs)
qed

text \<open>
  C33. After a login \<open>runetale up\<close> never returns and never waits for a signal: it starts the
  engine, whose \<open>Start\<close> keeps its mutex and blocks for ever.
\<close>
theorem runetale_up_blocks:
  fixes w :: "'z signal_world_scheme"
  assumes "NewRunelog env ''runetale up'' (logLevel a) (logFile a) (debug a) w = (Ok (), w1)"
    "args_NewConf fuel env (clientPath a) a w1 = (Ok c, w2)" "isInstallRunetaledDaemon env w2 = (Ok inst, w3)"
    "(if inst then ret True else isRunningRunetaledProcess env) w3 = (Ok True, w4)"
    "loginNode (accessToken a) (NodePubKey c) (sp_WgPrivateKey (conf_Spec c)) (conf_ServerClient c) w4 = (Ok (ip, cidr), w5)"
    "parse_key env (sp_WgPrivateKey (conf_Spec c)) = Inr k"
  shows "\<exists>w'. runetale_up fuel env a w = (Stuck, w') \<and> engine_mu \<in> held w'"
proof -
  obtain e where e: "NewEngine env (sp_TunName (conf_Spec c)) (NodePubKey c) ip cidr (sp_WgPrivateKey (conf_Spec c))
      (sp_BlackList (conf_Spec c)) w5 = (Ok e, w5)"
    using assms(6) by (simp add: NewEngine_def ParseKey_def ret_def Let_def)
  obtain w' where w': "engine_Start env e w5 = (Stuck, w')" "engine_mu \<in> held w'"
    using engine_Start_blocked [of env e w5] by blast
  have "upEngine env (sp_TunName (conf_Spec c)) (NodePubKey c) ip cidr (sp_WgPrivateKey (conf_Spec c))
      (sp_BlackList (conf_Spec c)) w5 = (Stuck, w')"
    using e w'(1) by (simp add: upEngine_def)
  with assms(1-5) w'(2) show ?thesis
    by (simp add: runetale_up_def attempt_Ok)
qed

text \<open>
  C24. Without root privileges the commands that install and uninstall the daemon change no file,
  whichever init system there is.
\<close>
theorem daemon_commands_need_root:
  assumes "\<forall>h. \<not> is_root env h"
  shows "files (snd (installDaemon env a w)) = files w \<and> files (snd (uninstallDaemon env a w)) = files w"
proof -
  obtain r w1 where 1: "NewRunelog env ''runetaled daemon'' (logLevel a) (logFile a) (debug a) w = (r, w1)"
    by (metis surj_pair)
  obtain d h where 2: "NewDaemon env (dd env) w1 = (Ok d, w1\<lparr>hist := h\<rparr>)" using NewDaemon_returns by blast
  note 3 = dsv.report_denied [where env = env and d = d and w = "w1\<lparr>hist := h\<rparr>"] 
  from 1 2 3 assms logger_cases [OF 1] show ?thesis
    by (cases r) (simp_all add: installDaemon_def uninstallDaemon_def attempt_def)
qed

text \<open>
  A daemon whose login fails exits with the status of success, so systemd, which is told to
  restart it on a failure, does not start it again.
\<close>
theorem failed_login_exits_zero:
  fixes w :: "'z cp_world_scheme"
  assumes "a = upArgs (runetaled_parsed Up_Cmd vs)"
    "NewRunelog env ''runetaled up'' (logLevel a) (logFile a) (debug a) w = (Ok (), w1)"
    "args_NewConf fuel env (clientPath a) a w1 = (Ok c, w2)"
    "sv_LoginNode (conf_ServerClient c) (NodePubKey c) (sp_WgPrivateKey (conf_Spec c)) w2 = (Err e, w3)"
  shows "main_exit (fst (runetaled_Run fuel env (\<lambda>_. Inr (Up_Cmd, vs)) args w)) = Some 0"
proof -
  have "runetaled_up fuel env a w = (Ok (), w3)"
    using assms(2-) by (simp add: runetaled_up_def attempt_Ok attempt_Err ret_def)
  then show ?thesis by (simp add: runetaled_Run_def Run_def runetaled_exec_def attempt_Ok ret_def main_exit_def assms(1))
qed

text \<open>
  A signal ends a running daemon in order: it closes the channel once, the waiting command
  stops the node, whose errors it drops, and returns success. When the control plane has
  closed the channel already the signal panics instead.
\<close>
theorem signal_stops_node:
  assumes "w1 = w\<lparr>hist := hist w @ [SysCall WaitSignal]\<rparr>" "w2 = w1\<lparr>closed := insert RootChan (closed w)\<rparr>"
    "Rcn_Stop env r w2 = (x, w3)" "\<forall>s. x \<noteq> Panic s" "x \<noteq> Stuck"
  shows "bind (SignalTask_body RootChan) (\<lambda>_. runetaled_wait env r) w =
    (if RootChan \<in> closed w then (Panic ''close of closed channel'', w1) else (Ok (), w3))"
  using assms
  by (cases x) (simp_all add: SignalTask_body_def runetaled_wait_def close_chan_def recv_closed_def bind_assoc ignore_def
      attempt_def ret_def bind_def)

section \<open>Witnesses\<close>

text \<open>A linux host with systemd on which everything succeeds: the service runs and \<open>id\<close> answers \<open>gid\<close>,
  behind blanks, which the program trims.\<close>

definition cmd_env :: "string \<Rightarrow> (string \<Rightarrow> err + key) \<Rightarrow> sock_env" where
  "cmd_env gid keys = (sock_env1 \<lparr>MessageType = 0, dial_status = None\<rparr>)
     \<lparr>str_of := \<lambda>h. if last h = id_call then ''   '' @ gid else ''Active: active x y'', bool_of := \<lambda>h. True,
      parse_key := keys\<rparr>"

definition host1 :: host_args where
  "host1 = \<lparr>logFile = ''/tmp/l'', logLevel = ''info'', debug = False, serverHost = ''https://a'', serverPort = 443,
     signalHost = ''https://b'', signalPort = 443\<rparr>"

definition up1 :: up_args where
  "up1 = host_args.extend host1 \<lparr>clientPath = DefaultClientConfigFile, accessToken = ''token''\<rparr>"

definition common1 :: common_args where
  "common1 = \<lparr>logFile = ''/tmp/l'', logLevel = ''info'', debug = False\<rparr>"

lemmas env_chain = cmd_env_def sock_env1_def ice_env1_def ice_env.defs proxy_env.defs proxy_env1_def signal_env1_def
  signal_env.defs server_env1_def server_env.defs env1_def env.defs env0_def

lemma cmd_env_simps [simp]:
  "err_of (cmd_env gid keys) h = None" "goos (cmd_env gid keys) = ''linux''" "parse_key (cmd_env gid keys) = keys"
  by (simp_all add: env_chain)

lemma cmd_env_outside:
  "all_well (cmd_env ''0'' keys)" "conf_outside (cmd_env ''0'' keys) DefaultClientConfigFile"
  "is_root (cmd_env ''0'' keys) h" "\<not> is_root (cmd_env ''1'' keys) h" "is_active (cmd_env ''0'' keys) s h"
proof -
  have str: "str_of (cmd_env gid keys) h = (if last h = id_call then ''   '' @ gid else ''Active: active x y'')" for gid h
    by (simp add: env_chain)
  have b: "bool_of (cmd_env gid keys) h" for gid h by (simp add: env_chain)
  have "\<not> Contains ''   0'' ''broken pipe''" "\<not> Contains ''Active: active x y'' ''broken pipe''"
    "length (os_words ''   0'') = 4" "length (os_words ''Active: active x y'') = 4"
    by (code_simp, code_simp, code_simp, code_simp)
  then show "all_well (cmd_env ''0'' keys)" by (simp add: all_well_def str b)
  show "conf_outside (cmd_env ''0'' keys) DefaultClientConfigFile"
    by (simp add: conf_outside_def fresh_temps_def honest_reads_def DefaultRunetaleClientStateFile_def
        DefaultClientConfigFile_def str id_call_def) (simp add: env_chain)
  have 0: "ParseUint (TrimSpace ''   0'') 32 = Inr 0" "ParseUint (TrimSpace ''   1'') 32 = Inr 1"
    "Contains ''Active: active x y'' ''Active: active''"
    by (code_simp, code_simp, code_simp)
  then show "is_root (cmd_env ''0'' keys) h" "\<not> is_root (cmd_env ''1'' keys) h" "is_active (cmd_env ''0'' keys) s h"
    by (simp_all add: is_root_def is_active_def str status_call_def id_call_def)
qed

definition log_calls :: "string \<Rightarrow> bool \<Rightarrow> call list" where
  "log_calls f dbg = [SysCall (RegisterSink ''lumberjack'' (lumberjackLogger f)),
     SysCall (BuildLogger (loggerConfig InfoLevel f dbg)), SysCall ReplaceGlobals]"

lemma logger_ok:
  "logLevel a = ''info'' \<Longrightarrow> NewRunelog (cmd_env gid keys) name (logLevel a) f dbg w =
     (Ok (), w\<lparr>hist := hist w @ log_calls f dbg\<rparr>)"
  by (simp add: NewRunelog_def initRunelog_def log_level_of_def attempt_Ok ignore_def ret_def emit_def bind_def log_calls_def)

lemma args1_simps [simp]:
  "logLevel host1 = ''info''" "logLevel up1 = ''info''" "clientPath up1 = DefaultClientConfigFile"
  "logLevel common1 = ''info''" "accessToken up1 = ''token''"
  by (simp_all add: host1_def up1_def common1_def host_args.defs)

lemma args_NewConf_ok:
  fixes w :: "'z signal_world_scheme"
  assumes "held w = {}" "files w (DefaultRunetaleClientStateFile (cmd_env ''0'' keys)) = None"
  shows "\<exists>c w'. args_NewConf 1 (cmd_env ''0'' keys) DefaultClientConfigFile a w = (Ok c, w')"
  using NewConf_calm [OF cmd_env_outside(1) cmd_env_outside(2) assms(1)] assms(2)
  by (simp add: args_NewConf_def)

lemma NewConf_clients:
  fixes w :: "'z signal_world_scheme"
  assumes "args_NewConf fuel env path a w = (Ok c, w')"
  shows "\<exists>sys. conf_ServerClient c = NewServerClient env sys"
proof -
  have sv: "setupGrpcServerClient env sys h opt u = (Ok sv, u') \<Longrightarrow> sv = NewServerClient env sys"
    for sys h opt sv and u u' :: "'z signal_world_scheme"
    by (auto simp: setupGrpcServerClient_def throw_def ret_def elim!: bind_OkE split: sum.splits)
  show ?thesis using assms
    by (auto simp: args_NewConf_def NewConf_def Let_def throw_def ret_def dest!: sv elim!: bind_OkE split: option.splits)
      (rule exI, rule refl)
qed

definition installed_world :: cp_world where
  "installed_world = cp_world0\<lparr>files := [daemonFilePath runetaled_linux \<mapsto> ''unit'']\<rparr>"

lemma installed_simps [simp]:
  "held installed_world = {}" "files installed_world = [daemonFilePath runetaled_linux \<mapsto> ''unit'']" "hist installed_world = []"
  "closed installed_world = {}"
  by (simp_all add: installed_world_def)

lemma state_file_simps [simp]:
  "DefaultRunetaleClientStateFile (cmd_env gid keys) \<noteq> daemonFilePath runetaled_linux"
  by (simp add: DefaultRunetaleClientStateFile_def runetaled_linux_def)

lemma cmd_Status:
  "Daemon_Status (cmd_env ''0'' keys) (SystemD runetaled_linux) w =
    (Ok (if files w (daemonFilePath runetaled_linux) = None then (notinstalled, False) else (running, True)),
     w\<lparr>hist := hist w @ (if files w (daemonFilePath runetaled_linux) = None
       then [id_call, OsCall (OsStat (daemonFilePath runetaled_linux))]
       else [id_call, OsCall (OsStat (daemonFilePath runetaled_linux)), status_call runetaled_linux])\<rparr>)"
  by (simp add: Daemon_Status_def Status_def attempt_Ok cmd_env_outside ret_def Let_def bind_def)

lemma cmd_NewDaemon:
  "NewDaemon (cmd_env gid keys) (dd (cmd_env gid keys)) w =
    (Ok (SystemD runetaled_linux), w\<lparr>hist := hist w @ [OsCall (OsStat ''/run/systemd/system'')]\<rparr>)"
  by (simp add: NewDaemon_def newDaemon_linux_def dd_def attempt_Ok ret_def)

lemma down_host:
  assumes "logLevel a = ''info''"
  shows "\<exists>w1 w2 w3 c w4. NewRunelog (cmd_env ''0'' keys) ''runetaled down'' (logLevel a) (logFile a) (debug a) installed_world = (Ok (), w1) \<and>
    NewDaemon (cmd_env ''0'' keys) (dd (cmd_env ''0'' keys)) w1 = (Ok (SystemD runetaled_linux), w2) \<and>
    Daemon_Status (cmd_env ''0'' keys) (SystemD runetaled_linux) w2 = (Ok (running, True), w3) \<and>
    args_NewConf 1 (cmd_env ''0'' keys) DefaultClientConfigFile a w3 = (Ok c, w4)"
proof -
  let ?env = "cmd_env ''0'' keys"
  obtain h where h: "h = log_calls (logFile a) (debug a) @ [OsCall (OsStat ''/run/systemd/system''), id_call,
     OsCall (OsStat (daemonFilePath runetaled_linux)), status_call runetaled_linux]" by blast
  obtain c w4 where c: "args_NewConf 1 ?env DefaultClientConfigFile a (installed_world\<lparr>hist := h\<rparr>) = (Ok c, w4)"
    using args_NewConf_ok [of "installed_world\<lparr>hist := h\<rparr>" keys a] by auto
  have s: "Daemon_Status ?env (SystemD runetaled_linux) (installed_world\<lparr>hist := take 4 h\<rparr>) =
      (Ok (running, True), installed_world\<lparr>hist := h\<rparr>)"
    by (simp add: cmd_Status h log_calls_def)
  have d: "NewDaemon ?env (dd ?env) (installed_world\<lparr>hist := take 3 h\<rparr>) =
      (Ok (SystemD runetaled_linux), installed_world\<lparr>hist := take 4 h\<rparr>)"
    by (simp add: cmd_NewDaemon h log_calls_def)
  have l: "NewRunelog ?env ''runetaled down'' (logLevel a) (logFile a) (debug a) installed_world =
      (Ok (), installed_world\<lparr>hist := take 3 h\<rparr>)"
    using logger_ok [OF assms, of "''0''" keys "''runetaled down''" "logFile a" "debug a" installed_world]
    by (simp add: h log_calls_def)
  from l d s c show ?thesis by blast
qed

theorem down_never_uninstalls_witness:
  "\<exists>w'. runetaled_down 1 (cmd_env ''0'' (\<lambda>s. Inr [1])) host1 installed_world = (Panic ''nil pointer dereference'', w')"
proof -
  let ?env = "cmd_env ''0'' (\<lambda>s. Inr [1])"
  from down_host [of host1 "\<lambda>s. Inr [1]"] obtain w1 w2 w3 c w4 where
    "NewRunelog ?env ''runetaled down'' (logLevel host1) (logFile host1) (debug host1) installed_world = (Ok (), w1)"
    "NewDaemon ?env (dd ?env) w1 = (Ok (SystemD runetaled_linux), w2)"
    "Daemon_Status ?env (SystemD runetaled_linux) w2 = (Ok (running, True), w3)"
    "args_NewConf 1 ?env DefaultClientConfigFile host1 w3 = (Ok c, w4)" by auto
  from down_never_uninstalls [OF this] show ?thesis by auto
qed

lemma calm_NewConf:
  fixes w :: "'z signal_world_scheme"
  assumes "held w = {}" "files w = Map.empty"
  obtains c w' where "args_NewConf 1 (cmd_env ''0'' keys) DefaultClientConfigFile a w = (Ok c, w')"
  using args_NewConf_ok [OF assms(1), of keys] assms(2) that by auto

lemma conn_world0_calm [simp]: "held conn_world0 = {}" "files conn_world0 = Map.empty"
  by (simp_all add: conn_world0_def NewConnectedState_def)

theorem down_erases_ports_witness:
  "\<exists>w' sp. runetaled_Run 1 (cmd_env ''0'' (\<lambda>s. Inr [1])) (\<lambda>_. Inr (Down_Cmd, [(''server-port'', Int64V 444)])) [''down''] installed_world =
       (Panic ''nil pointer dereference'', w') \<and>
     files w' DefaultClientConfigFile = Some (marshal_spec sp) \<and> sp_ServerPort sp = 0 \<and> sp_SignalPort sp = 0"
proof -
  let ?env = "cmd_env ''0'' (\<lambda>s. Inr [1])"
  define vs where "vs = [(''server-port'', Int64V 444)]"
  define a where "a = downArgs (runetaled_parsed Down_Cmd vs)"
  have v: "logLevel a = ''info''"
    by (simp add: a_def vs_def runetaled_parsed_def assign_flags_def downCmd_flags_def flag_defs runetaled_init_fields
        common_args.defs host_args.defs)
  from down_host [OF v] obtain w1 w2 w3 c w4 where
    "NewRunelog ?env ''runetaled down'' (logLevel a) (logFile a) (debug a) installed_world = (Ok (), w1)"
    "NewDaemon ?env (dd ?env) w1 = (Ok (SystemD runetaled_linux), w2)"
    "Daemon_Status ?env (SystemD runetaled_linux) w2 = (Ok (running, True), w3)"
    "args_NewConf 1 ?env DefaultClientConfigFile a w3 = (Ok c, w4)" by blast
  moreover have "fresh_temps ?env DefaultClientConfigFile"
    using cmd_env_outside(2) [of "\<lambda>s. Inr [1]"] by (simp add: conf_outside_def Let_def)
  ultimately show ?thesis
    using down_erases_ports [of "\<lambda>_. Inr (Down_Cmd, vs)" "[''down'']" vs a] by (simp add: a_def vs_def)
qed

theorem runetale_up_blocks_witness:
  "\<exists>w'. runetale_up 1 (cmd_env ''0'' (\<lambda>s. Inr [1])) up1 conn_world0 = (Stuck, w') \<and>
     engine_mu \<in> held w'"
proof -
  let ?env = "cmd_env ''0'' (\<lambda>s. Inr [1])" and ?a = up1
  let ?w1 = "conn_world0\<lparr>hist := hist conn_world0 @ log_calls (logFile ?a) (debug ?a)\<rparr>"
  have l: "NewRunelog ?env ''runetale up'' (logLevel ?a) (logFile ?a) (debug ?a) conn_world0 = (Ok (), ?w1)"
    by (rule logger_ok) simp
  obtain c w2 where c: "args_NewConf 1 ?env (clientPath ?a) ?a ?w1 = (Ok c, w2)"
    by (rule calm_NewConf [of ?w1 "\<lambda>s. Inr [1]" ?a]) simp_all
  have "\<exists>inst w3. isInstallRunetaledDaemon ?env w2 = (Ok inst, w3)"
    by (cases "files w2 (daemonFilePath runetaled_linux)")
      (auto simp: isInstallRunetaledDaemon_def cmd_NewDaemon cmd_Status bind_def ret_def)
  then obtain inst w3 where i: "isInstallRunetaledDaemon ?env w2 = (Ok inst, w3)" by blast
  obtain w4 where r: "(if inst then ret True else isRunningRunetaledProcess ?env) w3 = (Ok True, w4)"
    by (cases inst) (simp_all add: isRunningRunetaledProcess_def process_defs attempt_Ok ret_def)
  obtain sys where sv: "conf_ServerClient c = NewServerClient ?env sys" using NewConf_clients [OF c] by blast
  have "\<exists>ip cidr w5. loginNode (accessToken ?a) (NodePubKey c) (sp_WgPrivateKey (conf_Spec c)) (conf_ServerClient c) w4 =
      (Ok (ip, cidr), w5)"
    by (simp add: sv loginNode_def NewServerClient_def ComposeNode_def
        ParseKey_def query_def gets_def bind_def ret_def)
  then obtain ip cidr w5 where "loginNode (accessToken ?a) (NodePubKey c) (sp_WgPrivateKey (conf_Spec c))
      (conf_ServerClient c) w4 = (Ok (ip, cidr), w5)" by blast
  from runetale_up_blocks [OF l c i r this] show ?thesis by simp
qed

theorem daemon_commands_need_root_witness:
  "(\<forall>h. \<not> is_root (cmd_env ''1'' (\<lambda>s. Inr [1])) h) \<and>
   files (snd (installDaemon (cmd_env ''1'' (\<lambda>s. Inr [1])) common1 installed_world)) = files installed_world"
  using daemon_commands_need_root [of "cmd_env ''1'' (\<lambda>s. Inr [1])" common1 installed_world] cmd_env_outside(4) by blast

theorem failed_login_exits_zero_witness:
  "main_exit (fst (runetaled_Run 1 (cmd_env ''0'' (\<lambda>s. Inl (ErrExt 9))) (\<lambda>_. Inr (Up_Cmd, [(''loglevel'', StringV ''info'')]))
     [''up''] (installed_world\<lparr>files := Map.empty\<rparr>))) = Some 0"
proof -
  define vs where "vs = [(''loglevel'', StringV ''info'')]"
  define a where "a = upArgs (runetaled_parsed Up_Cmd vs)"
  let ?env = "cmd_env ''0'' (\<lambda>s. Inl (ErrExt 9))" and ?w = "installed_world\<lparr>files := Map.empty\<rparr>"
  let ?w1 = "?w\<lparr>hist := hist ?w @ log_calls (logFile a) (debug a)\<rparr>"
  have v: "logLevel a = ''info''" "clientPath a = DefaultClientConfigFile"
    using upCmd_binds [THEN assign_flags_last, of vs runetaled_init]
    by (simp_all add: runetaled_parsed_def vs_def upArgs_default a_def)
  have l: "NewRunelog ?env ''runetaled up'' (logLevel a) (logFile a) (debug a) ?w = (Ok (), ?w1)"
    by (rule logger_ok) (rule v)
  obtain c w2 where c: "args_NewConf 1 ?env (clientPath a) a ?w1 = (Ok c, w2)"
    unfolding v(2) by (rule calm_NewConf [of ?w1 "\<lambda>s. Inl (ErrExt 9)" a]) simp_all
  obtain sys where "conf_ServerClient c = NewServerClient ?env sys" using NewConf_clients [OF c] by blast
  then have "sv_LoginNode (conf_ServerClient c) (NodePubKey c) (sp_WgPrivateKey (conf_Spec c)) w2 = (Err (ErrExt 9), w2)"
    by (simp add: NewServerClient_def LoginNode_def ParseKey_def throw_def bind_def)
  from failed_login_exits_zero [OF a_def l c this] show ?thesis by (simp only: vs_def)
qed

theorem signal_stops_node_witness:
  "\<exists>w'. bind (SignalTask_body RootChan) (\<lambda>_. runetaled_wait (cp_env (\<lambda>c. c = ExecCall (LookPath ''ip'')))
       (rcn1\<lparr>r_iface := Some \<lparr>Tun = ''rt0'', WgPrivateKey = [], IP = [], CIDR = []\<rparr>\<rparr>)) (cp_world0\<lparr>peerConns := []\<rparr>) = (Ok (), w')"
proof -
  let ?env = "cp_env (\<lambda>c. c = ExecCall (LookPath ''ip''))" and ?w = "cp_world0\<lparr>peerConns := []\<rparr>"
    and ?r = "rcn1\<lparr>r_iface := Some \<lparr>Tun = ''rt0'', WgPrivateKey = [], IP = [], CIDR = []\<rparr>\<rparr>"
  let ?w1 = "?w\<lparr>hist := hist ?w @ [SysCall WaitSignal]\<rparr>"
  have goos: "goos ?env = ''linux''"
    by (simp add: cp_env_def env_chain)
  have s: "\<exists>e w3. Rcn_Stop ?env ?r (?w1\<lparr>closed := insert RootChan (closed ?w)\<rparr>) = (Err e, w3)"
    by (simp add: Rcn_Stop_def cp_Close_def gets_def bind_def deref_def ret_def RemoveIface_def RemoveIface_linux_def
        query_def goos)
  then obtain e w3 where "Rcn_Stop ?env ?r (?w1\<lparr>closed := insert RootChan (closed ?w)\<rparr>) = (Err e, w3)" by blast
  from signal_stops_node [OF refl refl this] show ?thesis by simp
qed

end
