(* ===== verification/Handshake.thy ===== *)
theory Handshake
  imports Control_Plane
begin

text \<open>
  Two nodes: the offer of one, the answer of the other and the connections they start, put together
  from \<open>rcn/webrtc\<close>, \<open>rcn/conn\<close> and the dispatch of signals in \<open>rcn/controlplane\<close>. Each node has a world
  and an outside of its own. The signal server is not part of the program: that it delivers a
  signal with the key of its sender where the program looks for the peer is a hypothesis.
\<close>

section \<open>A peer that is set up\<close>

text \<open>
  Node \<open>nk\<close> with the public key \<open>pub\<close> holds the object \<open>n\<close> for its peer \<open>remote\<close> with the key \<open>rpub\<close>; its
  agent has the credentials \<open>u\<close> and \<open>p\<close>, nothing fails, and no mutex is held.
\<close>

definition peer_set_up :: "'e ice_env_scheme \<Rightarrow> 'z cp_world_scheme \<Rightarrow> nat \<Rightarrow> string \<Rightarrow> string \<Rightarrow> string \<Rightarrow> string
    \<Rightarrow> string \<Rightarrow> string \<Rightarrow> bool" where
  "peer_set_up env w n nk remote pub rpub u p \<longleftrightarrow>
     (\<exists>i. ices w n = Some i \<and> i_agent i \<and> i_sigexec i = Some \<lparr>dstmk = remote, srcmk = nk\<rparr> \<and>
        i_wgPubKey i = pub \<and> i_remoteWgPubKey i = rpub) \<and>
     peer_of (peerConns w) remote = Some n \<and> ice_mu n \<notin> held w \<and> cp_mu \<notin> held w \<and>
     (\<forall>h. err_of env h = None) \<and> (\<forall>h. creds_of env h = (u, p))"

definition waits :: "nat \<Rightarrow> 'z cp_world_scheme \<Rightarrow> bool" where
  "waits n w \<longleftrightarrow> (\<exists>i. ices w n = Some i \<and> i_waiting i)"

text \<open>A signal from \<open>remote\<close> as the program expects it.\<close>

definition signal_from :: "string \<Rightarrow> NegotiationType \<Rightarrow> string \<Rightarrow> string \<Rightarrow> NegotiationRequest \<Rightarrow> bool" where
  "signal_from remote t u p m \<longleftrightarrow> DstNodeKey m = remote \<and> MsgType m = t \<and> UFlag m = u \<and> Pwd m = p"

section \<open>The three steps\<close>

lemma offers:
  fixes w :: "'z cp_world_scheme"
  assumes "peer_set_up env w n nk remote pub rpub u p"
  obtains w1 where
    "bind (StartGatheringProcess env (NewSignalClient env sys) n) (\<lambda>_. waiting_enter n) w = (Ok (), w1)"
    "hist w1 = hist w @ [Go (WaitingRemotePeer n), IceCall n GetLocalUserCredentials, SignalCall (NegOffer remote nk u p)]"
    "peer_set_up env w1 n nk remote pub rpub u p" "waits n w1"
proof -
  from assms obtain i where i: "ices w n = Some i" "i_agent i" "i_sigexec i = Some \<lparr>dstmk = remote, srcmk = nk\<rparr>"
    "i_wgPubKey i = pub" "i_remoteWgPubKey i = rpub" and o: "ice_mu n \<notin> held w" "\<forall>h. err_of env h = None"
    "\<forall>h. creds_of env h = (u, p)" by (auto simp: peer_set_up_def)
  define h where "h = hist w @ [Go (WaitingRemotePeer n), IceCall n GetLocalUserCredentials, SignalCall (NegOffer remote nk u p)]"
  define w1 where "w1 = w\<lparr>hist := h, ices := (ices w)(n \<mapsto> i\<lparr>i_waiting := True\<rparr>)\<rparr>"
  have "StartGatheringProcess env (NewSignalClient env sys) n w = (Ok (), w\<lparr>hist := h\<rparr>)"
    using StartGatheringProcess_offers [OF i(1) o(1) i(2,3) refl _ _ refl, of env u p sys] o by (simp add: h_def)
  then have "bind (StartGatheringProcess env (NewSignalClient env sys) n) (\<lambda>_. waiting_enter n) w = (Ok (), w1)"
    using i(1) by (simp add: bind_def waiting_enter_def set_ice_def modify_def w1_def)
  then show thesis
    by (rule that) (use assms i in \<open>auto simp: w1_def h_def peer_set_up_def waits_def\<close>)
qed

lemma receives:
  fixes w :: "'z cp_world_scheme"
  assumes "peer_set_up env w n nk remote pub rpub u p" "waits n w" "signal_from remote t u' p' m"
    "t = OFFER \<and> k = OfferKind \<or> t = ANSWER \<and> k = AnswerKind"
  obtains i w1 where "signal_handler env (Some m) w = (Ok (), w1)" "hist w1 = hist w" "held w1 = held w"
    "ices w1 n = Some i" "i_inbox i = Some (k, \<lparr>UserName = u', creds_Pwd = p'\<rparr>)" "i_agent i"
    "i_sigexec i = Some \<lparr>dstmk = remote, srcmk = nk\<rparr>" "i_wgPubKey i = pub" "i_remoteWgPubKey i = rpub"
proof -
  from assms(1,2) obtain i where i: "ices w n = Some i" "i_agent i" "i_sigexec i = Some \<lparr>dstmk = remote, srcmk = nk\<rparr>"
    "i_wgPubKey i = pub" "i_remoteWgPubKey i = rpub" "i_waiting i" by (auto simp: peer_set_up_def waits_def)
  define j where "j = i\<lparr>i_waiting := False, i_inbox := Some (k, \<lparr>UserName = u', creds_Pwd = p'\<rparr>)\<rparr>"
  have "signal_handler env (Some m) w = (Ok (), w\<lparr>ices := (ices w)(n \<mapsto> j)\<rparr>)"
    using assms i
    by (auto simp: signal_handler_def with_lock_def gets_def bind_def receiveSignalRequest_def peer_set_up_def
        signal_from_def getter_def GetType_def SendRemoteOfferCh_def SendRemoteAnswerCh_def SendRemoteCh_def with_ice_def
        set_ice_def modify_def j_def)
  then show thesis by (rule that [where i = j]) (use i in \<open>simp_all add: j_def\<close>)
qed

lemma turns_to_peer:
  fixes w :: "'z cp_world_scheme"
  assumes "peer_set_up env w n nk remote pub rpub u p" "waits n w" "signal_from remote t u' p' m"
    "t = OFFER \<and> k = OfferKind \<or> t = ANSWER \<and> k = AnswerKind"
  obtains w1 cs where "signal_handler env (Some m) w = (Ok (), w1)"
    "hist (snd (waiting_turn env (NewSignalClient env sys) (NewServerClient env sys) n w1)) = hist w @
      (if k = OfferKind then [IceCall n GetLocalUserCredentials, SignalCall (NegAnswer remote nk u p)] else []) @
      [IceCall n GatherCandidates, IceCall n (if dials pub rpub then AgentDial u' p' else AgentAccept u' p')] @ cs"
proof -
  obtain i w1 where r: "signal_handler env (Some m) w = (Ok (), w1)" "hist w1 = hist w" "held w1 = held w"
    "ices w1 n = Some i" "i_inbox i = Some (k, \<lparr>UserName = u', creds_Pwd = p'\<rparr>)" "i_agent i"
    "i_sigexec i = Some \<lparr>dstmk = remote, srcmk = nk\<rparr>" "i_wgPubKey i = pub" "i_remoteWgPubKey i = rpub"
    by (rule receives [OF assms])
  have o: "ice_mu n \<notin> held w1" "\<forall>h. err_of env h = None" "\<forall>h. creds_of env h = (u, p)"
    using assms(1) r(3) by (simp_all add: peer_set_up_def)
  from waiting_turn_order [OF r(4-7) o, of sys] obtain cs where
    "hist (snd (waiting_turn env (NewSignalClient env sys) (NewServerClient env sys) n w1)) = hist w1 @
      (if k = OfferKind then [IceCall n GetLocalUserCredentials, SignalCall (NegAnswer remote nk u p)] else []) @
      [IceCall n GatherCandidates, IceCall n (if dials pub rpub then AgentDial u' p' else AgentAccept u' p')] @ cs"
    using r(8,9) by auto
  with that [OF r(1)] r(2) show thesis by simp
qed

section \<open>Properties\<close>

text \<open>
  C9. Two nodes that are set up for each other connect: one offers its credentials, the other answers
  with its own, gathers candidates and starts its connection with the credentials of the offer, and
  the first, on the answer, does so with those of the answer; of the two, one dials and the other
  accepts.
\<close>
theorem two_nodes_connect:
  fixes wa :: "'y cp_world_scheme" and wb :: "'z cp_world_scheme"
  assumes "peer_set_up ea wa a ka kb ga gb ua pa" "peer_set_up eb wb b kb ka gb ga ub pb" "waits b wb" "ga \<noteq> gb"
    "signal_from ka OFFER ua pa offer" "signal_from kb ANSWER ub pb answer"
  shows "\<exists>wa1 wb1 wa2 x y cs ds.
    bind (StartGatheringProcess ea (NewSignalClient ea sa) a) (\<lambda>_. waiting_enter a) wa = (Ok (), wa1) \<and>
    last (hist wa1) = SignalCall (NegOffer kb ka ua pa) \<and>
    signal_handler eb (Some offer) wb = (Ok (), wb1) \<and>
    hist (snd (waiting_turn eb (NewSignalClient eb sb) (NewServerClient eb sb) b wb1)) = hist wb @
      [IceCall b GetLocalUserCredentials, SignalCall (NegAnswer ka kb ub pb), IceCall b GatherCandidates, IceCall b x] @ cs \<and>
    signal_handler ea (Some answer) wa1 = (Ok (), wa2) \<and>
    hist (snd (waiting_turn ea (NewSignalClient ea sa) (NewServerClient ea sa) a wa2)) = hist wa1 @
      [IceCall a GatherCandidates, IceCall a y] @ ds \<and>
    (x = AgentDial ua pa \<and> y = AgentAccept ub pb \<or> x = AgentAccept ua pa \<and> y = AgentDial ub pb)"
proof -
  obtain wa1 where 1: "bind (StartGatheringProcess ea (NewSignalClient ea sa) a) (\<lambda>_. waiting_enter a) wa = (Ok (), wa1)"
    "hist wa1 = hist wa @ [Go (WaitingRemotePeer a), IceCall a GetLocalUserCredentials, SignalCall (NegOffer kb ka ua pa)]"
    "peer_set_up ea wa1 a ka kb ga gb ua pa" "waits a wa1"
    by (rule offers [OF assms(1)])
  obtain wb1 cs where 2: "signal_handler eb (Some offer) wb = (Ok (), wb1)"
    "hist (snd (waiting_turn eb (NewSignalClient eb sb) (NewServerClient eb sb) b wb1)) = hist wb @
      [IceCall b GetLocalUserCredentials, SignalCall (NegAnswer ka kb ub pb), IceCall b GatherCandidates,
       IceCall b (if dials gb ga then AgentDial ua pa else AgentAccept ua pa)] @ cs"
    by (rule turns_to_peer [OF assms(2,3,5), of OfferKind sb]) auto
  obtain wa2 ds where 3: "signal_handler ea (Some answer) wa1 = (Ok (), wa2)"
    "hist (snd (waiting_turn ea (NewSignalClient ea sa) (NewServerClient ea sa) a wa2)) = hist wa1 @
      [IceCall a GatherCandidates, IceCall a (if dials ga gb then AgentDial ub pb else AgentAccept ub pb)] @ ds"
    by (rule turns_to_peer [OF 1(3,4) assms(6), of AnswerKind sa]) auto
  have "dials gb ga \<longleftrightarrow> \<not> dials ga gb" using assms(4) by (auto simp: dials_def)
  with 1(1,2) 2 3 show ?thesis by (cases "dials ga gb") auto
qed

text \<open>Two nodes with the keys \<open>a\<close> and \<open>b\<close>.\<close>

definition node_world :: "string \<Rightarrow> string \<Rightarrow> cp_world" where
  "node_world nk remote = cp_world0\<lparr>peerConns := [(remote, Some 0)],
     ices := (ices cp_world0)(0 := map_option (\<lambda>i. i\<lparr>i_agent := True, i_sigexec := Some \<lparr>dstmk = remote, srcmk = nk\<rparr>,
       i_wgPubKey := ''pub-'' @ nk, i_remoteWgPubKey := ''pub-'' @ remote, i_waiting := True\<rparr>) (ices cp_world0 0))\<rparr>"

definition node_env :: "string \<Rightarrow> ice_env" where
  "node_env nk = ice_env1\<lparr>creds_of := \<lambda>h. (''u-'' @ nk, ''p-'' @ nk)\<rparr>"

lemma node_set_up:
  "peer_set_up (node_env nk) (node_world nk remote) 0 nk remote (''pub-'' @ nk) (''pub-'' @ remote) (''u-'' @ nk) (''p-'' @ nk)"
  "waits 0 (node_world nk remote)"
  by (simp_all add: peer_set_up_def waits_def node_world_def node_env_def peer_of_def)

theorem two_nodes_connect_witness:
  "\<exists>wb1 x cs. signal_handler (node_env ''b'') (Some \<lparr>DstNodeKey = ''a'', MsgType = OFFER, UFlag = ''u-a'', Pwd = ''p-a'', Candidate = []\<rparr>)
       (node_world ''b'' ''a'') = (Ok (), wb1) \<and>
     hist (snd (waiting_turn (node_env ''b'') (NewSignalClient (node_env ''b'') sys1) (NewServerClient (node_env ''b'') sys1) 0 wb1)) =
       [IceCall 0 GetLocalUserCredentials, SignalCall (NegAnswer ''a'' ''b'' ''u-b'' ''p-b''), IceCall 0 GatherCandidates, IceCall 0 x] @ cs \<and>
     x \<in> {AgentDial ''u-a'' ''p-a'', AgentAccept ''u-a'' ''p-a''}"
proof -
  let ?m = "\<lparr>DstNodeKey = ''a'', MsgType = OFFER, UFlag = ''u-a'', Pwd = ''p-a'', Candidate = []\<rparr>"
    and ?m' = "\<lparr>DstNodeKey = ''b'', MsgType = ANSWER, UFlag = ''u-b'', Pwd = ''p-b'', Candidate = []\<rparr>"
  have s: "signal_from ''a'' OFFER ''u-a'' ''p-a'' ?m" "signal_from ''b'' ANSWER ''u-b'' ''p-b'' ?m'" by (simp_all add: signal_from_def)
  have "hist (node_world ''b'' ''a'') = []" by (simp add: node_world_def)
  with two_nodes_connect [OF node_set_up(1) [of "''a''" "''b''", simplified] node_set_up(1) [of "''b''" "''a''", simplified] node_set_up(2) _ s, of sys1 sys1]
  show ?thesis by auto
qed

end
