(* ===== verification/Spec2Isabelle.thy ===== *)
theory Spec2Isabelle
  imports Flag_Port Commands Handshake
begin

text \<open>
  A model of Runetale, a peer-to-peer VPN: the daemon \<open>runetaled\<close> logs a node in, creates its
  WireGuard interface and keeps one ICE connection for each peer the server names; the client
  \<open>runetale\<close> asks the daemon for its status over a local socket. Everything below \<open>src/\<close> that is
  Go code of the program is modelled, but for what the last section of this text lists.

  \<^bold>\<open>Effects.\<close> A function with effects has the type \<open>('w, 'a) go\<close> of \<open>Prelude\<close>: from a world to a
  result and a new world. A result is a value, an error (\<open>Err\<close>, the last return value of the Go
  function), a panic or \<open>Stuck\<close>, a goroutine that blocks for ever. \<open>bind\<close> is \<open>if err != nil
  { return err }\<close>, \<open>attempt\<close> hands the error to the code that looks at it, \<open>ignore\<close> is \<open>_ = f()\<close> and
  an error that is only logged, \<open>deferring\<close> is \<open>defer\<close>. The world of \<open>World\<close> holds the files, the
  locked mutexes, the closed channels and the history of all calls to the outside (the operating
  system, gRPC, the ICE agent, WireGuard). Those calls are answered by an environment \<open>env\<close> that
  may depend on the whole history; nothing is assumed of it, so a theorem over every \<open>env\<close> holds
  whatever the outside does, and what the code relies on is a named hypothesis. Each component
  extends the record of the world with its own fields: \<open>signal_world\<close> (the connection status),
  \<open>proxy_world\<close>, \<open>conn_world\<close>, \<open>ice_world\<close> (the objects by their numbers) and \<open>cp_world\<close> (the peers).

  \<^bold>\<open>Theories and sources.\<close>
  \<^item> \<open>Go_Number\<close>, \<open>Go_Strings\<close>, \<open>Net_IP\<close>: what the program uses of \<open>strconv\<close>, \<open>strings\<close> and \<open>net\<close>, and
    the rounding of floats, which is exact for integers below 2 to the 53.
  \<^item> \<open>Base64\<close>, \<open>Json\<close>, \<open>Json_Value\<close>, \<open>Json_Text\<close>, \<open>Json_Codec\<close>: what the program uses of \<open>encoding/json\<close> for
    the state file and the specification, from the escapes of a string to the Go types; a text that
    was written is read back, and strings that are not UTF-8 are the only values that change.
  \<^item> \<open>Backoff\<close>: \<open>backoff/backoff.go\<close>. \<open>Hex_Key\<close>: \<open>types/key\<close>. \<open>Utils\<close>: \<open>utils\<close>, \<open>types/key/wireguard.go\<close>.
  \<^item> \<open>Fs\<close>: files, \<open>utils/file.go\<close>, \<open>paths\<close>. \<open>File_Store\<close>, \<open>Client_Store\<close>: \<open>store\<close>. \<open>Spec_Conf\<close>, \<open>Conf\<close>:
    \<open>conf\<close>, \<open>tun\<close>. \<open>System_Info\<close>: \<open>system\<close>, \<open>process\<close>, \<open>runelog\<close>. \<open>Flag_Port\<close>: \<open>types/flagtype\<close>.
  \<^item> \<open>Conn_State\<close>: \<open>rcn/conn/status.go\<close>. \<open>Server_Client\<close>, \<open>Signal_Client\<close>: \<open>client/grpc\<close>.
  \<^item> \<open>Iface\<close>: \<open>iface\<close>, \<open>wg\<close>, \<open>distro\<close>. \<open>Wire_Proxy\<close>: \<open>rcn/proxy\<close>. \<open>Peer_Conn\<close>: \<open>rcn/conn/conn.go\<close>.
    \<open>Ice\<close>: \<open>rcn/webrtc\<close>. \<open>Rcn_Sock\<close>: \<open>rcn/rcnsock\<close>. \<open>Control_Plane\<close>: \<open>rcn/controlplane\<close>. \<open>Rcn\<close>: \<open>rcn/rcn.go\<close>.
    \<open>Handshake\<close>: the negotiation of two nodes, from all of these.
  \<^item> \<open>Engine\<close>: \<open>engine\<close>. \<open>Daemon_Systemd\<close>, \<open>Daemon_Darwin\<close>, \<open>Daemon\<close>: \<open>daemon\<close>. \<open>Flags\<close>, \<open>Commands\<close>: \<open>cmd\<close>.

  A Go method is the definition of its name, prefixed where two have the same (\<open>SC_\<close> for the
  signal client, \<open>cp_\<close>, \<open>darwin_\<close>, \<open>r_\<close> for the commands of \<open>runetale\<close>); a struct that is shared
  through a pointer lives in the world under a number, one that is not is a record that is
  passed and returned. The body of a goroutine is a definition of its own (\<open>..._body\<close>, or one
  turn of its loop, \<open>..._turn\<close>), and starting it is a \<open>Go\<close> in the history.
  Where the order of goroutines matters, their bodies are cut at the calls that may block and a
  path of turns (\<open>run_path\<close>, \<open>interleave\<close> of \<open>Prelude\<close>) is any order of them.

  \<^bold>\<open>Interfaces.\<close> A contract between components is a locale: \<open>retry_policy\<close> (a policy that runs out),
  \<open>rounding\<close>, \<open>file_store_manager\<close>, \<open>server_client\<close>, \<open>signal_client\<close>, \<open>proxy_keeps\<close>, \<open>conn_keeps\<close> and
  \<open>ice_keeps\<close> (which operations keep an invariant), \<open>daemon_service\<close> (what each init system
  promises). Each is interpreted on the definitions of the component that provides it.

  \<^bold>\<open>Properties.\<close> In the order of the life of a node:
  \<^item> installing and uninstalling the daemon restores the files when the service runs, and leaves
    the link of an enabled unit when it is stopped; both need root and, on launchd, an
    installation may remove the binary it copies (\<open>Daemon_Systemd\<close>, \<open>Daemon_Darwin\<close>, \<open>Commands\<close>);
  \<^item> flags reach the variables they name (\<open>Flags\<close>), a command ends or blocks (\<open>Commands\<close>), the calls of an
    engine deadlock in every interleaving (\<open>Engine\<close>, a step relation that is tied to the functions);
  \<^item> an atomic write leaves the old or the new contents, a store is a map that survives a restart
    (a refinement), a specification that was written is read back, a node keeps its identity over a restart (\<open>Fs\<close>, \<open>File_Store\<close>,
    \<open>Client_Store\<close>, \<open>Spec_Conf\<close>, \<open>Conf\<close>, \<open>Hex_Key\<close>);
  \<^item> the status of the connection is never closed twice and wakes its waiters in every
    interleaving, and one wake-up can be lost (\<open>Conn_State\<close>, a step relation with rule induction);
  \<^item> a retry always ends within the number of runs its policy allows, whatever happens, and while
    the clock stays within the time limit its outcome and the number of its runs are those that
    a list of the results of the runs determines (\<open>Backoff\<close>);
  \<^item> the peers of the control plane are those the server names, whatever the order of the events
    (\<open>Control_Plane\<close>); of two peers exactly one dials (\<open>Peer_Conn\<close>),
    and the negotiation of two whole nodes ends with connections that match (\<open>Handshake\<close>); a relay writes what it read
    and, once stopped, ends with the \<open>Read\<close> it is in, which nothing releases (\<open>Wire_Proxy\<close>); the reports of the agent set the status (\<open>Ice\<close>, a refinement);
  \<^item> errors and panics: which inputs from outside bring the process down, and where an error is
    dropped.

  \<^bold>\<open>Loops.\<close> The retry loop and the loop of the stream are \<open>partial_function (option)\<close>: \<open>None\<close> is a loop
  that never ends, and the theorems show the value. Loops of goroutines that are meant to run for
  ever are given by one turn, or by a number of turns after which they still wait
  (\<open>accept_loop\<close>, \<open>SyncRemoteNodes\<close>). A turn of a relay loop is a step of a goroutine that may be in
  its \<open>Read\<close>; a list says before which turns it is cancelled and in which its socket has an answer,
  so that a \<open>Read\<close> can block for as long as the list goes on. The loops of \<open>system\<close>, which wait for a command to stop
  failing, take the number of their turns; a theorem that assumes a calm environment needs one.

  \<^bold>\<open>Parameters.\<close> Not part of the repository and therefore parameters: the generated gRPC stubs
  and messages, the ICE agent, \<open>wgctrl\<close> and the keys of \<open>wgtypes\<close> (\<open>parse_key\<close>, \<open>key_string\<close>,
  \<open>public_key\<close>), the parser of the command line (\<open>ffcli\<close>), what the commands of \<open>systemctl\<close> do to
  the files (\<open>ctl_files\<close>; the hypothesis \<open>systemctl_links\<close> is what \<open>enable\<close> and \<open>disable\<close> are
  documented to do to the link of a unit), and of the standard library the messages of
  \<open>encoding/gob\<close>, which the local socket sends whole.

  \<^bold>\<open>Not modelled.\<close> Lines of the log; time, but for the clock of the retry policies; data races and
  read locks (a function runs between its calls without interruption, except in the step
  relations of \<open>Conn_State\<close> and \<open>Engine\<close> and in the relay loops); what other processes do to the
  files, the started service and the commands of \<open>launchctl\<close> among them; the rendezvous of the channel of the control plane, which is
  a queue; directories;
  \<open>system/system_freebsd.go\<close>, which does not compile; the marker type of \<open>types/structs\<close>.
\<close>

end
